theory Spec2Isabelle
  imports Complex_Main
begin

section \<open>Numbers, panics and dense matrices\<close>

text \<open>
  The Go sources compute on \<open>float64\<close>. In this development a \<open>float64\<close> is modelled by
  an exact real number: rounding, infinities and NaN are not represented. The section on
  rounding below is the exception; it repeats the norm and clipping code with rounded
  operations.
  The one place where the source starts a variable at \<open>+Inf\<close> (the objective trackers of
  \<open>LinFit\<close>) uses the type \<open>xreal\<close> below. A Go panic is a value of type \<open>panic\<close>;
  a computation that may panic returns \<open>panic + 'a\<close>.
\<close>

datatype panic =
  ErrShape | ErrRowAccess | ErrColAccess | NilPointer | IndexOutOfRange
  | TypeAssertion | DivideByZero | OptimizerPanic | NegativeDimension

type_synonym 'a res = "panic + 'a"

definition bind_res :: "'a res \<Rightarrow> ('a \<Rightarrow> 'b res) \<Rightarrow> 'b res" where
  "bind_res m f = (case m of Inl e \<Rightarrow> Inl e | Inr x \<Rightarrow> f x)"

fun mapM_res :: "('a \<Rightarrow> 'b res) \<Rightarrow> 'a list \<Rightarrow> 'b list res" where
  "mapM_res f [] = Inr []"
| "mapM_res f (x # xs) =
     (case f x of Inl e \<Rightarrow> Inl e
      | Inr y \<Rightarrow> (case mapM_res f xs of Inl e \<Rightarrow> Inl e | Inr ys \<Rightarrow> Inr (y # ys)))"

text \<open>
  A \<open>*mat.Dense\<close> created by \<open>mat.NewDense\<close>: row count, column count and the row-major
  backing slice (the stride equals the column count). A nil pointer is \<open>None\<close>.
\<close>

record dense =
  nrows :: nat
  ncols :: nat
  elems :: "real list"

definition NewDense :: "nat \<Rightarrow> nat \<Rightarrow> dense" where
  "NewDense r c = \<lparr>nrows = r, ncols = c, elems = replicate (r * c) 0\<rparr>"

definition deref :: "dense option \<Rightarrow> dense res" where
  "deref p = (case p of None \<Rightarrow> Inl NilPointer | Some m \<Rightarrow> Inr m)"

text \<open>\<open>m.At(i, j)\<close>: a checked read.\<close>

definition At :: "dense \<Rightarrow> nat \<Rightarrow> nat \<Rightarrow> real res" where
  "At m i j =
     (if nrows m \<le> i then Inl ErrRowAccess
      else if ncols m \<le> j then Inl ErrColAccess
      else Inr (elems m ! (i * ncols m + j)))"

text \<open>\<open>m.Set(i, j, v)\<close>: a checked write.\<close>

definition Set_dense :: "dense \<Rightarrow> nat \<Rightarrow> nat \<Rightarrow> real \<Rightarrow> dense res" where
  "Set_dense m i j v =
     (if nrows m \<le> i then Inl ErrRowAccess
      else if ncols m \<le> j then Inl ErrColAccess
      else Inr (m\<lparr>elems := (elems m)[i * ncols m + j := v]\<rparr>))"

text \<open>
  \<open>m.Apply(fn, a)\<close>: the receiver \<open>m\<close> must be empty or have the shape of \<open>a\<close>
  (otherwise \<open>ErrShape\<close>); then entry \<open>(i, j)\<close> of the receiver becomes
  \<open>fn(i, j, a.At(i, j))\<close>, in row-major order. The callback may itself panic. Every
  callback of the sources reads the receiver, if at all, only at the position being
  written, so the callbacks below read the receiver's value from before the call.
\<close>

definition Apply :: "(nat \<Rightarrow> nat \<Rightarrow> real \<Rightarrow> real res) \<Rightarrow> dense \<Rightarrow> dense \<Rightarrow> dense res" where
  "Apply fn a m =
     (if ncols m \<noteq> 0 \<and> (nrows m \<noteq> nrows a \<or> ncols m \<noteq> ncols a) then Inl ErrShape
      else bind_res
             (mapM_res (\<lambda>k. fn (k div ncols a) (k mod ncols a) (elems a ! k))
                [0 ..< nrows a * ncols a])
             (\<lambda>vs. Inr \<lparr>nrows = nrows a, ncols = ncols a, elems = vs\<rparr>))"

text \<open>\<open>m.Scale(f, a)\<close>: the same shape rule, every entry of \<open>a\<close> multiplied by \<open>f\<close>.\<close>

definition Scale :: "real \<Rightarrow> dense \<Rightarrow> dense \<Rightarrow> dense res" where
  "Scale f a m =
     (if ncols m \<noteq> 0 \<and> (nrows m \<noteq> nrows a \<or> ncols m \<noteq> ncols a) then Inl ErrShape
      else Inr \<lparr>nrows = nrows a, ncols = ncols a, elems = map (\<lambda>v. f * v) (elems a)\<rparr>)"

text \<open>\<open>m.Add(a, b)\<close>: \<open>a\<close> and \<open>b\<close> must agree in shape, and so must a non-empty receiver.\<close>

definition Add_dense :: "dense \<Rightarrow> dense \<Rightarrow> dense \<Rightarrow> dense res" where
  "Add_dense a b m =
     (if nrows a \<noteq> nrows b \<or> ncols a \<noteq> ncols b then Inl ErrShape
      else if ncols m \<noteq> 0 \<and> (nrows m \<noteq> nrows a \<or> ncols m \<noteq> ncols a) then Inl ErrShape
      else Inr \<lparr>nrows = nrows a, ncols = ncols a,
                elems = map (\<lambda>(x, y). x + y) (zip (elems a) (elems b))\<rparr>)"

section \<open>The update rule: \<open>SGDOptimizer\<close>\<close>

text \<open>
  The struct of the source, field by field. \<open>TimeStep\<close> is a \<open>float64\<close> that only ever
  holds a count (it starts at zero and is incremented by one), so it is a natural number
  here; the count is exact in \<open>float64\<close> up to \<open>2^53\<close> steps.
\<close>

record SGDOptimizer =
  StepSize :: real
  Momentum :: real
  GradientClipping :: real
  RMSPropGamma :: real
  Epsilon :: real
  Adagrad :: bool
  Adadelta :: bool
  RMSProp :: bool
  Adam :: bool
  NFeatures :: nat
  NOutputs :: nat
  GtNorm :: "dense option"
  Theta :: "dense option"
  PrevUpdate :: "dense option"
  Update :: "dense option"
  AdagradG :: "dense option"
  AdadeltaU :: "dense option"
  TimeStep :: nat
  Beta1 :: real
  Beta2 :: real
  Mt :: "dense option"
  Vt :: "dense option"
  Mtcap :: "dense option"
  Vtcap :: "dense option"

text \<open>The zero value of the struct, from which every constructor starts.\<close>

definition zeroSGDOptimizer :: SGDOptimizer where
  "zeroSGDOptimizer =
     \<lparr>StepSize = 0, Momentum = 0, GradientClipping = 0, RMSPropGamma = 0, Epsilon = 0,
      Adagrad = False, Adadelta = False, RMSProp = False, Adam = False,
      NFeatures = 0, NOutputs = 0,
      GtNorm = None, Theta = None, PrevUpdate = None, Update = None,
      AdagradG = None, AdadeltaU = None, TimeStep = 0, Beta1 = 0, Beta2 = 0,
      Mt = None, Vt = None, Mtcap = None, Vtcap = None\<rparr>"

definition NewSGDOptimizer :: SGDOptimizer where
  "NewSGDOptimizer =
     zeroSGDOptimizer\<lparr>StepSize := 1 / 10000, Momentum := 9 / 10,
                       RMSPropGamma := 9 / 10, Epsilon := 1 / 100000000\<rparr>"

definition NewAdagradOptimizer :: SGDOptimizer where
  "NewAdagradOptimizer =
     NewSGDOptimizer\<lparr>StepSize := 1 / 2, Momentum := 0, Adagrad := True,
                      GradientClipping := 10\<rparr>"

definition NewAdadeltaOptimizer :: SGDOptimizer where
  "NewAdadeltaOptimizer = NewSGDOptimizer\<lparr>Momentum := 0, Adadelta := True\<rparr>"

definition NewRMSPropOptimizer :: SGDOptimizer where
  "NewRMSPropOptimizer =
     NewSGDOptimizer\<lparr>StepSize := 5 / 100, Momentum := 0, RMSProp := True,
                      RMSPropGamma := 9 / 10\<rparr>"

definition NewAdamOptimizer :: SGDOptimizer where
  "NewAdamOptimizer =
     zeroSGDOptimizer\<lparr>StepSize := 1 / 2, Beta1 := 9 / 10, Beta2 := 999 / 1000,
                       Epsilon := 1 / 100000000, Adam := True\<rparr>"

text \<open>\<open>NewOptimizer\<close> panics on any name outside the five it knows.\<close>

definition NewOptimizer :: "string \<Rightarrow> SGDOptimizer res" where
  "NewOptimizer name =
     (if name = ''sgd'' then Inr NewSGDOptimizer
      else if name = ''adagrad'' then Inr NewAdagradOptimizer
      else if name = ''adadelta'' then Inr NewAdadeltaOptimizer
      else if name = ''rmsprop'' then Inr NewRMSPropOptimizer
      else if name = ''adam'' then Inr NewAdamOptimizer
      else Inl OptimizerPanic)"

definition SetTheta :: "SGDOptimizer \<Rightarrow> dense \<Rightarrow> SGDOptimizer" where
  "SetTheta s th = s\<lparr>NFeatures := nrows th, NOutputs := ncols th, Theta := Some th\<rparr>"

definition GetTheta :: "SGDOptimizer \<Rightarrow> dense option" where
  "GetTheta s = Theta s"

definition GetTimeStep :: "SGDOptimizer \<Rightarrow> nat" where
  "GetTimeStep s = TimeStep s"

text \<open>\<open>colNorm\<close>: the L2 norm of column \<open>oc\<close>, read entry by entry with \<open>At\<close>.\<close>

definition colNorm :: "dense \<Rightarrow> nat \<Rightarrow> real res" where
  "colNorm m oc =
     bind_res (mapM_res (\<lambda>j. At m j oc) [0 ..< nrows m])
       (\<lambda>vs. Inr (sqrt (foldl (\<lambda>s v. s + v * v) 0 vs)))"

text \<open>The local closure \<open>init\<close> of \<open>GetUpdate\<close>: every entry set to \<open>v0\<close>.\<close>

definition init_fill :: "dense \<Rightarrow> real \<Rightarrow> dense" where
  "init_fill m v0 = m\<lparr>elems := map (\<lambda>v. v0) (elems m)\<rparr>"

text \<open>The first-call block of \<open>GetUpdate\<close> (\<open>if s.TimeStep == 0.\<close>).\<close>

definition first_call_alloc :: "SGDOptimizer \<Rightarrow> nat \<Rightarrow> nat \<Rightarrow> SGDOptimizer" where
  "first_call_alloc s nf no =
     (let s1 = (if 0 < GradientClipping s then s\<lparr>GtNorm := Some (NewDense no 1)\<rparr> else s);
          s2 = s1\<lparr>PrevUpdate := Some (NewDense nf no)\<rparr>;
          s3 = (if Adagrad s \<or> RMSProp s \<or> Adadelta s
                then s2\<lparr>AdagradG := Some (init_fill (NewDense nf no) (Epsilon s))\<rparr> else s2);
          s4 = (if Adadelta s
                then s3\<lparr>AdadeltaU := Some (init_fill (NewDense nf no) 1)\<rparr> else s3)
      in if Adam s
         then s4\<lparr>Mt := Some (NewDense nf no), Vt := Some (NewDense nf no),
                 Mtcap := Some (NewDense nf no), Vtcap := Some (NewDense nf no)\<rparr>
         else s4)"

text \<open>
  The loop \<open>for j := 0; j < NOutputs; j++ { s.GtNorm.Set(j, 0, colNorm(grad, j)) }\<close>,
  run only when clipping is enabled.
\<close>

fun set_norms :: "dense \<Rightarrow> nat list \<Rightarrow> dense \<Rightarrow> dense res" where
  "set_norms grad [] gn = Inr gn"
| "set_norms grad (j # js) gn =
     bind_res (colNorm grad j) (\<lambda>n.
       bind_res (Set_dense gn j 0 n) (\<lambda>gn'. set_norms grad js gn'))"

definition compute_norms :: "SGDOptimizer \<Rightarrow> dense \<Rightarrow> SGDOptimizer res" where
  "compute_norms s grad =
     (if 0 < GradientClipping s
      then bind_res (deref (GtNorm s)) (\<lambda>gn.
             bind_res (set_norms grad [0 ..< ncols grad] gn) (\<lambda>gn'.
               Inr (s\<lparr>GtNorm := Some gn'\<rparr>)))
      else Inr s)"

text \<open>
  The local closure \<open>gradientClipped\<close>. Go's \<open>&&\<close> does not read \<open>GtNorm\<close> when clipping
  is disabled.
\<close>

definition gradientClipped :: "SGDOptimizer \<Rightarrow> dense \<Rightarrow> nat \<Rightarrow> nat \<Rightarrow> real res" where
  "gradientClipped s grad j oc =
     bind_res (At grad j oc) (\<lambda>gradjo.
       if 0 < GradientClipping s
       then bind_res (deref (GtNorm s)) (\<lambda>gn.
              bind_res (At gn oc 0) (\<lambda>n.
                if GradientClipping s < n then Inr (gradjo * (GradientClipping s / n))
                else Inr gradjo))
       else Inr gradjo)"

text \<open>
  The receiver of \<open>Apply\<close> as its callback sees it: an empty receiver is first
  allocated (zeroed) with the shape of the argument.
\<close>

definition reuseAs :: "dense \<Rightarrow> dense \<Rightarrow> dense" where
  "reuseAs m a = (if ncols m = 0 then NewDense (nrows a) (ncols a) else m)"

subsection \<open>The five branches of \<open>GetUpdate\<close>\<close>

text \<open>
  Each branch takes the optimizer after the time step was incremented and the column
  norms were stored, the caller's \<open>update\<close> matrix and the gradient, and returns the
  optimizer with its accumulators updated together with the new \<open>update\<close> matrix.
\<close>

definition update_RMSProp :: "SGDOptimizer \<Rightarrow> dense \<Rightarrow> dense \<Rightarrow> (SGDOptimizer \<times> dense) res" where
  "update_RMSProp s update grad =
     bind_res (deref (AdagradG s)) (\<lambda>G.
     bind_res (Apply (\<lambda>j oc v.
                 bind_res (if 1 < TimeStep s
                           then bind_res (At G j oc) (\<lambda>g1.
                                  if 1 < \<bar>g1\<bar>
                                  then bind_res (At G j oc) (\<lambda>g2.
                                         Inr (StepSize s / sqrt (g2 + Epsilon s)))
                                  else Inr (StepSize s))
                           else Inr (StepSize s)) (\<lambda>etajo.
                 bind_res (gradientClipped s grad j oc) (\<lambda>gc. Inr (- etajo * gc))))
               G update) (\<lambda>upd.
     bind_res (Apply (\<lambda>j oc v.
                 bind_res (gradientClipped s grad j oc) (\<lambda>gradjo.
                   Inr (v * RMSPropGamma s + (1 - RMSPropGamma s) * gradjo * gradjo)))
               G G) (\<lambda>G'.
     Inr (s\<lparr>AdagradG := Some G'\<rparr>, upd))))"

definition update_Adagrad :: "SGDOptimizer \<Rightarrow> dense \<Rightarrow> dense \<Rightarrow> (SGDOptimizer \<times> dense) res" where
  "update_Adagrad s update grad =
     bind_res (Apply (\<lambda>j oc v.
                 bind_res (deref (AdagradG s)) (\<lambda>G.
                 bind_res (At G j oc) (\<lambda>Gjo.
                 bind_res (gradientClipped s grad j oc) (\<lambda>gc.
                   Inr (- (if 1 < TimeStep s then StepSize s / (sqrt Gjo + Epsilon s)
                           else StepSize s) * gc)))))
               grad update) (\<lambda>upd.
     bind_res (deref (AdagradG s)) (\<lambda>G.
     bind_res (Apply (\<lambda>j oc v.
                 bind_res (gradientClipped s grad j oc) (\<lambda>gradjo.
                   Inr (v + gradjo * gradjo)))
               G G) (\<lambda>G'.
     Inr (s\<lparr>AdagradG := Some G'\<rparr>, upd))))"

definition update_Adadelta :: "SGDOptimizer \<Rightarrow> real \<Rightarrow> dense \<Rightarrow> dense \<Rightarrow> (SGDOptimizer \<times> dense) res" where
  "update_Adadelta s eta update grad =
     bind_res (deref (AdagradG s)) (\<lambda>G.
     bind_res (Apply (\<lambda>j oc v.
                 bind_res (gradientClipped s grad j oc) (\<lambda>gradjo.
                   Inr (RMSPropGamma s * v + (1 - RMSPropGamma s) * gradjo * gradjo)))
               G G) (\<lambda>G'.
     bind_res (Apply (\<lambda>j oc gradjo.
                 bind_res (if 1 < TimeStep s
                           then bind_res (deref (AdadeltaU s)) (\<lambda>U.
                                bind_res (At U j oc) (\<lambda>u.
                                bind_res (At G' j oc) (\<lambda>g.
                                  Inr (sqrt u / sqrt (g + Epsilon s)))))
                           else Inr eta) (\<lambda>etajo.
                 bind_res (gradientClipped s grad j oc) (\<lambda>gc. Inr (- etajo * gc))))
               grad update) (\<lambda>upd.
     bind_res (deref (AdadeltaU s)) (\<lambda>U.
     bind_res (Apply (\<lambda>j oc v.
                 bind_res (At upd j oc) (\<lambda>u.
                   Inr (RMSPropGamma s * v + (1 - RMSPropGamma s) * u * u)))
               U U) (\<lambda>U'.
     Inr (s\<lparr>AdagradG := Some G', AdadeltaU := Some U'\<rparr>, upd))))))"

definition update_Adam :: "SGDOptimizer \<Rightarrow> dense \<Rightarrow> dense \<Rightarrow> (SGDOptimizer \<times> dense) res" where
  "update_Adam s update grad =
     bind_res (deref (Mt s)) (\<lambda>mt.
     bind_res (Apply (\<lambda>j oc gradjo.
                 bind_res (At (reuseAs mt grad) j oc) (\<lambda>m.
                 bind_res (gradientClipped s grad j oc) (\<lambda>gc.
                   Inr (Beta1 s * m + (1 - Beta1 s) * gc))))
               grad mt) (\<lambda>mt'.
     bind_res (deref (Vt s)) (\<lambda>vt.
     bind_res (Apply (\<lambda>j oc gradjo.
                 bind_res (gradientClipped s grad j oc) (\<lambda>gc.
                 bind_res (At (reuseAs vt grad) j oc) (\<lambda>v.
                   Inr (Beta2 s * v + (1 - Beta2 s) * gc * gc))))
               grad vt) (\<lambda>vt'.
     bind_res (deref (Mtcap s)) (\<lambda>mc.
     bind_res (Scale (1 / (1 - Beta1 s ^ TimeStep s)) mt' mc) (\<lambda>mc'.
     bind_res (deref (Vtcap s)) (\<lambda>vc.
     bind_res (Scale (1 / (1 - Beta2 s ^ TimeStep s)) vt' vc) (\<lambda>vc'.
     bind_res (Apply (\<lambda>i j Mtcapij.
                 bind_res (At vc' i j) (\<lambda>v.
                   Inr (- StepSize s * Mtcapij / (sqrt v + Epsilon s))))
               mc' update) (\<lambda>upd.
     Inr (s\<lparr>Mt := Some mt', Vt := Some vt', Mtcap := Some mc', Vtcap := Some vc'\<rparr>,
          upd))))))))))"

definition update_SGD :: "SGDOptimizer \<Rightarrow> real \<Rightarrow> dense \<Rightarrow> dense \<Rightarrow> (SGDOptimizer \<times> dense) res" where
  "update_SGD s eta update grad =
     bind_res (Apply (\<lambda>j oc gradjo.
                 bind_res (gradientClipped s grad j oc) (\<lambda>gc.
                   Inr (- eta * gc / sqrt (1 * real (TimeStep s)))))
               grad update) (\<lambda>upd. Inr (s, upd))"

text \<open>The chain \<open>if s.RMSProp ... else if s.Adagrad ... else if s.Adadelta ... else if s.Adam ... else\<close>.\<close>

definition variant_update :: "SGDOptimizer \<Rightarrow> real \<Rightarrow> dense \<Rightarrow> dense \<Rightarrow> (SGDOptimizer \<times> dense) res" where
  "variant_update s eta update grad =
     (if RMSProp s then update_RMSProp s update grad
      else if Adagrad s then update_Adagrad s update grad
      else if Adadelta s then update_Adadelta s eta update grad
      else if Adam s then update_Adam s update grad
      else update_SGD s eta update grad)"

text \<open>The block \<open>if s.Momentum > 0\<close>.\<close>

definition apply_momentum :: "SGDOptimizer \<Rightarrow> dense \<Rightarrow> dense res" where
  "apply_momentum s update =
     (if 0 < Momentum s
      then Apply (\<lambda>j oc updjo.
                    bind_res (deref (PrevUpdate s)) (\<lambda>p.
                    bind_res (At p j oc) (\<lambda>pu. Inr (Momentum s * pu + updjo))))
                 update update
      else Inr update)"

text \<open>\<open>s.PrevUpdate.Clone(update)\<close>: a copy of \<open>update\<close> in storage of its own.\<close>

definition clone_prev :: "SGDOptimizer \<Rightarrow> dense \<Rightarrow> SGDOptimizer res" where
  "clone_prev s update =
     bind_res (deref (PrevUpdate s)) (\<lambda>p. Inr (s\<lparr>PrevUpdate := Some update\<rparr>))"

subsection \<open>\<open>GetUpdate\<close> and \<open>UpdateParams\<close>\<close>

text \<open>
  \<open>GetUpdate\<close> mutates the optimizer and the caller's \<open>update\<close> matrix; the model returns
  both. The gradient and \<open>update\<close> are distinct objects, distinct from the optimizer's
  own buffers. \<open>begin_step\<close> is the head of the function: the first-call allocation
  followed by \<open>s.TimeStep += 1.\<close>
\<close>

definition begin_step :: "SGDOptimizer \<Rightarrow> dense \<Rightarrow> SGDOptimizer" where
  "begin_step s grad =
     (let s0 = (if TimeStep s = 0 then first_call_alloc s (nrows grad) (ncols grad) else s)
      in s0\<lparr>TimeStep := TimeStep s0 + 1\<rparr>)"

definition GetUpdate :: "SGDOptimizer \<Rightarrow> dense \<Rightarrow> dense \<Rightarrow> (SGDOptimizer \<times> dense) res" where
  "GetUpdate s update grad =
     (let s1 = begin_step s grad;
          eta = StepSize s1 * 100 / (100 + real (TimeStep s1))
      in bind_res (compute_norms s1 grad) (\<lambda>s2.
         bind_res (variant_update s2 eta update grad) (\<lambda>(s3, upd).
         bind_res (apply_momentum s3 upd) (\<lambda>upd'.
         bind_res (clone_prev s3 upd') (\<lambda>s4. Inr (s4, upd'))))))"

definition UpdateParams :: "SGDOptimizer \<Rightarrow> dense \<Rightarrow> SGDOptimizer res" where
  "UpdateParams s grad =
     (let upd0 = (case Update s of None \<Rightarrow> NewDense (nrows grad) (ncols grad) | Some u \<Rightarrow> u)
      in bind_res (GetUpdate (s\<lparr>Update := Some upd0\<rparr>) upd0 grad) (\<lambda>(s1, upd).
         bind_res (deref (Theta s1)) (\<lambda>th.
         bind_res (Add_dense th upd th) (\<lambda>th'.
           Inr (s1\<lparr>Update := Some upd, Theta := Some th'\<rparr>)))))"

section \<open>Rounding to \<open>float64\<close>\<close>

text \<open>
  Where the exact reading of a \<open>float64\<close> computation and the computation itself part
  ways, the second is modelled too. \<open>fl64 x\<close> is the \<open>float64\<close> nearest to the real \<open>x\<close>:
  the significand has 53 bits, so the last place of a number of magnitude between \<open>2^e\<close>
  and \<open>2^(e+1)\<close> is \<open>2^(e-52)\<close>, and a tie goes to the even significand (the default
  rounding mode of IEEE 754, which Go's arithmetic and \<open>math.Sqrt\<close> follow). Overflow and
  subnormal numbers are outside this model.
\<close>

definition round_even :: "real \<Rightarrow> int" where
  "round_even q =
     (let f = \<lfloor>q\<rfloor>
      in if q - real_of_int f < 1 / 2 then f
         else if 1 / 2 < q - real_of_int f then f + 1
         else if even f then f else f + 1)"

definition fl64 :: "real \<Rightarrow> real" where
  "fl64 x =
     (if x = 0 then 0
      else (let e = \<lfloor>log 2 \<bar>x\<bar>\<rfloor> - 52
            in real_of_int (round_even (x / 2 powr real_of_int e)) * 2 powr real_of_int e))"

text \<open>
  \<open>colNorm\<close>, the loop that stores the norms and the closure \<open>gradientClipped\<close> once more,
  with every operation rounded: \<open>s += v * v\<close> is a product and a sum, and
  \<open>gradjo *= s.GradientClipping / s.GtNorm.At(o, 0)\<close> a quotient and a product.
\<close>

definition colNorm64 :: "dense \<Rightarrow> nat \<Rightarrow> real res" where
  "colNorm64 m oc =
     bind_res (mapM_res (\<lambda>j. At m j oc) [0 ..< nrows m])
       (\<lambda>vs. Inr (fl64 (sqrt (foldl (\<lambda>s v. fl64 (s + fl64 (v * v))) 0 vs))))"

fun set_norms64 :: "dense \<Rightarrow> nat list \<Rightarrow> dense \<Rightarrow> dense res" where
  "set_norms64 grad [] gn = Inr gn"
| "set_norms64 grad (j # js) gn =
     bind_res (colNorm64 grad j) (\<lambda>n.
       bind_res (Set_dense gn j 0 n) (\<lambda>gn'. set_norms64 grad js gn'))"

definition compute_norms64 :: "SGDOptimizer \<Rightarrow> dense \<Rightarrow> SGDOptimizer res" where
  "compute_norms64 s grad =
     (if 0 < GradientClipping s
      then bind_res (deref (GtNorm s)) (\<lambda>gn.
             bind_res (set_norms64 grad [0 ..< ncols grad] gn) (\<lambda>gn'.
               Inr (s\<lparr>GtNorm := Some gn'\<rparr>)))
      else Inr s)"

definition gradientClipped64 :: "SGDOptimizer \<Rightarrow> dense \<Rightarrow> nat \<Rightarrow> nat \<Rightarrow> real res" where
  "gradientClipped64 s grad j oc =
     bind_res (At grad j oc) (\<lambda>gradjo.
       if 0 < GradientClipping s
       then bind_res (deref (GtNorm s)) (\<lambda>gn.
              bind_res (At gn oc 0) (\<lambda>n.
                if GradientClipping s < n
                then Inr (fl64 (gradjo * fl64 (GradientClipping s / n)))
                else Inr gradjo))
       else Inr gradjo)"

section \<open>The training loop: \<open>LinFit\<close>\<close>

text \<open>
  \<open>math.Inf(1)\<close> is the start value of \<open>rmse\<close>, \<open>J\<close> and \<open>JBest\<close>; every value the
  loop later stores in them comes from the loss or the metric and is modelled as a real.
  \<open>xless a b\<close> is the comparison \<open>a < b\<close> of a real with such a value.
\<close>

datatype xreal = Fin real | PosInf

fun xless :: "real \<Rightarrow> xreal \<Rightarrow> bool" where
  "xless a PosInf = True"
| "xless a (Fin b) = (a < b)"

text \<open>Go's conversion \<open>int(x)\<close> of a \<open>float64\<close>: truncation towards zero.\<close>

definition go_int :: "real \<Rightarrow> int" where
  "go_int x = (if 0 \<le> x then \<lfloor>x\<rfloor> else \<lceil>x\<rceil>)"

text \<open>
  The options the training loop reads. \<open>Loss\<close>, \<open>Activation\<close>, \<open>ThetaInitializer\<close> and
  \<open>Recorder\<close> are function-valued collaborators and are parameters of the model instead;
  \<open>GOMethodCreator\<close> is nil and \<open>Solver\<close> is not on the path modelled here (otherwise
  \<open>LinFit\<close> hands over to \<open>LinFitGOM\<close>).
\<close>

record LinFitOptions =
  Epochs :: int
  MiniBatchSize :: int
  Tol :: real
  Alpha :: real
  L1Ratio :: real

record LinFitResult =
  Converged :: bool
  RMSE :: xreal
  J :: xreal
  Epoch :: int
  ResTheta :: dense

text \<open>
  The two option defaults, as the source computes them. \<open>1e6 / nSamples\<close> is an integer
  division and panics when \<open>nSamples\<close> is zero.
\<close>

definition miniBatchSize_of :: "int \<Rightarrow> nat \<Rightarrow> int" where
  "miniBatchSize_of optMiniBatchSize nSamples =
     (let miniBatchSize =
            (if 0 < optMiniBatchSize then optMiniBatchSize
             else go_int (max 1 (min 100 (sqrt (real nSamples)))))
      in go_int (max 1 (min (real nSamples) (real_of_int miniBatchSize))))"

definition epochs_of :: "int \<Rightarrow> nat \<Rightarrow> int res" where
  "epochs_of optEpochs nSamples =
     (if optEpochs \<le> 0
      then (if nSamples = 0 then Inl DivideByZero else Inr (1000000 div int nSamples))
      else Inr optEpochs)"

text \<open>
  \<open>m.Slice(i, k, 0, c)\<close> with \<open>c\<close> the column count of \<open>m\<close>: the rows \<open>i\<close> up to \<open>k\<close>.
  An out-of-range or empty slice panics.
\<close>

definition Slice_rows :: "dense \<Rightarrow> nat \<Rightarrow> nat \<Rightarrow> dense res" where
  "Slice_rows m i k =
     (if nrows m \<le> i \<or> ncols m = 0 \<or> k \<le> i \<or> nrows m < k then Inl IndexOutOfRange
      else Inr \<lparr>nrows = k - i, ncols = ncols m,
                elems = take ((k - i) * ncols m) (drop (i * ncols m) (elems m))\<rparr>)"

text \<open>
  The collaborators of the loop. The loss takes \<open>Ytrue\<close>, \<open>X\<close>, \<open>Theta\<close>, \<open>Alpha\<close>,
  \<open>L1Ratio\<close> and \<open>nSamples\<close> (the activation is part of it) and yields the objective, the
  prediction buffer and the gradient buffer it filled. \<open>MatShuffle\<close> permutes the rows of
  \<open>X\<close> and \<open>Ytrue\<close> in place, drawing from a random source of type \<open>'g\<close>.
  \<open>MeanSquaredError\<close> stands for \<open>metrics.MeanSquaredError(Ytrue, Ypred, nil, "").At(0, 0)\<close>.
\<close>

record 'g LinFitEnv =
  Loss :: "dense \<Rightarrow> dense \<Rightarrow> dense \<Rightarrow> real \<Rightarrow> real \<Rightarrow> nat \<Rightarrow> real \<times> dense \<times> dense"
  MatShuffle :: "'g \<Rightarrow> dense \<Rightarrow> dense \<Rightarrow> dense \<times> dense \<times> 'g"
  MeanSquaredError :: "dense \<Rightarrow> dense \<Rightarrow> real"
  ThetaInit :: "nat \<Rightarrow> nat \<Rightarrow> real"

text \<open>One pass of the inner loop body: the loss on one mini-batch, then \<open>UpdateParams\<close>.\<close>

definition miniBatch_step ::
  "'g LinFitEnv \<Rightarrow> LinFitOptions \<Rightarrow> dense \<Rightarrow> dense \<Rightarrow> nat \<Rightarrow> nat \<Rightarrow> nat \<Rightarrow>
   SGDOptimizer \<Rightarrow> SGDOptimizer res" where
  "miniBatch_step env opts X Ytrue nSamples miniBatchSize miniBatch s =
     (let miniBatchStart = miniBatch * miniBatchSize;
          miniBatchEnd = (if nSamples < miniBatchStart + miniBatchSize then nSamples
                          else miniBatchStart + miniBatchSize)
      in bind_res (Slice_rows Ytrue miniBatchStart miniBatchEnd) (\<lambda>Yb.
         bind_res (Slice_rows X miniBatchStart miniBatchEnd) (\<lambda>Xb.
         bind_res (deref (Theta s)) (\<lambda>th.
           case Loss env Yb Xb th (Alpha opts) (L1Ratio opts) nSamples of
             (Jmini, Ypred, grad) \<Rightarrow> UpdateParams s grad))))"

text \<open>
  \<open>for miniBatch := 0; miniBatch*miniBatchSize < nSamples; miniBatch++\<close>. The batch size
  is at least one when the loop is entered (see \<open>miniBatchSize_of\<close>).
\<close>

function miniBatches ::
  "'g LinFitEnv \<Rightarrow> LinFitOptions \<Rightarrow> dense \<Rightarrow> dense \<Rightarrow> nat \<Rightarrow> nat \<Rightarrow> nat \<Rightarrow>
   SGDOptimizer \<Rightarrow> SGDOptimizer res" where
  "miniBatches env opts X Ytrue nSamples miniBatchSize miniBatch s =
     (if 0 < miniBatchSize \<and> miniBatch * miniBatchSize < nSamples
      then (case miniBatch_step env opts X Ytrue nSamples miniBatchSize miniBatch s of
              Inl e \<Rightarrow> Inl e
            | Inr s' \<Rightarrow> miniBatches env opts X Ytrue nSamples miniBatchSize (miniBatch + 1) s')
      else Inr s)"
  by pat_completeness auto
termination
  by (relation "measure (\<lambda>(env, opts, X, Ytrue, nSamples, miniBatchSize, miniBatch, s).
                  nSamples - miniBatch * miniBatchSize)") auto

text \<open>
  The variables the outer loop carries. \<open>solver\<close> holds \<open>Theta\<close>, whose backing slice is
  \<open>thetaSlice\<close>; \<open>thetaSliceBest\<close> is the second slice, written by \<open>copy\<close>.
\<close>

record 'g loop_state =
  rng :: 'g
  Xs :: dense
  Ys :: dense
  solver :: SGDOptimizer
  Jcur :: xreal
  JBest :: xreal
  thetaSliceBest :: "real list"
  rmse :: xreal
  converged :: bool

text \<open>
  The body of the outer loop: shuffle, all mini-batches, the loss on the full data set,
  the best-so-far test with its \<open>copy\<close>, then \<open>rmse\<close> and \<open>converged\<close>. \<open>copy(dst, src)\<close>
  copies as many elements as the shorter slice has.
\<close>

definition go_copy :: "real list \<Rightarrow> real list \<Rightarrow> real list" where
  "go_copy dst src = take (length dst) src @ drop (length src) dst"

definition epoch_body ::
  "'g LinFitEnv \<Rightarrow> LinFitOptions \<Rightarrow> nat \<Rightarrow> nat \<Rightarrow> 'g loop_state \<Rightarrow> 'g loop_state res" where
  "epoch_body env opts nSamples miniBatchSize st =
     (case MatShuffle env (rng st) (Xs st) (Ys st) of
        (X', Y', g') \<Rightarrow>
          bind_res (miniBatches env opts X' Y' nSamples miniBatchSize 0 (solver st)) (\<lambda>s'.
          bind_res (deref (Theta s')) (\<lambda>th.
            case Loss env Y' X' th (Alpha opts) (L1Ratio opts) nSamples of
              (Jfull, Ypred, grad) \<Rightarrow>
                (let best = xless Jfull (JBest st);
                     rm = sqrt (MeanSquaredError env Y' Ypred)
                 in Inr \<lparr>rng = g', Xs = X', Ys = Y', solver = s',
                          Jcur = Fin Jfull,
                          JBest = (if best then Fin Jfull else JBest st),
                          thetaSliceBest =
                            (if best then go_copy (thetaSliceBest st) (elems th)
                             else thetaSliceBest st),
                          rmse = Fin rm,
                          converged = (sqrt rm < Tol opts)\<rparr>))))"

text \<open>\<open>for epoch = 1; epoch <= opts.Epochs && !converged; epoch++\<close>; the value of \<open>epoch\<close> on exit is returned with the state.\<close>

function epochs_loop ::
  "'g LinFitEnv \<Rightarrow> LinFitOptions \<Rightarrow> nat \<Rightarrow> nat \<Rightarrow> int \<Rightarrow> int \<Rightarrow> 'g loop_state \<Rightarrow>
   (int \<times> 'g loop_state) res" where
  "epochs_loop env opts nSamples miniBatchSize budget epoch st =
     (if epoch \<le> budget \<and> \<not> converged st
      then (case epoch_body env opts nSamples miniBatchSize st of
              Inl e \<Rightarrow> Inl e
            | Inr st' \<Rightarrow> epochs_loop env opts nSamples miniBatchSize budget (epoch + 1) st')
      else Inr (epoch, st))"
  by pat_completeness auto
termination
  by (relation "measure (\<lambda>(env, opts, nSamples, miniBatchSize, budget, epoch, st).
                  nat (budget + 1 - epoch))") auto

text \<open>
  \<open>LinFit\<close> on the training-loop path, with the solver \<open>s0\<close> taken from \<open>opts.Solver\<close>.
  The recorder calls and the clock are left out: they do not feed back into the loop.
  \<open>LinFit_start\<close> is the state on entry to the loop: \<open>Theta\<close> initialised entry by entry
  and bound to the solver, \<open>thetaSliceBest\<close> zeroed, the trackers at \<open>+Inf\<close>.
\<close>

definition LinFit_start :: "'g LinFitEnv \<Rightarrow> 'g \<Rightarrow> SGDOptimizer \<Rightarrow> dense \<Rightarrow> dense \<Rightarrow> 'g loop_state" where
  "LinFit_start env g s0 X Ytrue =
     (let nFeatures = ncols X; nOutputs = ncols Ytrue;
          Theta0 = \<lparr>nrows = nFeatures, ncols = nOutputs,
                    elems = map (\<lambda>k. ThetaInit env (k div nOutputs) (k mod nOutputs))
                              [0 ..< nFeatures * nOutputs]\<rparr>
      in \<lparr>rng = g, Xs = X, Ys = Ytrue, solver = SetTheta s0 Theta0, Jcur = PosInf,
          JBest = PosInf, thetaSliceBest = replicate (nFeatures * nOutputs) 0,
          rmse = PosInf, converged = False\<rparr>)"

definition LinFit ::
  "'g LinFitEnv \<Rightarrow> 'g \<Rightarrow> SGDOptimizer \<Rightarrow> dense \<Rightarrow> dense \<Rightarrow> LinFitOptions \<Rightarrow> LinFitResult res" where
  "LinFit env g s0 X Ytrue opts =
     (let nSamples = nrows X; nFeatures = ncols X; nOutputs = ncols Ytrue;
          miniBatchSize = miniBatchSize_of (MiniBatchSize opts) nSamples
      in bind_res (epochs_of (Epochs opts) nSamples) (\<lambda>budget.
         bind_res (epochs_loop env opts nSamples (nat miniBatchSize) budget 1
                     (LinFit_start env g s0 X Ytrue))
           (\<lambda>(epoch, st).
              Inr \<lparr>Converged = converged st, RMSE = rmse st, J = JBest st, Epoch = epoch,
                   ResTheta = \<lparr>nrows = nFeatures, ncols = nOutputs,
                               elems = thetaSliceBest st\<rparr>\<rparr>)))"

text \<open>
  The per-epoch record of a run, for stating what the result is a snapshot of: the list
  of states after each executed epoch, in order. It follows the same loop.
\<close>

function epochs_trace ::
  "'g LinFitEnv \<Rightarrow> LinFitOptions \<Rightarrow> nat \<Rightarrow> nat \<Rightarrow> int \<Rightarrow> int \<Rightarrow> 'g loop_state \<Rightarrow>
   'g loop_state list" where
  "epochs_trace env opts nSamples miniBatchSize budget epoch st =
     (if epoch \<le> budget \<and> \<not> converged st
      then (case epoch_body env opts nSamples miniBatchSize st of
              Inl e \<Rightarrow> []
            | Inr st' \<Rightarrow>
                st' # epochs_trace env opts nSamples miniBatchSize budget (epoch + 1) st')
      else [])"
  by pat_completeness auto
termination
  by (relation "measure (\<lambda>(env, opts, nSamples, miniBatchSize, budget, epoch, st).
                  nat (budget + 1 - epoch))") auto

definition LinFit_trace ::
  "'g LinFitEnv \<Rightarrow> 'g \<Rightarrow> SGDOptimizer \<Rightarrow> dense \<Rightarrow> dense \<Rightarrow> LinFitOptions \<Rightarrow> 'g loop_state list" where
  "LinFit_trace env g s0 X Ytrue opts =
     (case epochs_of (Epochs opts) (nrows X) of
        Inl e \<Rightarrow> []
      | Inr budget \<Rightarrow>
          epochs_trace env opts (nrows X)
            (nat (miniBatchSize_of (MiniBatchSize opts) (nrows X))) budget 1
            (LinFit_start env g s0 X Ytrue))"

text \<open>The loop equations are unfolded by hand, one round at a time.\<close>

declare miniBatches.simps [simp del]
declare epochs_loop.simps [simp del]
declare epochs_trace.simps [simp del]

section \<open>The per-output orchestration: \<open>LinFitGOM\<close>\<close>

text \<open>
  \<open>optimize.Local\<close> is an external minimizer. What \<open>LinFitGOM\<close> reads of its answer is
  modelled here: the status, the final location \<open>X\<close>, the objective \<open>F\<close> there and the
  number of function evaluations of an \<open>*optimize.Result\<close> (nil is \<open>None\<close>), and the
  error value returned beside it.
\<close>

datatype Status =
  NotTerminated | Success | FunctionThreshold | FunctionConvergence | GradientThreshold
  | StepConvergence | FunctionNegativeInfinity | MethodConverge | Failure | IterationLimit
  | RuntimeLimit | FunctionEvaluationLimit | GradientEvaluationLimit | HessianEvaluationLimit

record optResult =
  LocX :: "real list"
  LocF :: real
  FuncEvaluations :: int
  ResStatus :: Status

text \<open>The struct \<open>fitOutputRes\<close> sent over the channel by the goroutine of column \<open>o\<close>.\<close>

record fitOutputRes =
  col :: nat
  ret :: "optResult option"
  err :: "string option"

text \<open>\<open>m.SetCol(j, src)\<close>: column \<open>j\<close> replaced; a wrong index or length panics.\<close>

definition SetCol :: "dense \<Rightarrow> nat \<Rightarrow> real list \<Rightarrow> dense res" where
  "SetCol m j src =
     (if ncols m \<le> j then Inl ErrColAccess
      else if length src \<noteq> nrows m then Inl ErrShape
      else Inr (m\<lparr>elems := map (\<lambda>k. if k mod ncols m = j then src ! (k div ncols m)
                                       else elems m ! k)
                              [0 ..< nrows m * ncols m]\<rparr>))"

text \<open>
  The variables of \<open>LinFitGOM\<close> that the collecting loop updates, and the loop itself:
  it receives one \<open>fitOutputRes\<close> per column, in the order of arrival, which is the order
  of the list \<open>received\<close>.
\<close>

record gom_state =
  thetaM :: dense
  gom_rmse :: real
  gom_epoch :: int
  gom_converged :: bool

fun collect :: "fitOutputRes list \<Rightarrow> gom_state \<Rightarrow> gom_state res" where
  "collect [] st = Inr st"
| "collect (foret # rest) st =
     (case ret foret of
        None \<Rightarrow> Inl NilPointer
      | Some r \<Rightarrow>
          bind_res (SetCol (thetaM st) (col foret) (LocX r)) (\<lambda>th.
            collect rest
              \<lparr>thetaM = th, gom_rmse = gom_rmse st + LocF r,
               gom_epoch = gom_epoch st + FuncEvaluations r,
               gom_converged = (gom_converged st \<and> ResStatus r \<noteq> Failure)\<rparr>))"

text \<open>
  \<open>LinFitGOM\<close> with \<open>opts.PerOutputFit\<close> set. \<open>theta0\<close> is the randomly initialised
  \<open>thetaM\<close>. The function-level variable \<open>err\<close> is declared by \<open>var err error\<close> and is not
  assigned on this path (the goroutines assign a variable of their own and send it in
  \<open>fitOutputRes\<close>), so it is nil when the last assignment to \<open>converged\<close> reads it.
\<close>

definition LinFitGOM_perOutput :: "dense \<Rightarrow> nat \<Rightarrow> fitOutputRes list \<Rightarrow> LinFitResult res" where
  "LinFitGOM_perOutput theta0 nOutputs received =
     (let outer_err = (None :: string option)
      in bind_res (collect received
                     \<lparr>thetaM = theta0, gom_rmse = 0, gom_epoch = 0, gom_converged = True\<rparr>)
           (\<lambda>st.
              (let rmse1 = sqrt (gom_rmse st) / real nOutputs;
                   converged1 = (outer_err = None)
               in Inr \<lparr>Converged = converged1, RMSE = Fin rmse1, J = Fin 0,
                        Epoch = gom_epoch st, ResTheta = thetaM st\<rparr>)))"

text \<open>
  What the collecting loop itself computes for \<open>converged\<close>, before the last assignment
  replaces it: the conjunction over the columns.
\<close>

definition all_columns_ok :: "fitOutputRes list \<Rightarrow> bool" where
  "all_columns_ok received =
     list_all (\<lambda>foret. case ret foret of None \<Rightarrow> False | Some r \<Rightarrow> ResStatus r \<noteq> Failure)
       received"


section \<open>The data generator: \<open>MakeRegression\<close>\<close>

text \<open>
  The argument is a \<open>map[string]interface{}\<close>. A value of the dynamic types the function
  distinguishes is an \<open>int\<close>, a \<open>float64\<close>, a \<open>[]float64\<close>, a \<open>mat.Matrix\<close> or a
  \<open>*rand.Rand\<close>; \<open>KOther\<close> stands for a value of any other type. A random generator is
  the sequence of numbers its successive \<open>NormFloat64\<close> calls return.
\<close>

datatype kwval =
  KInt int | KFloat real | KFloats "real list" | KMatrix dense | KRand "nat \<Rightarrow> real" | KOther

type_synonym kwargs = "string \<Rightarrow> kwval option"

text \<open>
  What the function takes from outside the sources at hand: the package-level generator
  behind \<open>rand.NormFloat64\<close>, and \<open>base.MatDimsCheck\<close>, which either returns (\<open>None\<close>) or
  panics.
\<close>

record MakeRegressionEnv =
  NormFloat64 :: "nat \<Rightarrow> real"
  MatDimsCheck :: "string \<Rightarrow> dense \<Rightarrow> dense \<Rightarrow> dense \<Rightarrow> panic option"

text \<open>\<open>if v, ok := kwargs[key]; ok { n = v.(int) }\<close>: the assertion panics on any other type.\<close>

definition get_int :: "kwargs \<Rightarrow> string \<Rightarrow> int \<Rightarrow> int res" where
  "get_int kwargs key dflt =
     (case kwargs key of
        None \<Rightarrow> Inr dflt
      | Some (KInt n) \<Rightarrow> Inr n
      | Some _ \<Rightarrow> Inl TypeAssertion)"

text \<open>
  The closure \<open>rnd\<close> at its \<open>k\<close>-th call. With a \<open>random_state\<close> the assertion
  \<open>v.(*rand.Rand)\<close> is made inside the closure, at each call.
\<close>

definition rnd :: "MakeRegressionEnv \<Rightarrow> kwargs \<Rightarrow> nat \<Rightarrow> real res" where
  "rnd env kwargs k =
     (case kwargs ''random_state'' of
        None \<Rightarrow> Inr (NormFloat64 env k)
      | Some (KRand gen) \<Rightarrow> Inr (gen k)
      | Some _ \<Rightarrow> Inl TypeAssertion)"

text \<open>
  \<open>mat.NewDense(r, c, nil)\<close> with dimensions that are not known to be natural numbers:
  a negative one panics.
\<close>

definition NewDense_int :: "int \<Rightarrow> int \<Rightarrow> dense res" where
  "NewDense_int r c =
     (if r < 0 \<or> c < 0 then Inl NegativeDimension else Inr (NewDense (nat r) (nat c)))"

text \<open>
  The two nested loops over \<open>RawMatrix().Data\<close>: every entry, row by row, is set to the
  next draw; \<open>first\<close> is the number of draws made before.
\<close>

definition fill_random :: "MakeRegressionEnv \<Rightarrow> kwargs \<Rightarrow> nat \<Rightarrow> dense \<Rightarrow> dense res" where
  "fill_random env kwargs first m =
     bind_res (mapM_res (\<lambda>p. rnd env kwargs (first + p)) [0 ..< nrows m * ncols m])
       (\<lambda>vs. Inr (m\<lparr>elems := vs\<rparr>))"

text \<open>
  \<open>m.Slice(i, k, j, l)\<close>: rows \<open>i\<close> up to \<open>k\<close> and columns \<open>j\<close> up to \<open>l\<close>; an empty or
  out-of-range slice panics.
\<close>

definition Slice_dense :: "dense \<Rightarrow> int \<Rightarrow> int \<Rightarrow> int \<Rightarrow> int \<Rightarrow> dense res" where
  "Slice_dense m i k j l =
     (if i < 0 \<or> int (nrows m) \<le> i \<or> j < 0 \<or> int (ncols m) \<le> j \<or>
         k \<le> i \<or> int (nrows m) < k \<or> l \<le> j \<or> int (ncols m) < l
      then Inl IndexOutOfRange
      else Inr \<lparr>nrows = nat (k - i), ncols = nat (l - j),
                elems = map (\<lambda>p. elems m ! ((nat i + p div nat (l - j)) * ncols m
                                          + (nat j + p mod nat (l - j))))
                          [0 ..< nat (k - i) * nat (l - j)]\<rparr>)"

text \<open>
  \<open>m.Mul(a, b)\<close>: the inner dimensions must agree, and a receiver that is not empty must
  have the shape of the product. The receiver is neither \<open>a\<close> nor \<open>b\<close> here.
\<close>

definition Mul_dense :: "dense \<Rightarrow> dense \<Rightarrow> dense \<Rightarrow> dense res" where
  "Mul_dense a b m =
     (if ncols a \<noteq> nrows b then Inl ErrShape
      else if ncols m \<noteq> 0 \<and> (nrows m \<noteq> nrows a \<or> ncols m \<noteq> ncols b) then Inl ErrShape
      else Inr \<lparr>nrows = nrows a, ncols = ncols b,
                elems = map (\<lambda>p. \<Sum>f\<leftarrow>[0 ..< ncols a].
                                     elems a ! ((p div ncols b) * ncols a + f)
                                     * elems b ! (f * ncols b + p mod ncols b))
                          [0 ..< nrows a * ncols b]\<rparr>)"

text \<open>
  The \<open>bias\<close> block. The type switch has three cases and no default: a \<open>float64\<close> is added
  to every entry, a matrix contributes its row 0 and a slice its element \<open>yj\<close> to column
  \<open>yj\<close>, and a value of any other type is passed over.
\<close>

definition add_bias :: "kwargs \<Rightarrow> dense \<Rightarrow> dense res" where
  "add_bias kwargs y =
     (case kwargs ''bias'' of
        None \<Rightarrow> Inr y
      | Some (KFloat vv) \<Rightarrow> Inr (y\<lparr>elems := map (\<lambda>v. v + vv) (elems y)\<rparr>)
      | Some (KMatrix vv) \<Rightarrow>
          bind_res (mapM_res (\<lambda>p. bind_res (At vv 0 (p mod ncols y))
                                      (\<lambda>b. Inr (elems y ! p + b)))
                      [0 ..< nrows y * ncols y])
            (\<lambda>vs. Inr (y\<lparr>elems := vs\<rparr>))
      | Some (KFloats vv) \<Rightarrow>
          bind_res (mapM_res (\<lambda>p. if p mod ncols y < length vv
                                    then Inr (elems y ! p + vv ! (p mod ncols y))
                                    else Inl IndexOutOfRange)
                      [0 ..< nrows y * ncols y])
            (\<lambda>vs. Inr (y\<lparr>elems := vs\<rparr>))
      | Some _ \<Rightarrow> Inr y)"

text \<open>
  \<open>MakeRegression\<close>. \<open>Shuffle\<close> is the constant \<open>true\<close> (no argument changes it), so the
  block that sorts the columns of \<open>X\<close> never runs. The draws fill \<open>X\<close> first and \<open>Coef\<close>
  next.
\<close>

definition MakeRegression ::
  "MakeRegressionEnv \<Rightarrow> kwargs \<Rightarrow> (dense \<times> dense \<times> dense) res" where
  "MakeRegression env kwargs =
     bind_res (get_int kwargs ''n_samples'' 100) (\<lambda>nSamples.
     bind_res (get_int kwargs ''n_features'' 100) (\<lambda>nFeatures.
     bind_res (get_int kwargs ''n_informative'' 10) (\<lambda>nInformative0.
     bind_res (get_int kwargs ''n_targets'' 1) (\<lambda>nTargets.
     bind_res (NewDense_int nSamples nFeatures) (\<lambda>X0.
     bind_res (NewDense_int nSamples nTargets) (\<lambda>y0.
       (let nInformative = (if nFeatures < nInformative0 then nFeatures else nInformative0)
        in bind_res (NewDense_int nInformative nTargets) (\<lambda>Coef0.
           bind_res (fill_random env kwargs 0 X0) (\<lambda>X.
           bind_res (fill_random env kwargs (nrows X * ncols X) Coef0) (\<lambda>Coef.
           bind_res (Slice_dense X 0 nSamples 0 nInformative) (\<lambda>Xinf.
             case MatDimsCheck env ''.'' y0 Xinf Coef of
               Some p \<Rightarrow> Inl p
             | None \<Rightarrow>
                 bind_res (Mul_dense Xinf Coef y0) (\<lambda>y1.
                 bind_res (add_bias kwargs y1) (\<lambda>y. Inr (X, y, Coef))))))))))))))"

section \<open>Shapes and frames: auxiliary predicates\<close>

definition shaped :: "nat \<Rightarrow> nat \<Rightarrow> dense \<Rightarrow> bool" where
  "shaped r c m = (nrows m = r \<and> ncols m = c \<and> length (elems m) = r * c)"

definition shaped_opt :: "nat \<Rightarrow> nat \<Rightarrow> dense option \<Rightarrow> bool" where
  "shaped_opt r c p = (\<exists>m. p = Some m \<and> shaped r c m)"

definition same_fixed :: "SGDOptimizer \<Rightarrow> SGDOptimizer \<Rightarrow> bool" where
  "same_fixed s s' =
     (StepSize s' = StepSize s \<and> Momentum s' = Momentum s \<and>
      GradientClipping s' = GradientClipping s \<and> RMSPropGamma s' = RMSPropGamma s \<and>
      Epsilon s' = Epsilon s \<and> Adagrad s' = Adagrad s \<and> Adadelta s' = Adadelta s \<and>
      RMSProp s' = RMSProp s \<and> Adam s' = Adam s \<and> Beta1 s' = Beta1 s \<and> Beta2 s' = Beta2 s \<and>
      NFeatures s' = NFeatures s \<and> NOutputs s' = NOutputs s \<and>
      Theta s' = Theta s \<and> Update s' = Update s \<and> TimeStep s' = TimeStep s)"

text \<open>Entry \<open>(i, j)\<close> of a matrix, read from the backing slice without a range check.\<close>

definition entry :: "dense \<Rightarrow> nat \<Rightarrow> nat \<Rightarrow> real" where
  "entry m i j = elems m ! (i * ncols m + j)"

text \<open>The L2 norm of column \<open>j\<close>, as a sum over the rows.\<close>

definition col_l2 :: "dense \<Rightarrow> nat \<Rightarrow> real" where
  "col_l2 m j = sqrt (\<Sum>i < nrows m. entry m i j * entry m i j)"

text \<open>The clipped value of a gradient entry \<open>g\<close> whose column has norm \<open>n\<close>, for the clipping threshold \<open>c\<close>.\<close>

definition clip :: "real \<Rightarrow> real \<Rightarrow> real \<Rightarrow> real" where
  "clip c n g = (if 0 < c \<and> c < n then g * (c / n) else g)"

text \<open>
  The clipped gradient for the threshold \<open>c\<close>: the matrix of the clipped values of all
  entries, each with the norm of its own column.
\<close>

definition clipped_gradient :: "real \<Rightarrow> dense \<Rightarrow> dense" where
  "clipped_gradient c grad =
     \<lparr>nrows = nrows grad, ncols = ncols grad,
      elems = map (\<lambda>k. clip c (col_l2 grad (k mod ncols grad)) (elems grad ! k))
                [0 ..< nrows grad * ncols grad]\<rparr>"

text \<open>The buffers the first call of \<open>GetUpdate\<close> allocates for the variant at hand all exist and have the shape of the gradient (\<open>GtNorm\<close>: one row per column).\<close>

definition buffers_ok :: "nat \<Rightarrow> nat \<Rightarrow> SGDOptimizer \<Rightarrow> bool" where
  "buffers_ok r c s =
     ((0 < GradientClipping s \<longrightarrow> shaped_opt c 1 (GtNorm s)) \<and>
      shaped_opt r c (PrevUpdate s) \<and>
      (Adagrad s \<or> RMSProp s \<or> Adadelta s \<longrightarrow> shaped_opt r c (AdagradG s)) \<and>
      (Adadelta s \<longrightarrow> shaped_opt r c (AdadeltaU s)) \<and>
      (Adam s \<longrightarrow> shaped_opt r c (Mt s) \<and> shaped_opt r c (Vt s) \<and>
                  shaped_opt r c (Mtcap s) \<and> shaped_opt r c (Vtcap s)))"

text \<open>An optimizer bound to an \<open>r\<close> by \<open>c\<close> parameter matrix by \<open>SetTheta\<close>, before or after any number of updates with gradients of that shape.\<close>

definition ready :: "nat \<Rightarrow> nat \<Rightarrow> SGDOptimizer \<Rightarrow> bool" where
  "ready r c s =
     (shaped_opt r c (Theta s) \<and> (Update s = None \<or> shaped_opt r c (Update s)) \<and>
      (0 < TimeStep s \<longrightarrow> buffers_ok r c s))"

text \<open>A caller making one \<open>UpdateParams\<close> call per gradient of a list, in order; a panic ends the run.\<close>

fun UpdateParams_all :: "SGDOptimizer \<Rightarrow> dense list \<Rightarrow> SGDOptimizer res" where
  "UpdateParams_all s [] = Inr s"
| "UpdateParams_all s (g # gs) =
     (case UpdateParams s g of Inl e \<Rightarrow> Inl e | Inr s' \<Rightarrow> UpdateParams_all s' gs)"

section \<open>The training loop: contracts, invariants and the record of a run\<close>

text \<open>
  What the proofs assume of the collaborators of \<open>LinFit\<close> on \<open>n\<close> samples, \<open>f\<close> features
  and \<open>c\<close> outputs: the shuffle keeps the shapes of \<open>X\<close> and \<open>Ytrue\<close>, and the loss leaves
  the gradient buffer, which \<open>LinFit\<close> allocates with the shape of \<open>Theta\<close>, in that shape.
\<close>

definition collaborators_ok :: "'g LinFitEnv \<Rightarrow> nat \<Rightarrow> nat \<Rightarrow> nat \<Rightarrow> bool" where
  "collaborators_ok env n f c =
     ((\<forall>g X Y. shaped n f X \<and> shaped n c Y \<longrightarrow>
         shaped n f (fst (MatShuffle env g X Y)) \<and>
         shaped n c (fst (snd (MatShuffle env g X Y)))) \<and>
      (\<forall>Y X th a l k. shaped f c th \<longrightarrow> shaped f c (snd (snd (Loss env Y X th a l k)))))"

text \<open>The shapes the outer loop maintains.\<close>

definition loop_inv :: "nat \<Rightarrow> nat \<Rightarrow> nat \<Rightarrow> 'g loop_state \<Rightarrow> bool" where
  "loop_inv n f c st =
     (shaped n f (Xs st) \<and> shaped n c (Ys st) \<and> ready f c (solver st) \<and>
      length (thetaSliceBest st) = f * c)"

text \<open>
  The state after an epoch records the full-data evaluation made at the end of that epoch:
  \<open>Jcur\<close> is the loss of the solver's \<open>Theta\<close> on the whole (shuffled) data set, \<open>rmse\<close> the
  square root of the mean squared error of the prediction, and \<open>converged\<close> the test
  \<open>math.Sqrt(rmse) < opts.Tol\<close>.
\<close>

definition evaluated :: "'g LinFitEnv \<Rightarrow> LinFitOptions \<Rightarrow> nat \<Rightarrow> 'g loop_state \<Rightarrow> bool" where
  "evaluated env opts nSamples st =
     (case Theta (solver st) of
        None \<Rightarrow> False
      | Some th \<Rightarrow>
          (case Loss env (Ys st) (Xs st) th (Alpha opts) (L1Ratio opts) nSamples of
             (Jfull, Ypred, grad) \<Rightarrow>
               Jcur st = Fin Jfull \<and>
               rmse st = Fin (sqrt (MeanSquaredError env (Ys st) Ypred)) \<and>
               converged st = (sqrt (sqrt (MeanSquaredError env (Ys st) Ypred)) < Tol opts)))"

text \<open>
  \<open>best_snapshot seen jb tb\<close>: among the epochs \<open>seen\<close>, \<open>jb\<close> is the least objective and
  \<open>tb\<close> the parameters of the first epoch that reached it. \<open>tracking\<close> extends this to the
  empty record, where the tracker still holds \<open>+Inf\<close>.
\<close>

definition best_snapshot :: "'g loop_state list \<Rightarrow> xreal \<Rightarrow> real list \<Rightarrow> bool" where
  "best_snapshot seen jb tb =
     (\<exists>k j th. k < length seen \<and> jb = Fin j \<and> Jcur (seen ! k) = Fin j \<and>
        Theta (solver (seen ! k)) = Some th \<and> tb = elems th \<and>
        (\<forall>i < length seen. \<exists>ji. Jcur (seen ! i) = Fin ji \<and> j \<le> ji) \<and>
        (\<forall>i < k. \<exists>ji. Jcur (seen ! i) = Fin ji \<and> j < ji))"

definition tracking :: "'g loop_state list \<Rightarrow> xreal \<Rightarrow> real list \<Rightarrow> bool" where
  "tracking seen jb tb = (if seen = [] then jb = PosInf else best_snapshot seen jb tb)"

text \<open>
  What holds of a run of the outer loop entered with the counter \<open>e\<close> in state \<open>st\<close>, leaving
  it with the counter \<open>ep\<close> in state \<open>stf\<close> after the epochs \<open>tr\<close>.
\<close>

definition run_facts ::
  "'g LinFitEnv \<Rightarrow> LinFitOptions \<Rightarrow> nat \<Rightarrow> nat \<Rightarrow> nat \<Rightarrow> int \<Rightarrow> int \<Rightarrow> 'g loop_state \<Rightarrow>
   'g loop_state list \<Rightarrow> 'g loop_state list \<Rightarrow> int \<Rightarrow> 'g loop_state \<Rightarrow> bool" where
  "run_facts env opts n f c budget e st seen tr ep stf =
     (ep = e + int (length tr) \<and> stf = last (st # tr) \<and>
      (\<forall>s \<in> set tr. evaluated env opts n s \<and> loop_inv n f c s) \<and>
      (\<forall>s \<in> set (butlast (st # tr)). \<not> converged s) \<and>
      (converged stf \<or> budget < ep) \<and>
      (e \<le> budget + 1 \<longrightarrow> ep \<le> budget + 1) \<and>
      tracking (seen @ tr) (JBest stf) (thetaSliceBest stf))"

section \<open>The data generator: arguments as the caller means them\<close>

text \<open>An integer argument: its value, or the default when the key is absent.\<close>

definition int_arg :: "kwargs \<Rightarrow> string \<Rightarrow> int \<Rightarrow> int" where
  "int_arg kwargs key dflt = (case kwargs key of Some (KInt n) \<Rightarrow> n | _ \<Rightarrow> dflt)"

text \<open>
  The bias of target \<open>t\<close>: the scalar, element \<open>t\<close> of the slice, or entry \<open>(0, t)\<close> of the
  matrix; zero without a \<open>bias\<close> of one of these three types.
\<close>

definition bias_term :: "kwargs \<Rightarrow> nat \<Rightarrow> real" where
  "bias_term kwargs t =
     (case kwargs ''bias'' of
        Some (KFloat b) \<Rightarrow> b
      | Some (KFloats bs) \<Rightarrow> bs ! t
      | Some (KMatrix m) \<Rightarrow> entry m 0 t
      | _ \<Rightarrow> 0)"

text \<open>
  Arguments of the documented types: the four sizes are integers where given, and
  \<open>random_state\<close> is a generator where given.
\<close>

definition typed_arg :: "kwargs \<Rightarrow> string \<Rightarrow> bool" where
  "typed_arg kwargs key = (case kwargs key of None \<Rightarrow> True | Some (KInt n) \<Rightarrow> True | Some _ \<Rightarrow> False)"

definition typed_rand :: "kwargs \<Rightarrow> bool" where
  "typed_rand kwargs =
     (case kwargs ''random_state'' of None \<Rightarrow> True | Some (KRand gen) \<Rightarrow> True
      | Some _ \<Rightarrow> False)"

definition args_typed :: "kwargs \<Rightarrow> bool" where
  "args_typed kwargs =
     (typed_arg kwargs ''n_samples'' \<and> typed_arg kwargs ''n_features'' \<and>
      typed_arg kwargs ''n_informative'' \<and> typed_arg kwargs ''n_targets'' \<and>
      typed_rand kwargs)"

text \<open>A bias that has a value for each of \<open>n\<close> targets.\<close>

definition bias_fits :: "kwargs \<Rightarrow> nat \<Rightarrow> bool" where
  "bias_fits kwargs n =
     (case kwargs ''bias'' of
        Some (KFloats bs) \<Rightarrow> n \<le> length bs
      | Some (KMatrix m) \<Rightarrow> 0 < nrows m \<and> n \<le> ncols m
      | _ \<Rightarrow> True)"

text \<open>A dimension check that lets through the three matrices of a well-formed product.\<close>

definition check_passes :: "MakeRegressionEnv \<Rightarrow> bool" where
  "check_passes env =
     (\<forall>y a b. nrows y = nrows a \<and> ncols a = nrows b \<and> ncols y = ncols b \<longrightarrow>
        MatDimsCheck env ''.'' y a b = None)"

section \<open>Concrete inputs\<close>

definition grad_one :: dense where
  "grad_one = \<lparr>nrows = 1, ncols = 1, elems = [1]\<rparr>"

definition sgd_fresh :: SGDOptimizer where
  "sgd_fresh = SetTheta NewSGDOptimizer (NewDense 1 1)"

definition sgd_update1 :: dense where
  "sgd_update1 = \<lparr>nrows = 1, ncols = 1, elems = [- (1 / 10100)]\<rparr>"

definition sgd_update2 :: dense where
  "sgd_update2 = \<lparr>nrows = 1, ncols = 1, elems = [- (9 / 101000) - 1 / (10200 * sqrt 2)]\<rparr>"

definition sgd_state1 :: SGDOptimizer where
  "sgd_state1 = sgd_fresh\<lparr>PrevUpdate := Some sgd_update1, TimeStep := 1\<rparr>"

definition sgd_state2 :: SGDOptimizer where
  "sgd_state2 = sgd_fresh\<lparr>PrevUpdate := Some sgd_update2, TimeStep := 2\<rparr>"

text \<open>Two column results as the channel of \<open>LinFitGOM\<close> delivers them; the second column failed.\<close>

definition gom_received :: "fitOutputRes list" where
  "gom_received =
     [\<lparr>col = 0, ret = Some \<lparr>LocX = [1], LocF = 0, FuncEvaluations = 3, ResStatus = Success\<rparr>,
       err = None\<rparr>,
      \<lparr>col = 1, ret = Some \<lparr>LocX = [2], LocF = 4, FuncEvaluations = 5, ResStatus = Failure\<rparr>,
       err = Some ''linesearch: failed to converge''\<rparr>]"

text \<open>
  An Adam optimizer with momentum 0.9 before and after two calls of \<open>GetUpdate\<close> with
  the gradient \<open>[[1]]\<close>, the same for the optimizer as its constructor returns it, and a
  two-by-one gradient of norm five million.
\<close>

definition adam_fresh :: SGDOptimizer where
  "adam_fresh = SetTheta (NewAdamOptimizer\<lparr>Momentum := 9 / 10\<rparr>) (NewDense 1 1)"

definition adam_update1 :: dense where
  "adam_update1 = \<lparr>nrows = 1, ncols = 1, elems = [- (50000000 / 100000001)]\<rparr>"

definition adam_update2 :: dense where
  "adam_update2 = \<lparr>nrows = 1, ncols = 1, elems = [- (95000000 / 100000001)]\<rparr>"

definition one_by_one :: "real \<Rightarrow> dense" where
  "one_by_one x = \<lparr>nrows = 1, ncols = 1, elems = [x]\<rparr>"

definition adam_state1 :: SGDOptimizer where
  "adam_state1 =
     adam_fresh\<lparr>PrevUpdate := Some adam_update1, TimeStep := 1,
                 Mt := Some (one_by_one (1 / 10)), Vt := Some (one_by_one (1 / 1000)),
                 Mtcap := Some (one_by_one 1), Vtcap := Some (one_by_one 1)\<rparr>"

definition adam_state2 :: SGDOptimizer where
  "adam_state2 =
     adam_fresh\<lparr>PrevUpdate := Some adam_update2, TimeStep := 2,
                 Mt := Some (one_by_one (19 / 100)), Vt := Some (one_by_one (1999 / 1000000)),
                 Mtcap := Some (one_by_one 1), Vtcap := Some (one_by_one 1)\<rparr>"

definition adam_plain :: SGDOptimizer where
  "adam_plain = SetTheta NewAdamOptimizer (NewDense 1 1)"

definition adam_plain1 :: SGDOptimizer where
  "adam_plain1 =
     adam_plain\<lparr>PrevUpdate := Some adam_update1, TimeStep := 1,
                 Mt := Some (one_by_one (1 / 10)), Vt := Some (one_by_one (1 / 1000)),
                 Mtcap := Some (one_by_one 1), Vtcap := Some (one_by_one 1)\<rparr>"

definition adam_plain2 :: SGDOptimizer where
  "adam_plain2 =
     adam_plain\<lparr>PrevUpdate := Some adam_update1, TimeStep := 2,
                 Mt := Some (one_by_one (19 / 100)), Vt := Some (one_by_one (1999 / 1000000)),
                 Mtcap := Some (one_by_one 1), Vtcap := Some (one_by_one 1)\<rparr>"

definition grad_big :: dense where
  "grad_big = \<lparr>nrows = 2, ncols = 1, elems = [3000000, 4000000]\<rparr>"

text \<open>
  Collaborators for runs of \<open>LinFit\<close>: an identity shuffle and a metric that always reports
  the mean squared error 1/16, so that \<open>rmse\<close> is 1/4 and its square root 1/2. The loss of
  \<open>demo_env\<close> is constantly zero with a zero gradient; the loss of \<open>drift_env\<close> has the
  constant gradient \<open>[[1]]\<close> and is least at the parameter the first Adam step reaches.
\<close>

definition demo_env :: "unit LinFitEnv" where
  "demo_env =
     \<lparr>Loss = (\<lambda>Y X th a l k. (0, Y, NewDense (nrows th) (ncols th))),
      MatShuffle = (\<lambda>g X Y. (X, Y, g)),
      MeanSquaredError = (\<lambda>Y Ypred. 1 / 16),
      ThetaInit = (\<lambda>i j. 0)\<rparr>"


text \<open>
  Options with a budget of two epochs and a tolerance between \<open>rmse\<close> and its square root,
  options with everything unset, and a data matrix of four samples.
\<close>

definition demo_opts :: LinFitOptions where
  "demo_opts = \<lparr>Epochs = 2, MiniBatchSize = 1, Tol = 2 / 5, Alpha = 0, L1Ratio = 0\<rparr>"

definition unset_opts :: LinFitOptions where
  "unset_opts = \<lparr>Epochs = 0, MiniBatchSize = 0, Tol = 1, Alpha = 0, L1Ratio = 0\<rparr>"

definition four_by_one :: dense where
  "four_by_one = \<lparr>nrows = 4, ncols = 1, elems = [1, 2, 3, 4]\<rparr>"

text \<open>
  The gradient column \<open>[2, 10]\<close>, its norm \<open>sqrt 104\<close> rounded to \<open>float64\<close>
  (10.198039027185569), the Adagrad optimizer (threshold 10) after the norm stage of
  its first call on that gradient in \<open>float64\<close> arithmetic, and the column it clips to there
  (1.9611613513818404 and 9.805806756909202).
\<close>

definition grad_two_ten :: dense where
  "grad_two_ten = \<lparr>nrows = 2, ncols = 1, elems = [2, 10]\<rparr>"

definition norm_two_ten :: real where
  "norm_two_ten = 5740985595342838 / 2 ^ 49"

definition clip_state :: SGDOptimizer where
  "clip_state =
     (begin_step NewAdagradOptimizer grad_two_ten)\<lparr>GtNorm := Some (one_by_one norm_two_ten)\<rparr>"

definition clipped_two_ten :: dense where
  "clipped_two_ten =
     \<lparr>nrows = 2, ncols = 1,
      elems = [8832285531296675 / 2 ^ 52, 5520178457060422 / 2 ^ 49]\<rparr>"

text \<open>
  A call of \<open>MakeRegression\<close> for two samples, three features, five informative features
  (more than there are features), two targets and a bias per target, with a generator
  that yields 0, 1, 2, ...; and a dimension check that panics exactly on a mismatch.
\<close>

definition demo_kwargs :: kwargs where
  "demo_kwargs =
     map_of [(''n_samples'', KInt 2), (''n_features'', KInt 3), (''n_informative'', KInt 5),
             (''n_targets'', KInt 2), (''bias'', KFloats [10, 20]),
             (''random_state'', KRand (\<lambda>k. real k))]"

definition demo_generator :: MakeRegressionEnv where
  "demo_generator =
     \<lparr>NormFloat64 = (\<lambda>k. 0),
      MatDimsCheck = (\<lambda>op y a b. if nrows y = nrows a \<and> ncols a = nrows b \<and> ncols y = ncols b
                                 then None else Some ErrShape)\<rparr>"

section \<open>Basic facts about results and matrices\<close>

lemma bind_res_Inr [simp]: "bind_res (Inr x) f = f x"
  by (simp add: bind_res_def)

lemma bind_res_Inl [simp]: "bind_res (Inl e) f = Inl e"
  by (simp add: bind_res_def)

lemma bind_res_eq_Inr:
  "bind_res m f = Inr y \<longleftrightarrow> (\<exists>x. m = Inr x \<and> f x = Inr y)"
  by (cases m) simp_all

lemma mapM_res_Inr_iff:
  "mapM_res f xs = Inr ys \<longleftrightarrow> length ys = length xs \<and> (\<forall>k < length xs. f (xs ! k) = Inr (ys ! k))"
proof (induction xs arbitrary: ys)
  case Nil
  then show ?case by auto
next
  case (Cons x xs)
  show ?case
  proof (cases ys)
    case Nil
    then show ?thesis by (auto split: sum.splits)
  next
    case (Cons y ys')
    then show ?thesis
      using Cons.IH [of ys']
      by (auto split: sum.splits simp: nth_Cons less_Suc_eq_0_disj split: nat.splits)
  qed
qed

lemma mapM_res_total:
  "(\<forall>x \<in> set xs. \<exists>y. f x = Inr y) \<Longrightarrow> \<exists>ys. mapM_res f xs = Inr ys"
  by (induction xs) (auto split: sum.splits)

lemma index_div_mod:
  fixes i j c :: nat
  assumes "j < c"
  shows "(i * c + j) div c = i" "(i * c + j) mod c = j"
  using assms by simp_all

lemma index_less:
  fixes i j r c :: nat
  assumes "i < r" "j < c"
  shows "i * c + j < r * c"
proof -
  have "i * c + j < i * c + c" using assms by simp
  also have "\<dots> = Suc i * c" by simp
  also have "\<dots> \<le> r * c" using assms by (intro mult_le_mono1) simp
  finally show ?thesis .
qed

lemma Apply_Inr_iff:
  "Apply fn a m = Inr r \<longleftrightarrow>
     (ncols m = 0 \<or> (nrows m = nrows a \<and> ncols m = ncols a)) \<and>
     shaped (nrows a) (ncols a) r \<and>
     (\<forall>k < nrows a * ncols a. fn (k div ncols a) (k mod ncols a) (elems a ! k) = Inr (elems r ! k))"
proof (cases "ncols m \<noteq> 0 \<and> (nrows m \<noteq> nrows a \<or> ncols m \<noteq> ncols a)")
  case True
  then show ?thesis by (auto simp add: Apply_def)
next
  case False
  let ?f = "\<lambda>k. fn (k div ncols a) (k mod ncols a) (elems a ! k)"
  let ?n = "nrows a * ncols a"
  have "Apply fn a m = Inr r \<longleftrightarrow>
        (\<exists>vs. mapM_res ?f [0 ..< ?n] = Inr vs \<and>
              \<lparr>nrows = nrows a, ncols = ncols a, elems = vs\<rparr> = r)"
    using False by (auto simp add: Apply_def bind_res_eq_Inr)
  also have "\<dots> \<longleftrightarrow> mapM_res ?f [0 ..< ?n] = Inr (elems r) \<and>
                nrows r = nrows a \<and> ncols r = ncols a"
    by (cases r) auto
  also have "\<dots> \<longleftrightarrow> shaped (nrows a) (ncols a) r \<and>
                (\<forall>k < ?n. ?f k = Inr (elems r ! k))"
    unfolding mapM_res_Inr_iff shaped_def by auto
  finally show ?thesis using False by blast
qed

lemma Apply_entry:
  assumes "Apply fn a m = Inr r" "i < nrows a" "j < ncols a"
  shows "fn i j (elems a ! (i * ncols a + j)) = Inr (elems r ! (i * ncols a + j))"
proof -
  have lt: "i * ncols a + j < nrows a * ncols a"
    using assms(2,3) by (rule index_less)
  have "\<forall>k < nrows a * ncols a.
          fn (k div ncols a) (k mod ncols a) (elems a ! k) = Inr (elems r ! k)"
    using assms(1) unfolding Apply_Inr_iff by (elim conjE)
  then have "fn ((i * ncols a + j) div ncols a) ((i * ncols a + j) mod ncols a)
      (elems a ! (i * ncols a + j)) = Inr (elems r ! (i * ncols a + j))"
    using lt by (simp del: div_mult_self3 div_mult_self4 mod_mult_self3 mod_mult_self4)
  then show ?thesis using assms(3) by simp
qed

lemma Apply_shaped:
  assumes "Apply fn a m = Inr r"
  shows "shaped (nrows a) (ncols a) r"
  using assms unfolding Apply_Inr_iff by (elim conjE)

lemma Apply_total:
  assumes "ncols m = 0 \<or> (nrows m = nrows a \<and> ncols m = ncols a)"
    and "\<And>i j. i < nrows a \<Longrightarrow> j < ncols a \<Longrightarrow> \<exists>y. fn i j (elems a ! (i * ncols a + j)) = Inr y"
  shows "\<exists>r. Apply fn a m = Inr r \<and> shaped (nrows a) (ncols a) r"
proof -
  let ?f = "\<lambda>k. fn (k div ncols a) (k mod ncols a) (elems a ! k)"
  have "\<forall>k \<in> set [0 ..< nrows a * ncols a]. \<exists>y. ?f k = Inr y"
  proof
    fix k assume "k \<in> set [0 ..< nrows a * ncols a]"
    then have k: "k < nrows a * ncols a" by simp
    have c: "0 < ncols a"
    proof (rule ccontr)
      assume "\<not> 0 < ncols a"
      then have "ncols a = 0" by simp
      with k show False by simp
    qed
    have "k < ncols a * nrows a" using k by (simp add: mult.commute)
    then have d: "k div ncols a < nrows a"
      by (rule less_mult_imp_div_less [rotated -1, of k "nrows a" "ncols a"] | simp add: mult.commute less_mult_imp_div_less)+
    have e: "k mod ncols a < ncols a" using c by simp
    have "\<exists>y. fn (k div ncols a) (k mod ncols a)
        (elems a ! ((k div ncols a) * ncols a + k mod ncols a)) = Inr y"
      using d e by (rule assms(2))
    moreover have "(k div ncols a) * ncols a + k mod ncols a = k"
      by (rule div_mult_mod_eq)
    ultimately show "\<exists>y. ?f k = Inr y" by (simp only:)
  qed
  then have "\<exists>ys. mapM_res ?f [0 ..< nrows a * ncols a] = Inr ys"
    by (rule mapM_res_total)
  then obtain vs where vs: "mapM_res ?f [0 ..< nrows a * ncols a] = Inr vs" ..
  then have len: "length vs = nrows a * ncols a" by (simp add: mapM_res_Inr_iff)
  have "Apply fn a m = Inr \<lparr>nrows = nrows a, ncols = ncols a, elems = vs\<rparr>"
    using assms(1) by (auto simp add: Apply_def vs)
  moreover have "shaped (nrows a) (ncols a) \<lparr>nrows = nrows a, ncols = ncols a, elems = vs\<rparr>"
    using len by (simp add: shaped_def)
  ultimately show ?thesis by blast
qed

lemma At_shaped:
  "shaped r c m \<Longrightarrow> i < r \<Longrightarrow> j < c \<Longrightarrow> At m i j = Inr (elems m ! (i * c + j))"
  by (simp add: At_def shaped_def)

lemma same_fixed_refl: "same_fixed s s"
  by (simp add: same_fixed_def)

lemma same_fixed_trans: "same_fixed s s' \<Longrightarrow> same_fixed s' s'' \<Longrightarrow> same_fixed s s''"
  by (simp add: same_fixed_def)

lemma first_call_alloc_fixed: "same_fixed s (first_call_alloc s nf no)"
  by (simp add: same_fixed_def first_call_alloc_def Let_def)

lemma compute_norms_fixed:
  "compute_norms s grad = Inr s' \<Longrightarrow> same_fixed s s'"
  by (auto simp: compute_norms_def bind_res_eq_Inr same_fixed_def split: if_splits)

lemma update_RMSProp_fixed:
  "update_RMSProp s u grad = Inr (s', u') \<Longrightarrow> same_fixed s s'"
  by (auto simp: update_RMSProp_def bind_res_eq_Inr same_fixed_def)

lemma update_Adagrad_fixed:
  "update_Adagrad s u grad = Inr (s', u') \<Longrightarrow> same_fixed s s'"
  by (auto simp: update_Adagrad_def bind_res_eq_Inr same_fixed_def)

lemma update_Adadelta_fixed:
  "update_Adadelta s eta u grad = Inr (s', u') \<Longrightarrow> same_fixed s s'"
  by (auto simp: update_Adadelta_def bind_res_eq_Inr same_fixed_def)

lemma update_Adam_fixed:
  "update_Adam s u grad = Inr (s', u') \<Longrightarrow> same_fixed s s'"
  by (auto simp: update_Adam_def bind_res_eq_Inr same_fixed_def)

lemma update_SGD_fixed:
  "update_SGD s eta u grad = Inr (s', u') \<Longrightarrow> same_fixed s s'"
  by (auto simp: update_SGD_def bind_res_eq_Inr same_fixed_def)

lemma variant_update_fixed:
  "variant_update s eta u grad = Inr (s', u') \<Longrightarrow> same_fixed s s'"
  unfolding variant_update_def
  by (auto split: if_splits dest: update_RMSProp_fixed update_Adagrad_fixed
        update_Adadelta_fixed update_Adam_fixed update_SGD_fixed)

lemma clone_prev_fixed:
  "clone_prev s u = Inr s' \<Longrightarrow> same_fixed s s'"
  by (auto simp: clone_prev_def bind_res_eq_Inr same_fixed_def)

lemma begin_step_fixed:
  "TimeStep (begin_step s grad) = TimeStep s + 1"
  "same_fixed (s\<lparr>TimeStep := TimeStep s + 1\<rparr>) (begin_step s grad)"
  using first_call_alloc_fixed [of s "nrows grad" "ncols grad"]
  by (simp_all add: begin_step_def Let_def same_fixed_def)

lemma GetUpdate_Inr_iff:
  "GetUpdate s u grad = Inr (s', u') \<longleftrightarrow>
     (\<exists>s2 s3 upd.
        compute_norms (begin_step s grad) grad = Inr s2 \<and>
        variant_update s2
          (StepSize (begin_step s grad) * 100 / (100 + real (TimeStep (begin_step s grad))))
          u grad = Inr (s3, upd) \<and>
        apply_momentum s3 upd = Inr u' \<and> clone_prev s3 u' = Inr s')"
  by (auto simp: GetUpdate_def Let_def bind_res_eq_Inr)

lemma GetUpdate_fixed:
  assumes "GetUpdate s u grad = Inr (s', u')"
  shows "same_fixed (s\<lparr>TimeStep := TimeStep s + 1\<rparr>) s'"
proof -
  from assms obtain s2 s3 upd where
    a: "compute_norms (begin_step s grad) grad = Inr s2"
    and b: "variant_update s2
          (StepSize (begin_step s grad) * 100 / (100 + real (TimeStep (begin_step s grad))))
          u grad = Inr (s3, upd)"
    and d: "clone_prev s3 u' = Inr s'"
    unfolding GetUpdate_Inr_iff by (elim exE conjE)
  show ?thesis
    using begin_step_fixed(2) [of s grad]
      compute_norms_fixed [OF a] variant_update_fixed [OF b] clone_prev_fixed [OF d]
    by (simp add: same_fixed_def)
qed

section \<open>Facts about the update rule\<close>

lemma mapM_res_map:
  "(\<And>x. x \<in> set xs \<Longrightarrow> f x = Inr (g x)) \<Longrightarrow> mapM_res f xs = Inr (map g xs)"
  by (induction xs) simp_all

lemma At_entry:
  "i < nrows m \<Longrightarrow> j < ncols m \<Longrightarrow> At m i j = Inr (entry m i j)"
  by (simp add: At_def entry_def)

lemma foldl_squares:
  "foldl (\<lambda>s v. s + v * v) a vs = a + (\<Sum>v\<leftarrow>vs. v * v)"
  by (induction vs arbitrary: a) (simp_all add: add.assoc)

lemma sum_list_upt: "(\<Sum>i\<leftarrow>[0 ..< n]. f i) = (\<Sum>i < n. f i)"
  by (simp add: sum_list_sum_nth atLeast0LessThan)

lemma colNorm_value:
  assumes "j < ncols m"
  shows "colNorm m j = Inr (col_l2 m j)"
proof -
  have "mapM_res (\<lambda>i. At m i j) [0 ..< nrows m] = Inr (map (\<lambda>i. entry m i j) [0 ..< nrows m])"
    using assms by (intro mapM_res_map) (simp add: At_entry)
  then show ?thesis
    by (simp add: colNorm_def foldl_squares col_l2_def sum_list_upt comp_def)
qed

lemma set_norms_value:
  assumes "nrows gn = c" "ncols gn = 1" "length (elems gn) = c" "set js \<subseteq> {..<c}"
    "c \<le> ncols grad"
  shows "\<exists>gn'. set_norms grad js gn = Inr gn' \<and> nrows gn' = c \<and> ncols gn' = 1 \<and>
           length (elems gn') = c \<and>
           (\<forall>j < c. elems gn' ! j = (if j \<in> set js then col_l2 grad j else elems gn ! j))"
  using assms
proof (induction js arbitrary: gn)
  case Nil
  then show ?case by simp
next
  case (Cons j js)
  have j: "j < c" using Cons.prems(4) by simp
  let ?gn1 = "gn\<lparr>elems := (elems gn)[j := col_l2 grad j]\<rparr>"
  have cn: "colNorm grad j = Inr (col_l2 grad j)"
    using j Cons.prems(5) by (intro colNorm_value) simp
  have st: "Set_dense gn j 0 (col_l2 grad j) = Inr ?gn1"
    using j Cons.prems(1,2) by (simp add: Set_dense_def)
  have "\<exists>gn'. set_norms grad js ?gn1 = Inr gn' \<and> nrows gn' = c \<and> ncols gn' = 1 \<and>
           length (elems gn') = c \<and>
           (\<forall>k < c. elems gn' ! k = (if k \<in> set js then col_l2 grad k else elems ?gn1 ! k))"
    using Cons.prems by (intro Cons.IH) simp_all
  then obtain gn' where g: "set_norms grad js ?gn1 = Inr gn'" "nrows gn' = c" "ncols gn' = 1"
    "length (elems gn') = c"
    "\<forall>k < c. elems gn' ! k = (if k \<in> set js then col_l2 grad k else elems ?gn1 ! k)"
    by blast
  have "set_norms grad (j # js) gn = Inr gn'"
    by (simp add: cn st g(1))
  moreover have "\<forall>k < c. elems gn' ! k = (if k \<in> set (j # js) then col_l2 grad k else elems gn ! k)"
    using g(5) Cons.prems(3) j by (auto simp: nth_list_update)
  ultimately show ?case using g(2,3,4) by blast
qed

lemma shaped_NewDense: "shaped r c (NewDense r c)"
  by (simp add: shaped_def NewDense_def)

lemma shaped_init_fill: "shaped r c m \<Longrightarrow> shaped r c (init_fill m v)"
  by (simp add: shaped_def init_fill_def)

lemma shaped_opt_Some: "shaped_opt r c (Some m) = shaped r c m"
  by (simp add: shaped_opt_def)

lemma first_call_alloc_buffers: "buffers_ok r c (first_call_alloc s r c)"
  by (simp add: buffers_ok_def first_call_alloc_def Let_def shaped_opt_Some shaped_NewDense
        shaped_init_fill)

lemma buffers_ok_TimeStep: "buffers_ok r c (s\<lparr>TimeStep := t\<rparr>) = buffers_ok r c s"
  by (simp add: buffers_ok_def)

lemma begin_step_buffers:
  assumes "0 < TimeStep s \<longrightarrow> buffers_ok r c s" "nrows grad = r" "ncols grad = c"
  shows "buffers_ok r c (begin_step s grad)"
  using assms first_call_alloc_buffers [of r c s]
  by (auto simp: begin_step_def Let_def buffers_ok_TimeStep)

lemma compute_norms_value:
  assumes "buffers_ok r c s" "ncols grad = c"
  shows "\<exists>s2. compute_norms s grad = Inr s2 \<and> buffers_ok r c s2 \<and> same_fixed s s2 \<and>
           (0 < GradientClipping s \<longrightarrow>
              (\<exists>gn. GtNorm s2 = Some gn \<and> shaped c 1 gn \<and> (\<forall>j < c. elems gn ! j = col_l2 grad j)))"
proof (cases "0 < GradientClipping s")
  case False
  then show ?thesis using assms(1) by (simp add: compute_norms_def same_fixed_refl)
next
  case True
  then obtain gn where gn: "GtNorm s = Some gn" "shaped c 1 gn"
    using assms(1) by (auto simp: buffers_ok_def shaped_opt_def)
  have "\<exists>gn'. set_norms grad [0 ..< c] gn = Inr gn' \<and> nrows gn' = c \<and> ncols gn' = 1 \<and>
           length (elems gn') = c \<and>
           (\<forall>j < c. elems gn' ! j = (if j \<in> set [0 ..< c] then col_l2 grad j else elems gn ! j))"
    using gn(2) assms(2) by (intro set_norms_value) (auto simp: shaped_def)
  then obtain gn' where g: "set_norms grad [0 ..< c] gn = Inr gn'" "nrows gn' = c" "ncols gn' = 1"
    "length (elems gn') = c" "\<forall>j < c. elems gn' ! j = col_l2 grad j"
    by auto
  have sh: "shaped c 1 gn'" using g(2,3,4) by (simp add: shaped_def)
  have e: "compute_norms s grad = Inr (s\<lparr>GtNorm := Some gn'\<rparr>)"
    using True gn(1) g(1) assms(2) by (simp add: compute_norms_def deref_def)
  have "buffers_ok r c (s\<lparr>GtNorm := Some gn'\<rparr>)"
    using assms(1) sh by (simp add: buffers_ok_def shaped_opt_Some)
  moreover have "same_fixed s (s\<lparr>GtNorm := Some gn'\<rparr>)" by (simp add: same_fixed_def)
  ultimately show ?thesis using e sh g(5) by auto
qed

lemma gradientClipped_value:
  assumes "i < nrows grad" "j < ncols grad"
    and "0 < GradientClipping s \<longrightarrow>
           (\<exists>gn. GtNorm s = Some gn \<and> shaped (ncols grad) 1 gn \<and> elems gn ! j = col_l2 grad j)"
  shows "gradientClipped s grad i j
           = Inr (clip (GradientClipping s) (col_l2 grad j) (entry grad i j))"
proof (cases "0 < GradientClipping s")
  case False
  then show ?thesis using assms(1,2) by (simp add: gradientClipped_def At_entry clip_def)
next
  case True
  then obtain gn where gn: "GtNorm s = Some gn" "shaped (ncols grad) 1 gn"
    "elems gn ! j = col_l2 grad j"
    using assms(3) by blast
  have "At gn j 0 = Inr (col_l2 grad j)"
    using gn(2,3) assms(2) by (simp add: At_def shaped_def)
  then show ?thesis
    using True gn(1) assms(1,2) by (simp add: gradientClipped_def At_entry clip_def deref_def)
qed

lemma clipped_column_norm:
  assumes "0 < c"
  shows "sqrt (\<Sum>i < n. clip c (sqrt (\<Sum>i < n. f i * f i)) (f i) * clip c (sqrt (\<Sum>i < n. f i * f i)) (f i)) \<le> c"
proof -
  let ?N = "sqrt (\<Sum>i < n. f i * f i)"
  have nn: "0 \<le> (\<Sum>i < n. f i * f i)" by (intro sum_nonneg) simp
  show ?thesis
  proof (cases "c < ?N")
    case False
    then show ?thesis using assms by (simp add: clip_def)
  next
    case True
    then have Npos: "0 < ?N" using assms by linarith
    have "(\<Sum>i < n. clip c ?N (f i) * clip c ?N (f i))
            = (\<Sum>i < n. (c / ?N) * (c / ?N) * (f i * f i))"
      using True assms by (intro sum.cong) (simp_all add: clip_def)
    also have "\<dots> = (c / ?N) * (c / ?N) * (\<Sum>i < n. f i * f i)"
      by (simp add: sum_distrib_left)
    also have "\<dots> = (c / ?N) * (c / ?N) * (?N * ?N)"
      using nn by simp
    also have "\<dots> = c * c" using Npos by simp
    finally have "sqrt (\<Sum>i < n. clip c ?N (f i) * clip c ?N (f i)) = sqrt (c * c)" by simp
    then show ?thesis using assms by simp
  qed
qed

lemma gc_total:
  assumes "buffers_ok r c s" "shaped r c grad" "i < r" "j < c"
  shows "\<exists>y. gradientClipped s grad i j = Inr y"
proof -
  have g: "At grad i j = Inr (elems grad ! (i * c + j))"
    using assms(2,3,4) by (rule At_shaped)
  show ?thesis
  proof (cases "0 < GradientClipping s")
    case False
    then show ?thesis by (simp add: gradientClipped_def g)
  next
    case True
    then obtain gn where gn: "GtNorm s = Some gn" "shaped c 1 gn"
      using assms(1) by (auto simp: buffers_ok_def shaped_opt_def)
    have "At gn j 0 = Inr (elems gn ! (j * 1 + 0))"
      using gn(2) assms(4) by (intro At_shaped) simp_all
    then show ?thesis using True gn(1) by (simp add: gradientClipped_def g deref_def)
  qed
qed

lemma recv_ok:
  "shaped r c a \<Longrightarrow> ncols m = 0 \<or> shaped r c m \<Longrightarrow>
   ncols m = 0 \<or> (nrows m = nrows a \<and> ncols m = ncols a)"
  by (auto simp: shaped_def)

lemma shaped_dims: "shaped r c m \<Longrightarrow> nrows m = r \<and> ncols m = c"
  by (simp add: shaped_def)

lemma update_SGD_total:
  assumes "buffers_ok r c s" "shaped r c grad" "ncols u = 0 \<or> shaped r c u"
  shows "\<exists>s' u'. update_SGD s eta u grad = Inr (s', u') \<and> buffers_ok r c s' \<and> shaped r c u'"
proof -
  let ?f = "\<lambda>j oc gradjo. bind_res (gradientClipped s grad j oc)
              (\<lambda>gc. Inr (- eta * gc / sqrt (1 * real (TimeStep s))))"
  have d: "nrows grad = r" "ncols grad = c" using assms(2) by (simp_all add: shaped_def)
  have "\<exists>u'. Apply ?f grad u = Inr u' \<and> shaped (nrows grad) (ncols grad) u'"
  proof (rule Apply_total)
    show "ncols u = 0 \<or> (nrows u = nrows grad \<and> ncols u = ncols grad)"
      using assms(2,3) by (rule recv_ok)
  next
    fix i j assume "i < nrows grad" "j < ncols grad"
    then have "\<exists>y. gradientClipped s grad i j = Inr y"
      using assms(1,2) d by (intro gc_total [of r c]) simp_all
    then show "\<exists>y. ?f i j (elems grad ! (i * ncols grad + j)) = Inr y" by auto
  qed
  then obtain u' where "Apply ?f grad u = Inr u'" "shaped r c u'" using d by auto
  then show ?thesis using assms(1) by (simp add: update_SGD_def)
qed

lemma update_Adagrad_total:
  assumes "buffers_ok r c s" "shaped r c grad" "ncols u = 0 \<or> shaped r c u" "Adagrad s"
  shows "\<exists>s' u'. update_Adagrad s u grad = Inr (s', u') \<and> buffers_ok r c s' \<and> shaped r c u'"
proof -
  obtain G where G: "AdagradG s = Some G" "shaped r c G"
    using assms(1,4) by (auto simp: buffers_ok_def shaped_opt_def)
  have d: "nrows grad = r" "ncols grad = c" using assms(2) by (simp_all add: shaped_def)
  have dG: "nrows G = r" "ncols G = c" using G(2) by (simp_all add: shaped_def)
  let ?f = "\<lambda>j oc v.
                 bind_res (deref (AdagradG s)) (\<lambda>G.
                 bind_res (At G j oc) (\<lambda>Gjo.
                 bind_res (gradientClipped s grad j oc) (\<lambda>gc.
                   Inr (- (if 1 < TimeStep s then StepSize s / (sqrt Gjo + Epsilon s)
                           else StepSize s) * gc))))"
  let ?g = "\<lambda>j oc v.
                 bind_res (gradientClipped s grad j oc) (\<lambda>gradjo.
                   Inr (v + gradjo * gradjo))"
  have "\<exists>u'. Apply ?f grad u = Inr u' \<and> shaped (nrows grad) (ncols grad) u'"
  proof (rule Apply_total)
    show "ncols u = 0 \<or> (nrows u = nrows grad \<and> ncols u = ncols grad)"
      using assms(2,3) by (rule recv_ok)
  next
    fix i j assume ij: "i < nrows grad" "j < ncols grad"
    then have "\<exists>y. gradientClipped s grad i j = Inr y"
      using assms(1,2) d by (intro gc_total [of r c]) simp_all
    moreover have "At G i j = Inr (elems G ! (i * c + j))"
      using G(2) ij d by (intro At_shaped) simp_all
    ultimately show "\<exists>y. ?f i j (elems grad ! (i * ncols grad + j)) = Inr y"
      using G(1) by (auto simp: deref_def)
  qed
  then obtain u' where u': "Apply ?f grad u = Inr u'" "shaped r c u'" using d by auto
  have "\<exists>G'. Apply ?g G G = Inr G' \<and> shaped (nrows G) (ncols G) G'"
  proof (rule Apply_total)
    show "ncols G = 0 \<or> (nrows G = nrows G \<and> ncols G = ncols G)" by simp
  next
    fix i j assume ij: "i < nrows G" "j < ncols G"
    then have "\<exists>y. gradientClipped s grad i j = Inr y"
      using assms(1,2) dG by (intro gc_total [of r c]) simp_all
    then show "\<exists>y. ?g i j (elems G ! (i * ncols G + j)) = Inr y" by auto
  qed
  then obtain G' where G': "Apply ?g G G = Inr G'" "shaped r c G'" using dG by auto
  have "update_Adagrad s u grad = Inr (s\<lparr>AdagradG := Some G'\<rparr>, u')"
    using u'(1) G'(1) by (simp add: update_Adagrad_def G(1) deref_def)
  moreover have "buffers_ok r c (s\<lparr>AdagradG := Some G'\<rparr>)"
    using assms(1) G'(2) by (simp add: buffers_ok_def shaped_opt_Some)
  ultimately show ?thesis using u'(2) by blast
qed

lemma update_RMSProp_total:
  assumes "buffers_ok r c s" "shaped r c grad" "ncols u = 0 \<or> shaped r c u" "RMSProp s"
  shows "\<exists>s' u'. update_RMSProp s u grad = Inr (s', u') \<and> buffers_ok r c s' \<and> shaped r c u'"
proof -
  obtain G where G: "AdagradG s = Some G" "shaped r c G"
    using assms(1,4) by (auto simp: buffers_ok_def shaped_opt_def)
  have dG: "nrows G = r" "ncols G = c" using G(2) by (simp_all add: shaped_def)
  let ?f = "\<lambda>j oc v.
                 bind_res (if 1 < TimeStep s
                           then bind_res (At G j oc) (\<lambda>g1.
                                  if 1 < \<bar>g1\<bar>
                                  then bind_res (At G j oc) (\<lambda>g2.
                                         Inr (StepSize s / sqrt (g2 + Epsilon s)))
                                  else Inr (StepSize s))
                           else Inr (StepSize s)) (\<lambda>etajo.
                 bind_res (gradientClipped s grad j oc) (\<lambda>gc. Inr (- etajo * gc)))"
  let ?g = "\<lambda>j oc v.
                 bind_res (gradientClipped s grad j oc) (\<lambda>gradjo.
                   Inr (v * RMSPropGamma s + (1 - RMSPropGamma s) * gradjo * gradjo))"
  have "\<exists>u'. Apply ?f G u = Inr u' \<and> shaped (nrows G) (ncols G) u'"
  proof (rule Apply_total)
    show "ncols u = 0 \<or> (nrows u = nrows G \<and> ncols u = ncols G)"
      using G(2) assms(3) by (rule recv_ok)
  next
    fix i j assume ij: "i < nrows G" "j < ncols G"
    then have "\<exists>y. gradientClipped s grad i j = Inr y"
      using assms(1,2) dG by (intro gc_total [of r c]) simp_all
    moreover have "At G i j = Inr (elems G ! (i * c + j))"
      using G(2) ij dG by (intro At_shaped) simp_all
    ultimately show "\<exists>y. ?f i j (elems G ! (i * ncols G + j)) = Inr y"
      by auto
  qed
  then obtain u' where u': "Apply ?f G u = Inr u'" "shaped r c u'" using dG by auto
  have "\<exists>G'. Apply ?g G G = Inr G' \<and> shaped (nrows G) (ncols G) G'"
  proof (rule Apply_total)
    show "ncols G = 0 \<or> (nrows G = nrows G \<and> ncols G = ncols G)" by simp
  next
    fix i j assume ij: "i < nrows G" "j < ncols G"
    then have "\<exists>y. gradientClipped s grad i j = Inr y"
      using assms(1,2) dG by (intro gc_total [of r c]) simp_all
    then show "\<exists>y. ?g i j (elems G ! (i * ncols G + j)) = Inr y" by auto
  qed
  then obtain G' where G': "Apply ?g G G = Inr G'" "shaped r c G'" using dG by auto
  have "update_RMSProp s u grad = Inr (s\<lparr>AdagradG := Some G'\<rparr>, u')"
    using u'(1) G'(1) by (simp add: update_RMSProp_def G(1) deref_def)
  moreover have "buffers_ok r c (s\<lparr>AdagradG := Some G'\<rparr>)"
    using assms(1) G'(2) by (simp add: buffers_ok_def shaped_opt_Some)
  ultimately show ?thesis using u'(2) by blast
qed

lemma update_Adadelta_total:
  assumes "buffers_ok r c s" "shaped r c grad" "ncols u = 0 \<or> shaped r c u" "Adadelta s"
  shows "\<exists>s' u'. update_Adadelta s eta u grad = Inr (s', u') \<and> buffers_ok r c s' \<and> shaped r c u'"
proof -
  obtain G where G: "AdagradG s = Some G" "shaped r c G"
    using assms(1,4) by (auto simp: buffers_ok_def shaped_opt_def)
  obtain U where U: "AdadeltaU s = Some U" "shaped r c U"
    using assms(1,4) by (auto simp: buffers_ok_def shaped_opt_def)
  have d: "nrows grad = r" "ncols grad = c" using assms(2) by (simp_all add: shaped_def)
  have dG: "nrows G = r" "ncols G = c" using G(2) by (simp_all add: shaped_def)
  have dU: "nrows U = r" "ncols U = c" using U(2) by (simp_all add: shaped_def)
  let ?g = "\<lambda>j oc v.
                 bind_res (gradientClipped s grad j oc) (\<lambda>gradjo.
                   Inr (RMSPropGamma s * v + (1 - RMSPropGamma s) * gradjo * gradjo))"
  have "\<exists>G'. Apply ?g G G = Inr G' \<and> shaped (nrows G) (ncols G) G'"
  proof (rule Apply_total)
    show "ncols G = 0 \<or> (nrows G = nrows G \<and> ncols G = ncols G)" by simp
  next
    fix i j assume ij: "i < nrows G" "j < ncols G"
    then have "\<exists>y. gradientClipped s grad i j = Inr y"
      using assms(1,2) dG by (intro gc_total [of r c]) simp_all
    then show "\<exists>y. ?g i j (elems G ! (i * ncols G + j)) = Inr y" by auto
  qed
  then obtain G' where G': "Apply ?g G G = Inr G'" "shaped r c G'" using dG by auto
  let ?f = "\<lambda>j oc gradjo.
                 bind_res (if 1 < TimeStep s
                           then bind_res (deref (AdadeltaU s)) (\<lambda>U.
                                bind_res (At U j oc) (\<lambda>u.
                                bind_res (At G' j oc) (\<lambda>g.
                                  Inr (sqrt u / sqrt (g + Epsilon s)))))
                           else Inr eta) (\<lambda>etajo.
                 bind_res (gradientClipped s grad j oc) (\<lambda>gc. Inr (- etajo * gc)))"
  have "\<exists>u'. Apply ?f grad u = Inr u' \<and> shaped (nrows grad) (ncols grad) u'"
  proof (rule Apply_total)
    show "ncols u = 0 \<or> (nrows u = nrows grad \<and> ncols u = ncols grad)"
      using assms(2,3) by (rule recv_ok)
  next
    fix i j assume ij: "i < nrows grad" "j < ncols grad"
    then have "\<exists>y. gradientClipped s grad i j = Inr y"
      using assms(1,2) d by (intro gc_total [of r c]) simp_all
    moreover have "At G' i j = Inr (elems G' ! (i * c + j))"
      using G'(2) ij d by (intro At_shaped) simp_all
    moreover have "At U i j = Inr (elems U ! (i * c + j))"
      using U(2) ij d by (intro At_shaped) simp_all
    ultimately show "\<exists>y. ?f i j (elems grad ! (i * ncols grad + j)) = Inr y"
      using U(1) by (auto simp: deref_def)
  qed
  then obtain u' where u': "Apply ?f grad u = Inr u'" "shaped r c u'" using d by auto
  let ?h = "\<lambda>j oc v.
                 bind_res (At u' j oc) (\<lambda>u.
                   Inr (RMSPropGamma s * v + (1 - RMSPropGamma s) * u * u))"
  have "\<exists>U'. Apply ?h U U = Inr U' \<and> shaped (nrows U) (ncols U) U'"
  proof (rule Apply_total)
    show "ncols U = 0 \<or> (nrows U = nrows U \<and> ncols U = ncols U)" by simp
  next
    fix i j assume ij: "i < nrows U" "j < ncols U"
    have "At u' i j = Inr (elems u' ! (i * c + j))"
      using u'(2) ij dU by (intro At_shaped) simp_all
    then show "\<exists>y. ?h i j (elems U ! (i * ncols U + j)) = Inr y" by auto
  qed
  then obtain U' where U': "Apply ?h U U = Inr U'" "shaped r c U'" using dU by auto
  have "update_Adadelta s eta u grad = Inr (s\<lparr>AdagradG := Some G', AdadeltaU := Some U'\<rparr>, u')"
    using u'(1) G'(1) U'(1) by (simp add: update_Adadelta_def G(1) U(1) deref_def)
  moreover have "buffers_ok r c (s\<lparr>AdagradG := Some G', AdadeltaU := Some U'\<rparr>)"
    using assms(1) G'(2) U'(2) by (simp add: buffers_ok_def shaped_opt_Some)
  ultimately show ?thesis using u'(2) by blast
qed

lemma Scale_shaped:
  assumes "shaped r c a" "ncols m = 0 \<or> shaped r c m"
  shows "Scale f a m = Inr \<lparr>nrows = r, ncols = c, elems = map (\<lambda>v. f * v) (elems a)\<rparr>"
    and "shaped r c \<lparr>nrows = r, ncols = c, elems = map (\<lambda>v. f * v) (elems a)\<rparr>"
  using assms by (auto simp: Scale_def shaped_def)

lemma reuseAs_shaped: "shaped r c mt \<Longrightarrow> shaped r c grad \<Longrightarrow> shaped r c (reuseAs mt grad)"
  by (auto simp: reuseAs_def shaped_def NewDense_def)

lemma update_Adam_total:
  assumes "buffers_ok r c s" "shaped r c grad" "ncols u = 0 \<or> shaped r c u" "Adam s"
  shows "\<exists>s' u'. update_Adam s u grad = Inr (s', u') \<and> buffers_ok r c s' \<and> shaped r c u'"
proof -
  obtain mt vt mc vc where b: "Mt s = Some mt" "shaped r c mt" "Vt s = Some vt" "shaped r c vt"
    "Mtcap s = Some mc" "shaped r c mc" "Vtcap s = Some vc" "shaped r c vc"
    using assms(1,4) by (auto simp: buffers_ok_def shaped_opt_def)
  have d: "nrows grad = r" "ncols grad = c" using assms(2) by (simp_all add: shaped_def)
  let ?f = "\<lambda>j oc gradjo.
                 bind_res (At (reuseAs mt grad) j oc) (\<lambda>m.
                 bind_res (gradientClipped s grad j oc) (\<lambda>gc.
                   Inr (Beta1 s * m + (1 - Beta1 s) * gc)))"
  let ?g = "\<lambda>j oc gradjo.
                 bind_res (gradientClipped s grad j oc) (\<lambda>gc.
                 bind_res (At (reuseAs vt grad) j oc) (\<lambda>v.
                   Inr (Beta2 s * v + (1 - Beta2 s) * gc * gc)))"
  have "\<exists>mt'. Apply ?f grad mt = Inr mt' \<and> shaped (nrows grad) (ncols grad) mt'"
  proof (rule Apply_total)
    show "ncols mt = 0 \<or> (nrows mt = nrows grad \<and> ncols mt = ncols grad)"
      using assms(2) b(2) by (intro recv_ok [of r c]) simp_all
  next
    fix i j assume ij: "i < nrows grad" "j < ncols grad"
    then have "\<exists>y. gradientClipped s grad i j = Inr y"
      using assms(1,2) d by (intro gc_total [of r c]) simp_all
    moreover have "At (reuseAs mt grad) i j = Inr (elems (reuseAs mt grad) ! (i * c + j))"
      using reuseAs_shaped [OF b(2) assms(2)] ij d by (intro At_shaped) simp_all
    ultimately show "\<exists>y. ?f i j (elems grad ! (i * ncols grad + j)) = Inr y" by auto
  qed
  then obtain mt' where mt': "Apply ?f grad mt = Inr mt'" "shaped r c mt'" using d by auto
  have "\<exists>vt'. Apply ?g grad vt = Inr vt' \<and> shaped (nrows grad) (ncols grad) vt'"
  proof (rule Apply_total)
    show "ncols vt = 0 \<or> (nrows vt = nrows grad \<and> ncols vt = ncols grad)"
      using assms(2) b(4) by (intro recv_ok [of r c]) simp_all
  next
    fix i j assume ij: "i < nrows grad" "j < ncols grad"
    then have "\<exists>y. gradientClipped s grad i j = Inr y"
      using assms(1,2) d by (intro gc_total [of r c]) simp_all
    moreover have "At (reuseAs vt grad) i j = Inr (elems (reuseAs vt grad) ! (i * c + j))"
      using reuseAs_shaped [OF b(4) assms(2)] ij d by (intro At_shaped) simp_all
    ultimately show "\<exists>y. ?g i j (elems grad ! (i * ncols grad + j)) = Inr y" by auto
  qed
  then obtain vt' where vt': "Apply ?g grad vt = Inr vt'" "shaped r c vt'" using d by auto
  let ?mc' = "\<lparr>nrows = r, ncols = c,
               elems = map (\<lambda>v. 1 / (1 - Beta1 s ^ TimeStep s) * v) (elems mt')\<rparr>"
  let ?vc' = "\<lparr>nrows = r, ncols = c,
               elems = map (\<lambda>v. 1 / (1 - Beta2 s ^ TimeStep s) * v) (elems vt')\<rparr>"
  have mc': "Scale (1 / (1 - Beta1 s ^ TimeStep s)) mt' mc = Inr ?mc'" "shaped r c ?mc'"
    using mt'(2) b(6) by (auto simp: Scale_def shaped_def)
  have vc': "Scale (1 / (1 - Beta2 s ^ TimeStep s)) vt' vc = Inr ?vc'" "shaped r c ?vc'"
    using vt'(2) b(8) by (auto simp: Scale_def shaped_def)
  let ?h = "\<lambda>i j Mtcapij.
                 bind_res (At ?vc' i j) (\<lambda>v.
                   Inr (- StepSize s * Mtcapij / (sqrt v + Epsilon s)))"
  have "\<exists>u'. Apply ?h ?mc' u = Inr u' \<and> shaped (nrows ?mc') (ncols ?mc') u'"
  proof (rule Apply_total)
    show "ncols u = 0 \<or> (nrows u = nrows ?mc' \<and> ncols u = ncols ?mc')"
      using assms(3) by (auto simp: shaped_def)
  next
    fix i j assume ij: "i < nrows ?mc'" "j < ncols ?mc'"
    have "At ?vc' i j = Inr (elems ?vc' ! (i * c + j))"
      using vc'(2) ij by (intro At_shaped) simp_all
    then show "\<exists>y. ?h i j (elems ?mc' ! (i * ncols ?mc' + j)) = Inr y" by auto
  qed
  then obtain u' where u': "Apply ?h ?mc' u = Inr u'" "shaped r c u'" by auto
  have "update_Adam s u grad
          = Inr (s\<lparr>Mt := Some mt', Vt := Some vt', Mtcap := Some ?mc', Vtcap := Some ?vc'\<rparr>, u')"
    using mt'(1) vt'(1) mc'(1) vc'(1) u'(1)
    by (simp add: update_Adam_def b(1,3,5,7) deref_def)
  moreover have "buffers_ok r c
      (s\<lparr>Mt := Some mt', Vt := Some vt', Mtcap := Some ?mc', Vtcap := Some ?vc'\<rparr>)"
    using assms(1) mt'(2) vt'(2) mc'(2) vc'(2) by (simp add: buffers_ok_def shaped_opt_Some)
  ultimately show ?thesis using u'(2) by blast
qed

lemma variant_update_total:
  assumes "buffers_ok r c s" "shaped r c grad" "ncols u = 0 \<or> shaped r c u"
  shows "\<exists>s' u'. variant_update s eta u grad = Inr (s', u') \<and> buffers_ok r c s' \<and> shaped r c u'"
  unfolding variant_update_def
  using update_RMSProp_total [OF assms] update_Adagrad_total [OF assms]
    update_Adadelta_total [OF assms] update_Adam_total [OF assms] update_SGD_total [OF assms]
  by simp

lemma apply_momentum_total:
  assumes "buffers_ok r c s" "shaped r c u"
  shows "\<exists>u'. apply_momentum s u = Inr u' \<and> shaped r c u'"
proof (cases "0 < Momentum s")
  case False
  then show ?thesis using assms(2) by (simp add: apply_momentum_def)
next
  case True
  obtain p where p: "PrevUpdate s = Some p" "shaped r c p"
    using assms(1) by (auto simp: buffers_ok_def shaped_opt_def)
  have d: "nrows u = r" "ncols u = c" using assms(2) by (simp_all add: shaped_def)
  let ?f = "\<lambda>j oc updjo.
                    bind_res (deref (PrevUpdate s)) (\<lambda>p.
                    bind_res (At p j oc) (\<lambda>pu. Inr (Momentum s * pu + updjo)))"
  have "\<exists>u'. Apply ?f u u = Inr u' \<and> shaped (nrows u) (ncols u) u'"
  proof (rule Apply_total)
    show "ncols u = 0 \<or> (nrows u = nrows u \<and> ncols u = ncols u)" by simp
  next
    fix i j assume ij: "i < nrows u" "j < ncols u"
    have "At p i j = Inr (elems p ! (i * c + j))"
      using p(2) ij d by (intro At_shaped) simp_all
    then show "\<exists>y. ?f i j (elems u ! (i * ncols u + j)) = Inr y"
      using p(1) by (auto simp: deref_def)
  qed
  then show ?thesis using True d by (simp add: apply_momentum_def)
qed

lemma clone_prev_total:
  assumes "buffers_ok r c s" "shaped r c u"
  shows "\<exists>s'. clone_prev s u = Inr s' \<and> buffers_ok r c s'"
proof -
  obtain p where p: "PrevUpdate s = Some p"
    using assms(1) by (auto simp: buffers_ok_def shaped_opt_def)
  have "clone_prev s u = Inr (s\<lparr>PrevUpdate := Some u\<rparr>)"
    by (simp add: clone_prev_def p deref_def)
  moreover have "buffers_ok r c (s\<lparr>PrevUpdate := Some u\<rparr>)"
    using assms by (simp add: buffers_ok_def shaped_opt_Some)
  ultimately show ?thesis by blast
qed

lemma buffers_ok_cong:
  assumes "GradientClipping s' = GradientClipping s" "GtNorm s' = GtNorm s"
    "PrevUpdate s' = PrevUpdate s" "Adagrad s' = Adagrad s" "RMSProp s' = RMSProp s"
    "Adadelta s' = Adadelta s" "Adam s' = Adam s" "AdagradG s' = AdagradG s"
    "AdadeltaU s' = AdadeltaU s" "Mt s' = Mt s" "Vt s' = Vt s" "Mtcap s' = Mtcap s"
    "Vtcap s' = Vtcap s"
  shows "buffers_ok r c s' = buffers_ok r c s"
  using assms by (simp add: buffers_ok_def)

lemma GetUpdate_total:
  assumes "0 < TimeStep s \<longrightarrow> buffers_ok r c s" "shaped r c grad" "ncols u = 0 \<or> shaped r c u"
  shows "\<exists>s' u'. GetUpdate s u grad = Inr (s', u') \<and> buffers_ok r c s' \<and> shaped r c u'"
proof -
  have d: "nrows grad = r" "ncols grad = c" using assms(2) by (simp_all add: shaped_def)
  let ?s1 = "begin_step s grad"
  let ?eta = "StepSize ?s1 * 100 / (100 + real (TimeStep ?s1))"
  have b1: "buffers_ok r c ?s1" using assms(1) d by (rule begin_step_buffers)
  obtain s2 where s2: "compute_norms ?s1 grad = Inr s2" "buffers_ok r c s2"
    using compute_norms_value [OF b1 d(2)] by blast
  obtain s3 upd where s3: "variant_update s2 ?eta u grad = Inr (s3, upd)" "buffers_ok r c s3"
    "shaped r c upd"
    using variant_update_total [OF s2(2) assms(2,3)] by blast
  obtain u' where u': "apply_momentum s3 upd = Inr u'" "shaped r c u'"
    using apply_momentum_total [OF s3(2,3)] by blast
  obtain s' where s': "clone_prev s3 u' = Inr s'" "buffers_ok r c s'"
    using clone_prev_total [OF s3(2) u'(2)] by blast
  have "GetUpdate s u grad = Inr (s', u')"
    unfolding GetUpdate_Inr_iff using s2(1) s3(1) u'(1) s'(1) by blast
  then show ?thesis using s'(2) u'(2) by blast
qed

lemma Add_dense_shaped:
  assumes "shaped r c a" "shaped r c b"
  shows "\<exists>m. Add_dense a b a = Inr m \<and> shaped r c m"
  using assms by (auto simp: Add_dense_def shaped_def)

lemma UpdateParams_total:
  assumes "ready r c s" "shaped r c grad"
  shows "\<exists>s'. UpdateParams s grad = Inr s' \<and> ready r c s' \<and> TimeStep s' = TimeStep s + 1"
proof -
  have d: "nrows grad = r" "ncols grad = c" using assms(2) by (simp_all add: shaped_def)
  let ?upd0 = "case Update s of None \<Rightarrow> NewDense (nrows grad) (ncols grad) | Some u \<Rightarrow> u"
  let ?sa = "s\<lparr>Update := Some ?upd0\<rparr>"
  have u0: "shaped r c ?upd0"
    using assms(1) d by (auto simp: ready_def shaped_opt_def shaped_NewDense split: option.splits)
  have "buffers_ok r c ?sa = buffers_ok r c s" by (rule buffers_ok_cong) simp_all
  then have pre: "0 < TimeStep ?sa \<longrightarrow> buffers_ok r c ?sa"
    using assms(1) by (simp add: ready_def)
  obtain s1 upd where g: "GetUpdate ?sa ?upd0 grad = Inr (s1, upd)" "buffers_ok r c s1"
    "shaped r c upd"
    using GetUpdate_total [OF pre assms(2), of ?upd0] u0 by blast
  have fx: "same_fixed (?sa\<lparr>TimeStep := TimeStep ?sa + 1\<rparr>) s1"
    using g(1) by (rule GetUpdate_fixed)
  obtain th where th: "Theta s = Some th" "shaped r c th"
    using assms(1) by (auto simp: ready_def shaped_opt_def)
  have th1: "Theta s1 = Some th" using fx th(1) by (simp add: same_fixed_def)
  obtain th' where th': "Add_dense th upd th = Inr th'" "shaped r c th'"
    using Add_dense_shaped [OF th(2) g(3)] by blast
  let ?s' = "s1\<lparr>Update := Some upd, Theta := Some th'\<rparr>"
  have e: "UpdateParams s grad = Inr ?s'"
    using g(1) th1 th'(1) by (simp add: UpdateParams_def Let_def deref_def)
  have "buffers_ok r c ?s' = buffers_ok r c s1" by (rule buffers_ok_cong) simp_all
  then have "ready r c ?s'"
    using g(2,3) th'(2) by (simp add: ready_def shaped_opt_Some)
  moreover have "TimeStep ?s' = TimeStep s + 1" using fx by (simp add: same_fixed_def)
  ultimately show ?thesis using e by blast
qed

lemma UpdateParams_all_total:
  assumes "ready r c s" "\<forall>g \<in> set grads. shaped r c g"
  shows "\<exists>s'. UpdateParams_all s grads = Inr s' \<and> ready r c s' \<and>
           TimeStep s' = TimeStep s + length grads"
  using assms
proof (induction grads arbitrary: s)
  case Nil
  then show ?case by simp
next
  case (Cons g gs)
  have "shaped r c g" using Cons.prems(2) by simp
  then obtain s1 where s1: "UpdateParams s g = Inr s1" "ready r c s1"
    "TimeStep s1 = TimeStep s + 1"
    using UpdateParams_total [OF Cons.prems(1)] by blast
  have "\<forall>g \<in> set gs. shaped r c g" using Cons.prems(2) by simp
  then obtain s' where "UpdateParams_all s1 gs = Inr s'" "ready r c s'"
    "TimeStep s' = TimeStep s1 + length gs"
    using Cons.IH [OF s1(2)] by blast
  then show ?case using s1(1,3) by simp
qed

lemma SetTheta_ready:
  assumes "TimeStep s0 = 0" "Update s0 = None" "shaped r c theta"
  shows "ready r c (SetTheta s0 theta)"
  using assms by (simp add: ready_def SetTheta_def shaped_opt_Some)

lemma begin_step_clipping: "GradientClipping (begin_step s grad) = GradientClipping s"
  using begin_step_fixed(2) [of s grad] by (simp add: same_fixed_def)

lemma Apply_At:
  assumes "Apply fn a m = Inr r" "i < nrows a" "j < ncols a"
  shows "\<exists>y. fn i j (elems a ! (i * ncols a + j)) = Inr y \<and> At r i j = Inr y"
proof -
  have sh: "shaped (nrows a) (ncols a) r" using assms(1) by (rule Apply_shaped)
  have "fn i j (elems a ! (i * ncols a + j)) = Inr (elems r ! (i * ncols a + j))"
    using assms by (rule Apply_entry)
  moreover have "At r i j = Inr (elems r ! (i * ncols a + j))"
    using sh assms(2,3) by (rule At_shaped)
  ultimately show ?thesis by simp
qed

lemma Scale_At:
  assumes "Scale f a m = Inr r" "At a i j = Inr x" "length (elems a) = nrows a * ncols a"
  shows "At r i j = Inr (f * x)"
proof -
  have ij: "i < nrows a" "j < ncols a" "x = elems a ! (i * ncols a + j)"
    using assms(2) by (auto simp: At_def split: if_splits)
  have "i * ncols a + j < length (elems a)"
    using ij(1,2) assms(3) by (simp add: index_less)
  moreover have "r = \<lparr>nrows = nrows a, ncols = ncols a, elems = map (\<lambda>v. f * v) (elems a)\<rparr>"
    using assms(1) by (auto simp: Scale_def split: if_splits)
  ultimately show ?thesis using ij by (simp add: At_def)
qed

lemma update_Adam_Inr_iff:
  "update_Adam s u grad = Inr (s', u') \<longleftrightarrow>
     (\<exists>mt mt' vt vt' mc mc' vc vc'.
        Mt s = Some mt \<and>
        Apply (\<lambda>j oc gradjo.
                 bind_res (At (reuseAs mt grad) j oc) (\<lambda>m.
                 bind_res (gradientClipped s grad j oc) (\<lambda>gc.
                   Inr (Beta1 s * m + (1 - Beta1 s) * gc)))) grad mt = Inr mt' \<and>
        Vt s = Some vt \<and>
        Apply (\<lambda>j oc gradjo.
                 bind_res (gradientClipped s grad j oc) (\<lambda>gc.
                 bind_res (At (reuseAs vt grad) j oc) (\<lambda>v.
                   Inr (Beta2 s * v + (1 - Beta2 s) * gc * gc)))) grad vt = Inr vt' \<and>
        Mtcap s = Some mc \<and> Scale (1 / (1 - Beta1 s ^ TimeStep s)) mt' mc = Inr mc' \<and>
        Vtcap s = Some vc \<and> Scale (1 / (1 - Beta2 s ^ TimeStep s)) vt' vc = Inr vc' \<and>
        Apply (\<lambda>i j Mtcapij.
                 bind_res (At vc' i j) (\<lambda>v.
                   Inr (- StepSize s * Mtcapij / (sqrt v + Epsilon s)))) mc' u = Inr u' \<and>
        s' = s\<lparr>Mt := Some mt', Vt := Some vt', Mtcap := Some mc', Vtcap := Some vc'\<rparr>)"
  unfolding update_Adam_def bind_res_eq_Inr deref_def
  by (auto split: option.splits)

lemma update_Adam_entries:
  assumes "update_Adam s u grad = Inr (s', u')" "i < nrows grad" "j < ncols grad"
  shows "\<exists>mt vt m v g' mt' vt' mc' vc'.
           Mt s = Some mt \<and> At (reuseAs mt grad) i j = Inr m \<and>
           Vt s = Some vt \<and> At (reuseAs vt grad) i j = Inr v \<and>
           gradientClipped s grad i j = Inr g' \<and>
           Mt s' = Some mt' \<and> Vt s' = Some vt' \<and> Mtcap s' = Some mc' \<and> Vtcap s' = Some vc' \<and>
           PrevUpdate s' = PrevUpdate s \<and>
           At mt' i j = Inr (Beta1 s * m + (1 - Beta1 s) * g') \<and>
           At vt' i j = Inr (Beta2 s * v + (1 - Beta2 s) * g' * g') \<and>
           At mc' i j = Inr (1 / (1 - Beta1 s ^ TimeStep s) * (Beta1 s * m + (1 - Beta1 s) * g')) \<and>
           At vc' i j = Inr (1 / (1 - Beta2 s ^ TimeStep s) * (Beta2 s * v + (1 - Beta2 s) * g' * g')) \<and>
           nrows u' = nrows grad \<and> ncols u' = ncols grad \<and>
           At u' i j = Inr (- StepSize s
                * (1 / (1 - Beta1 s ^ TimeStep s) * (Beta1 s * m + (1 - Beta1 s) * g'))
                / (sqrt (1 / (1 - Beta2 s ^ TimeStep s) * (Beta2 s * v + (1 - Beta2 s) * g' * g'))
                   + Epsilon s))"
proof -
  from assms(1) obtain mt mt' vt vt' mc mc' vc vc' where
    a: "Mt s = Some mt"
    and b: "Apply (\<lambda>j oc gradjo.
                 bind_res (At (reuseAs mt grad) j oc) (\<lambda>m.
                 bind_res (gradientClipped s grad j oc) (\<lambda>gc.
                   Inr (Beta1 s * m + (1 - Beta1 s) * gc)))) grad mt = Inr mt'"
    and c: "Vt s = Some vt"
    and d: "Apply (\<lambda>j oc gradjo.
                 bind_res (gradientClipped s grad j oc) (\<lambda>gc.
                 bind_res (At (reuseAs vt grad) j oc) (\<lambda>v.
                   Inr (Beta2 s * v + (1 - Beta2 s) * gc * gc)))) grad vt = Inr vt'"
    and e: "Scale (1 / (1 - Beta1 s ^ TimeStep s)) mt' mc = Inr mc'"
    and f: "Scale (1 / (1 - Beta2 s ^ TimeStep s)) vt' vc = Inr vc'"
    and g: "Apply (\<lambda>i j Mtcapij.
                 bind_res (At vc' i j) (\<lambda>v.
                   Inr (- StepSize s * Mtcapij / (sqrt v + Epsilon s)))) mc' u = Inr u'"
    and h: "s' = s\<lparr>Mt := Some mt', Vt := Some vt', Mtcap := Some mc', Vtcap := Some vc'\<rparr>"
    unfolding update_Adam_Inr_iff by (elim exE conjE)
  obtain y1 where y1: "bind_res (At (reuseAs mt grad) i j) (\<lambda>m.
                 bind_res (gradientClipped s grad i j) (\<lambda>gc.
                   Inr (Beta1 s * m + (1 - Beta1 s) * gc))) = Inr y1" "At mt' i j = Inr y1"
    using Apply_At [OF b assms(2,3)] by blast
  then obtain m g' where mg: "At (reuseAs mt grad) i j = Inr m"
    "gradientClipped s grad i j = Inr g'" "y1 = Beta1 s * m + (1 - Beta1 s) * g'"
    by (auto simp: bind_res_eq_Inr)
  obtain y2 where y2: "bind_res (gradientClipped s grad i j) (\<lambda>gc.
                 bind_res (At (reuseAs vt grad) i j) (\<lambda>v.
                   Inr (Beta2 s * v + (1 - Beta2 s) * gc * gc))) = Inr y2" "At vt' i j = Inr y2"
    using Apply_At [OF d assms(2,3)] by blast
  then obtain v where v: "At (reuseAs vt grad) i j = Inr v"
    "y2 = Beta2 s * v + (1 - Beta2 s) * g' * g'"
    using mg(2) by (auto simp: bind_res_eq_Inr)
  have shm: "shaped (nrows grad) (ncols grad) mt'" using b by (rule Apply_shaped)
  have shv: "shaped (nrows grad) (ncols grad) vt'" using d by (rule Apply_shaped)
  have mc1: "At mc' i j = Inr (1 / (1 - Beta1 s ^ TimeStep s) * y1)"
    using e y1(2) shm by (intro Scale_At) (auto simp: shaped_def)
  have vc1: "At vc' i j = Inr (1 / (1 - Beta2 s ^ TimeStep s) * y2)"
    using f y2(2) shv by (intro Scale_At) (auto simp: shaped_def)
  have dm: "nrows mc' = nrows grad" "ncols mc' = ncols grad"
    using e shm by (auto simp: Scale_def shaped_def split: if_splits)
  have ij: "i < nrows mc'" "j < ncols mc'" using assms(2,3) dm by simp_all
  obtain y3 where y3: "bind_res (At vc' i j) (\<lambda>v.
                   Inr (- StepSize s * (elems mc' ! (i * ncols mc' + j)) / (sqrt v + Epsilon s)))
                   = Inr y3" "At u' i j = Inr y3"
    using Apply_At [OF g ij] by blast
  have "At mc' i j = Inr (elems mc' ! (i * ncols mc' + j))"
    using ij by (simp add: At_def)
  then have em: "elems mc' ! (i * ncols mc' + j) = 1 / (1 - Beta1 s ^ TimeStep s) * y1"
    using mc1 by simp
  have y3v: "y3 = - StepSize s * (1 / (1 - Beta1 s ^ TimeStep s) * y1)
                / (sqrt (1 / (1 - Beta2 s ^ TimeStep s) * y2) + Epsilon s)"
    using y3(1) vc1 em by (simp add: bind_res_eq_Inr)
  have shu: "shaped (nrows mc') (ncols mc') u'" using g by (rule Apply_shaped)
  have du: "nrows u' = nrows grad" "ncols u' = ncols grad"
    using shu dm by (simp_all add: shaped_def)
  have s'f: "Mt s' = Some mt'" "Vt s' = Some vt'" "Mtcap s' = Some mc'" "Vtcap s' = Some vc'"
    "PrevUpdate s' = PrevUpdate s"
    using h by simp_all
  show ?thesis
    using a c mg(1,2) v(1) s'f y1(2) y2(2) mc1 vc1 du y3(2)
    unfolding y3v mg(3) v(2) by blast
qed

lemma clone_prev_Inr:
  "clone_prev s u = Inr s' \<Longrightarrow> s' = s\<lparr>PrevUpdate := Some u\<rparr>"
  by (auto simp: clone_prev_def bind_res_eq_Inr)

lemma apply_momentum_off:
  assumes "apply_momentum s upd = Inr u'" "\<not> 0 < Momentum s"
  shows "u' = upd"
  using assms by (simp add: apply_momentum_def)

lemma apply_momentum_on:
  assumes "apply_momentum s upd = Inr u'" "At upd i j = Inr x" "0 < Momentum s"
  shows "\<exists>p pu. PrevUpdate s = Some p \<and> At p i j = Inr pu \<and>
                At u' i j = Inr (Momentum s * pu + x)"
proof -
  have ij: "i < nrows upd" "j < ncols upd" "x = elems upd ! (i * ncols upd + j)"
    using assms(2) by (auto simp: At_def split: if_splits)
  let ?f = "\<lambda>j oc updjo.
                    bind_res (deref (PrevUpdate s)) (\<lambda>p.
                    bind_res (At p j oc) (\<lambda>pu. Inr (Momentum s * pu + updjo)))"
  have "Apply ?f upd upd = Inr u'" using assms(1,3) by (simp add: apply_momentum_def)
  then obtain y where y: "?f i j (elems upd ! (i * ncols upd + j)) = Inr y" "At u' i j = Inr y"
    using Apply_At [OF _ ij(1,2)] by blast
  then obtain p pu where "PrevUpdate s = Some p" "At p i j = Inr pu"
    "y = Momentum s * pu + x"
    using ij(3) by (auto simp: bind_res_eq_Inr deref_def split: option.splits)
  then show ?thesis using y(2) by auto
qed


section \<open>Facts about the training loop\<close>

lemma go_int_of_int: "go_int (real_of_int k) = k"
  by (simp add: go_int_def)

lemma clamp_of_int:
  "max 1 (min (real n) (real_of_int m)) = real_of_int (max 1 (min (int n) m))"
  by (simp add: max_def min_def)

lemma supplied_miniBatchSize:
  assumes "0 < m"
  shows "miniBatchSize_of m n = max 1 (min (int n) m)"
  using assms by (simp add: miniBatchSize_of_def Let_def clamp_of_int go_int_of_int del: of_int_max of_int_min)

lemma sqrt_le_self: "1 \<le> x \<Longrightarrow> sqrt x \<le> x"
proof -
  assume a: "1 \<le> x"
  then have "x \<le> x * x" by (simp add: mult_left_le)
  then have "sqrt x \<le> sqrt (x * x)" by (rule real_sqrt_le_mono)
  then show ?thesis using a by simp
qed

lemma default_miniBatchSize:
  assumes "m \<le> 0" "0 < n"
  shows "miniBatchSize_of m n = \<lfloor>max 1 (min 100 (sqrt (real n)))\<rfloor>"
proof -
  let ?c = "max 1 (min 100 (sqrt (real n)))"
  have c1: "1 \<le> ?c" by simp
  have n1: "1 \<le> real n" using assms(2) by simp
  have "?c \<le> real n" using sqrt_le_self [OF n1] n1 by (simp add: max_def min_def)
  then have fl: "\<lfloor>?c\<rfloor> \<le> int n" by (simp add: floor_le_iff)
  have f1: "1 \<le> \<lfloor>?c\<rfloor>" using c1 by (simp add: le_floor_iff)
  have g: "go_int ?c = \<lfloor>?c\<rfloor>" using c1 by (simp add: go_int_def)
  have "miniBatchSize_of m n = go_int (max 1 (min (real n) (real_of_int \<lfloor>?c\<rfloor>)))"
    using assms(1) g by (simp add: miniBatchSize_of_def Let_def)
  also have "\<dots> = max 1 (min (int n) \<lfloor>?c\<rfloor>)"
    by (simp only: clamp_of_int go_int_of_int)
  also have "\<dots> = \<lfloor>?c\<rfloor>" using fl f1 by simp
  finally show ?thesis .
qed

lemma epochs_of_value:
  "0 < n \<Longrightarrow> epochs_of e n = Inr (if e \<le> 0 then 1000000 div int n else e)"
  by (simp add: epochs_of_def)

lemma miniBatchSize_of_range:
  assumes "0 < n"
  shows "1 \<le> miniBatchSize_of m n" "miniBatchSize_of m n \<le> int n"
proof -
  have "miniBatchSize_of m n
          = go_int (real_of_int (max 1 (min (int n)
              (if 0 < m then m else go_int (max 1 (min 100 (sqrt (real n))))))))"
    by (simp only: miniBatchSize_of_def Let_def clamp_of_int)
  then have "miniBatchSize_of m n
          = max 1 (min (int n)
              (if 0 < m then m else go_int (max 1 (min 100 (sqrt (real n))))))"
    by (simp only: go_int_of_int)
  then show "1 \<le> miniBatchSize_of m n" "miniBatchSize_of m n \<le> int n"
    using assms by simp_all
qed

lemma miniBatchSize_of_value:
  assumes "0 < n"
  shows "miniBatchSize_of m n
           = (if m \<le> 0 then \<lfloor>max 1 (min 100 (sqrt (real n)))\<rfloor> else max 1 (min (int n) m))"
  using default_miniBatchSize [OF _ assms, of m] supplied_miniBatchSize [of m n]
  by (cases "m \<le> 0") simp_all

lemma shuffle_ok:
  assumes "collaborators_ok env n f c" "shaped n f X" "shaped n c Y"
    "MatShuffle env g X Y = (X', Y', g')"
  shows "shaped n f X'" "shaped n c Y'"
proof -
  have "shaped n f (fst (MatShuffle env g X Y)) \<and>
        shaped n c (fst (snd (MatShuffle env g X Y)))"
  proof -
    have "\<forall>g X Y. shaped n f X \<and> shaped n c Y \<longrightarrow>
         shaped n f (fst (MatShuffle env g X Y)) \<and>
         shaped n c (fst (snd (MatShuffle env g X Y)))"
      using assms(1) unfolding collaborators_ok_def by (rule conjunct1)
    then show ?thesis using assms(2,3) by simp
  qed
  then show "shaped n f X'" "shaped n c Y'" using assms(4) by simp_all
qed

lemma loss_ok:
  assumes "collaborators_ok env n f c" "shaped f c th" "Loss env Y X th a l k = (Jv, Yp, gr)"
  shows "shaped f c gr"
proof -
  have "shaped f c (snd (snd (Loss env Y X th a l k)))"
  proof -
    have "\<forall>Y X th a l k. shaped f c th \<longrightarrow> shaped f c (snd (snd (Loss env Y X th a l k)))"
      using assms(1) unfolding collaborators_ok_def by (rule conjunct2)
    then show ?thesis using assms(2) by simp
  qed
  then show ?thesis using assms(3) by simp
qed

lemma Slice_rows_ok:
  assumes "shaped n c m" "0 < c" "i < k" "k \<le> n"
  shows "\<exists>b. Slice_rows m i k = Inr b"
  using assms by (auto simp: Slice_rows_def shaped_def)

lemma miniBatch_step_total:
  assumes "collaborators_ok env n f c" "shaped n f X" "shaped n c Y" "0 < f" "0 < c"
    "ready f c s" "0 < bs" "mb * bs < n"
  shows "\<exists>s'. miniBatch_step env opts X Y n bs mb s = Inr s' \<and> ready f c s'"
proof -
  let ?start = "mb * bs"
  let ?end = "if n < ?start + bs then n else ?start + bs"
  have r: "?start < ?end" "?end \<le> n" using assms(7,8) by auto
  obtain Yb where Yb: "Slice_rows Y ?start ?end = Inr Yb"
    using Slice_rows_ok [OF assms(3,5) r] by blast
  obtain Xb where Xb: "Slice_rows X ?start ?end = Inr Xb"
    using Slice_rows_ok [OF assms(2,4) r] by blast
  obtain th where th: "Theta s = Some th" "shaped f c th"
    using assms(6) by (auto simp: ready_def shaped_opt_def)
  obtain Jm Yp gr where L: "Loss env Yb Xb th (Alpha opts) (L1Ratio opts) n = (Jm, Yp, gr)"
    by (cases "Loss env Yb Xb th (Alpha opts) (L1Ratio opts) n") auto
  have "shaped f c gr"
    using assms(1) th(2) L by (rule loss_ok)
  then obtain s' where s': "UpdateParams s gr = Inr s'" "ready f c s'"
    using UpdateParams_total [OF assms(6)] by blast
  have "miniBatch_step env opts X Y n bs mb s = Inr s'"
    using Yb Xb th(1) L s'(1) by (simp add: miniBatch_step_def Let_def deref_def)
  then show ?thesis using s'(2) by blast
qed

lemma miniBatches_total:
  assumes "collaborators_ok env n f c" "shaped n f X" "shaped n c Y" "0 < f" "0 < c"
    "ready f c s"
  shows "\<exists>s'. miniBatches env opts X Y n bs mb s = Inr s' \<and> ready f c s'"
  using assms(6)
proof (induction "n - mb * bs" arbitrary: mb s rule: less_induct)
  case less
  show ?case
  proof (cases "0 < bs \<and> mb * bs < n")
    case False
    then show ?thesis using less.prems by (subst miniBatches.simps) auto
  next
    case True
    then obtain s1 where s1: "miniBatch_step env opts X Y n bs mb s = Inr s1" "ready f c s1"
      using miniBatch_step_total [OF assms(1-5) less.prems] by blast
    have "(mb + 1) * bs = mb * bs + bs" by (simp add: algebra_simps)
    then have "n - (mb + 1) * bs < n - mb * bs" using True by linarith
    then obtain s' where "miniBatches env opts X Y n bs (mb + 1) s1 = Inr s'" "ready f c s'"
      using less.hyps [OF _ s1(2)] by blast
    then show ?thesis using True s1(1) by (subst miniBatches.simps) auto
  qed
qed

lemma go_copy_same_length: "length dst = length src \<Longrightarrow> go_copy dst src = src"
  by (simp add: go_copy_def)

lemma epoch_body_total:
  assumes "collaborators_ok env n f c" "0 < f" "0 < c" "loop_inv n f c st"
  shows "\<exists>st' Jf th. epoch_body env opts n bs st = Inr st' \<and> loop_inv n f c st' \<and>
           evaluated env opts n st' \<and>
           Jcur st' = Fin Jf \<and> Theta (solver st') = Some th \<and>
           JBest st' = (if xless Jf (JBest st) then Fin Jf else JBest st) \<and>
           thetaSliceBest st' = (if xless Jf (JBest st) then elems th else thetaSliceBest st)"
proof -
  obtain X' Y' g' where sh: "MatShuffle env (rng st) (Xs st) (Ys st) = (X', Y', g')"
    by (cases "MatShuffle env (rng st) (Xs st) (Ys st)") auto
  have inv: "shaped n f (Xs st)" "shaped n c (Ys st)" "ready f c (solver st)"
    "length (thetaSliceBest st) = f * c"
    using assms(4) by (simp_all add: loop_inv_def)
  have XY: "shaped n f X'" "shaped n c Y'"
    using shuffle_ok [OF assms(1) inv(1,2) sh] by simp_all
  obtain s' where s': "miniBatches env opts X' Y' n bs 0 (solver st) = Inr s'" "ready f c s'"
    using miniBatches_total [OF assms(1) XY assms(2,3) inv(3)] by blast
  obtain th where th: "Theta s' = Some th" "shaped f c th"
    using s'(2) by (auto simp: ready_def shaped_opt_def)
  obtain Jf Yp gr where L: "Loss env Y' X' th (Alpha opts) (L1Ratio opts) n = (Jf, Yp, gr)"
    by (cases "Loss env Y' X' th (Alpha opts) (L1Ratio opts) n") auto
  let ?best = "xless Jf (JBest st)"
  let ?rm = "sqrt (MeanSquaredError env Y' Yp)"
  let ?st' = "\<lparr>rng = g', Xs = X', Ys = Y', solver = s', Jcur = Fin Jf,
               JBest = (if ?best then Fin Jf else JBest st),
               thetaSliceBest = (if ?best then go_copy (thetaSliceBest st) (elems th)
                                 else thetaSliceBest st),
               rmse = Fin ?rm, converged = (sqrt ?rm < Tol opts)\<rparr>"
  have len: "length (elems th) = f * c" using th(2) by (simp add: shaped_def)
  have cp: "go_copy (thetaSliceBest st) (elems th) = elems th"
    using inv(4) len by (simp add: go_copy_same_length)
  have e: "epoch_body env opts n bs st = Inr ?st'"
    using sh s'(1) th(1) L by (simp add: epoch_body_def deref_def Let_def)
  have i: "loop_inv n f c ?st'"
    using XY s'(2) inv(4) len cp by (simp add: loop_inv_def)
  have ev: "evaluated env opts n ?st'"
    using th(1) L by (simp add: evaluated_def)
  show ?thesis
    using e i ev th(1) cp by (intro exI [of _ ?st'] exI [of _ Jf] exI [of _ th]) simp
qed

lemma tracking_step:
  assumes "tracking seen jb tb" "Jcur st' = Fin Jf" "Theta (solver st') = Some th"
  shows "tracking (seen @ [st']) (if xless Jf jb then Fin Jf else jb)
           (if xless Jf jb then elems th else tb)"
proof (cases "seen = []")
  case True
  then have "jb = PosInf" using assms(1) by (simp add: tracking_def)
  then show ?thesis
    using True assms(2,3) by (simp add: tracking_def best_snapshot_def)
next
  case False
  then obtain k j th0 where b: "k < length seen" "jb = Fin j" "Jcur (seen ! k) = Fin j"
    "Theta (solver (seen ! k)) = Some th0" "tb = elems th0"
    "\<forall>i < length seen. \<exists>ji. Jcur (seen ! i) = Fin ji \<and> j \<le> ji"
    "\<forall>i < k. \<exists>ji. Jcur (seen ! i) = Fin ji \<and> j < ji"
    using assms(1) unfolding tracking_def best_snapshot_def by auto
  show ?thesis
  proof (cases "Jf < j")
    case True
    have all: "\<forall>i < length (seen @ [st']). \<exists>ji. Jcur ((seen @ [st']) ! i) = Fin ji \<and> Jf \<le> ji"
    proof (intro allI impI)
      fix i assume "i < length (seen @ [st'])"
      then consider "i < length seen" | "i = length seen" by fastforce
      then show "\<exists>ji. Jcur ((seen @ [st']) ! i) = Fin ji \<and> Jf \<le> ji"
      proof cases
        case 1
        then obtain ji where "Jcur (seen ! i) = Fin ji" "j \<le> ji" using b(6) by blast
        then show ?thesis using 1 True by (simp add: nth_append)
      next
        case 2
        then show ?thesis using assms(2) by (simp add: nth_append)
      qed
    qed
    have before: "\<forall>i < length seen. \<exists>ji. Jcur ((seen @ [st']) ! i) = Fin ji \<and> Jf < ji"
    proof (intro allI impI)
      fix i assume 1: "i < length seen"
      then obtain ji where "Jcur (seen ! i) = Fin ji" "j \<le> ji" using b(6) by blast
      then show "\<exists>ji. Jcur ((seen @ [st']) ! i) = Fin ji \<and> Jf < ji"
        using 1 True by (simp add: nth_append)
    qed
    have "best_snapshot (seen @ [st']) (Fin Jf) (elems th)"
      unfolding best_snapshot_def
      using all before assms(2,3)
      by (intro exI [of _ "length seen"] exI [of _ Jf] exI [of _ th]) simp
    then show ?thesis using True b(2) by (simp add: tracking_def)
  next
    case F: False
    have all: "\<forall>i < length (seen @ [st']). \<exists>ji. Jcur ((seen @ [st']) ! i) = Fin ji \<and> j \<le> ji"
    proof (intro allI impI)
      fix i assume "i < length (seen @ [st'])"
      then consider "i < length seen" | "i = length seen" by fastforce
      then show "\<exists>ji. Jcur ((seen @ [st']) ! i) = Fin ji \<and> j \<le> ji"
      proof cases
        case 1
        then show ?thesis using b(6) by (simp add: nth_append)
      next
        case 2
        then show ?thesis using assms(2) F by (simp add: nth_append)
      qed
    qed
    have before: "\<forall>i < k. \<exists>ji. Jcur ((seen @ [st']) ! i) = Fin ji \<and> j < ji"
      using b(1,7) by (simp add: nth_append)
    have "best_snapshot (seen @ [st']) (Fin j) (elems th0)"
      unfolding best_snapshot_def
      using all before b(1,3,4)
      by (intro exI [of _ k] exI [of _ j] exI [of _ th0]) (simp add: nth_append)
    then show ?thesis using F b(2,5) by (simp add: tracking_def)
  qed
qed

lemma run_facts_Nil:
  assumes "\<not> (e \<le> budget \<and> \<not> converged st)" "tracking seen (JBest st) (thetaSliceBest st)"
  shows "run_facts env opts n f c budget e st seen [] e st"
  using assms by (simp add: run_facts_def) linarith

lemma run_facts_Cons:
  assumes "e \<le> budget" "\<not> converged st" "evaluated env opts n st'" "loop_inv n f c st'"
    "run_facts env opts n f c budget (e + 1) st' (seen @ [st']) tr ep stf"
  shows "run_facts env opts n f c budget e st seen (st' # tr) ep stf"
proof -
  have a: "ep = e + 1 + int (length tr)" "stf = last (st' # tr)"
    "\<forall>s \<in> set tr. evaluated env opts n s \<and> loop_inv n f c s"
    "\<forall>s \<in> set (butlast (st' # tr)). \<not> converged s"
    "converged stf \<or> budget < ep"
    "e + 1 \<le> budget + 1 \<longrightarrow> ep \<le> budget + 1"
    "tracking ((seen @ [st']) @ tr) (JBest stf) (thetaSliceBest stf)"
    using assms(5) unfolding run_facts_def by blast+
  have 1: "ep = e + int (length (st' # tr))" using a(1) by simp
  have 2: "stf = last (st # st' # tr)" using a(2) by simp
  have 3: "\<forall>s \<in> set (st' # tr). evaluated env opts n s \<and> loop_inv n f c s"
    using a(3) assms(3,4) by simp
  have 4: "\<forall>s \<in> set (butlast (st # st' # tr)). \<not> converged s"
    using a(4) assms(2) by simp
  have 6: "e \<le> budget + 1 \<longrightarrow> ep \<le> budget + 1" using a(6) assms(1) by simp
  have 7: "tracking (seen @ st' # tr) (JBest stf) (thetaSliceBest stf)" using a(7) by simp
  show ?thesis unfolding run_facts_def using 1 2 3 4 a(5) 6 7 by (intro conjI)
qed

lemma epochs_run:
  assumes "collaborators_ok env n f c" "0 < f" "0 < c"
    and "loop_inv n f c st" "tracking seen (JBest st) (thetaSliceBest st)"
  shows "\<exists>ep stf. epochs_loop env opts n bs budget e st = Inr (ep, stf) \<and>
           run_facts env opts n f c budget e st seen
             (epochs_trace env opts n bs budget e st) ep stf"
  using assms(4,5)
proof (induction "nat (budget + 1 - e)" arbitrary: e st seen rule: less_induct)
  case less
  show ?case
  proof (cases "e \<le> budget \<and> \<not> converged st")
    case False
    have l: "epochs_loop env opts n bs budget e st = Inr (e, st)"
      by (subst epochs_loop.simps) (rule if_not_P [OF False])
    have t: "epochs_trace env opts n bs budget e st = []"
      by (subst epochs_trace.simps) (rule if_not_P [OF False])
    have "run_facts env opts n f c budget e st seen [] e st"
      using False less.prems(2) by (rule run_facts_Nil)
    then show ?thesis unfolding l t by simp
  next
    case True
    then have T: "e \<le> budget" "\<not> converged st" by simp_all
    have "\<exists>st' Jf th. epoch_body env opts n bs st = Inr st' \<and> loop_inv n f c st' \<and>
           evaluated env opts n st' \<and>
           Jcur st' = Fin Jf \<and> Theta (solver st') = Some th \<and>
           JBest st' = (if xless Jf (JBest st) then Fin Jf else JBest st) \<and>
           thetaSliceBest st' = (if xless Jf (JBest st) then elems th else thetaSliceBest st)"
      using assms(1,2,3) less.prems(1) by (rule epoch_body_total)
    then obtain st' Jf th where b: "epoch_body env opts n bs st = Inr st'" "loop_inv n f c st'"
      "evaluated env opts n st'" "Jcur st' = Fin Jf" "Theta (solver st') = Some th"
      "JBest st' = (if xless Jf (JBest st) then Fin Jf else JBest st)"
      "thetaSliceBest st' = (if xless Jf (JBest st) then elems th else thetaSliceBest st)"
      by (elim exE conjE)
    have tr: "tracking (seen @ [st']) (JBest st') (thetaSliceBest st')"
      using tracking_step [OF less.prems(2) b(4,5)] unfolding b(6,7) .
    have m: "nat (budget + 1 - (e + 1)) < nat (budget + 1 - e)" using T(1) by simp
    let ?tr' = "epochs_trace env opts n bs budget (e + 1) st'"
    have "\<exists>ep stf. epochs_loop env opts n bs budget (e + 1) st' = Inr (ep, stf) \<and>
           run_facts env opts n f c budget (e + 1) st' (seen @ [st']) ?tr' ep stf"
      using m b(2) tr by (rule less.hyps)
    then obtain ep stf where r: "epochs_loop env opts n bs budget (e + 1) st' = Inr (ep, stf)"
      "run_facts env opts n f c budget (e + 1) st' (seen @ [st']) ?tr' ep stf"
      by (elim exE conjE)
    have l: "epochs_loop env opts n bs budget e st = Inr (ep, stf)"
      using T b(1) r(1) by (subst epochs_loop.simps) simp
    have t: "epochs_trace env opts n bs budget e st = st' # ?tr'"
      using T b(1) by (subst epochs_trace.simps) simp
    have "run_facts env opts n f c budget e st seen (st' # ?tr') ep stf"
      using T b(3,2) r(2) by (rule run_facts_Cons)
    then show ?thesis unfolding l t by simp
  qed
qed

lemma LinFit_start_inv:
  assumes "shaped n f X" "shaped n c Y" "TimeStep s0 = 0" "Update s0 = None"
  shows "loop_inv n f c (LinFit_start env g s0 X Y)"
    and "tracking [] (JBest (LinFit_start env g s0 X Y))
           (thetaSliceBest (LinFit_start env g s0 X Y))"
    and "\<not> converged (LinFit_start env g s0 X Y)"
proof -
  have d: "ncols X = f" "ncols Y = c" using assms(1,2) by (simp_all add: shaped_def)
  let ?T0 = "\<lparr>nrows = f, ncols = c,
              elems = map (\<lambda>k. ThetaInit env (k div c) (k mod c)) [0 ..< f * c]\<rparr>"
  have "shaped f c ?T0" by (simp add: shaped_def)
  then have "ready f c (SetTheta s0 ?T0)" using assms(3,4) by (intro SetTheta_ready)
  then show "loop_inv n f c (LinFit_start env g s0 X Y)"
    using assms(1,2) d by (simp add: loop_inv_def LinFit_start_def Let_def)
  show "tracking [] (JBest (LinFit_start env g s0 X Y))
           (thetaSliceBest (LinFit_start env g s0 X Y))"
    by (simp add: tracking_def LinFit_start_def Let_def)
  show "\<not> converged (LinFit_start env g s0 X Y)"
    by (simp add: LinFit_start_def Let_def)
qed

lemma batches_left:
  fixes n bs mb :: nat
  assumes "0 < bs"
  shows "mb * bs < n \<Longrightarrow> (n + bs - 1) div bs - mb = Suc ((n + bs - 1) div bs - (mb + 1))"
    and "\<not> mb * bs < n \<Longrightarrow> (n + bs - 1) div bs - mb = 0"
proof -
  assume a: "mb * bs < n"
  have "(mb + 1) * bs \<le> n + bs - 1" using a by (simp add: algebra_simps)
  then have "mb + 1 \<le> (n + bs - 1) div bs"
    using assms by (simp add: less_eq_div_iff_mult_less_eq)
  then show "(n + bs - 1) div bs - mb = Suc ((n + bs - 1) div bs - (mb + 1))" by simp
next
  assume a: "\<not> mb * bs < n"
  then have "n + bs - 1 < (mb + 1) * bs" using assms by (simp add: algebra_simps)
  then have "(n + bs - 1) div bs < mb + 1"
    using assms by (simp add: div_less_iff_less_mult)
  then show "(n + bs - 1) div bs - mb = 0" by simp
qed

lemma miniBatch_step_count:
  assumes "collaborators_ok env n f c" "shaped n f X" "shaped n c Y" "0 < f" "0 < c"
    "ready f c s" "0 < bs" "mb * bs < n"
  shows "\<exists>s'. miniBatch_step env opts X Y n bs mb s = Inr s' \<and> ready f c s' \<and>
           TimeStep s' = TimeStep s + 1"
proof -
  let ?start = "mb * bs"
  let ?end = "if n < ?start + bs then n else ?start + bs"
  have r: "?start < ?end" "?end \<le> n" using assms(7,8) by auto
  obtain Yb where Yb: "Slice_rows Y ?start ?end = Inr Yb"
    using Slice_rows_ok [OF assms(3,5) r] by blast
  obtain Xb where Xb: "Slice_rows X ?start ?end = Inr Xb"
    using Slice_rows_ok [OF assms(2,4) r] by blast
  obtain th where th: "Theta s = Some th" "shaped f c th"
    using assms(6) by (auto simp: ready_def shaped_opt_def)
  obtain Jm Yp gr where L: "Loss env Yb Xb th (Alpha opts) (L1Ratio opts) n = (Jm, Yp, gr)"
    by (cases "Loss env Yb Xb th (Alpha opts) (L1Ratio opts) n") auto
  have "shaped f c gr"
    using assms(1) th(2) L by (rule loss_ok)
  then obtain s' where s': "UpdateParams s gr = Inr s'" "ready f c s'"
    "TimeStep s' = TimeStep s + 1"
    using UpdateParams_total [OF assms(6)] by blast
  have "miniBatch_step env opts X Y n bs mb s = Inr s'"
    using Yb Xb th(1) L s'(1) by (simp add: miniBatch_step_def Let_def deref_def)
  then show ?thesis using s'(2,3) by blast
qed

lemma miniBatches_count:
  assumes "collaborators_ok env n f c" "shaped n f X" "shaped n c Y" "0 < f" "0 < c"
    "ready f c s" "0 < bs"
  shows "\<exists>s'. miniBatches env opts X Y n bs mb s = Inr s' \<and> ready f c s' \<and>
           TimeStep s' = TimeStep s + ((n + bs - 1) div bs - mb)"
  using assms(6)
proof (induction "n - mb * bs" arbitrary: mb s rule: less_induct)
  case less
  show ?case
  proof (cases "mb * bs < n")
    case False
    have "miniBatches env opts X Y n bs mb s = Inr s"
      using False by (subst miniBatches.simps) simp
    then show ?thesis using less.prems batches_left(2) [OF assms(7) False] by simp
  next
    case True
    then obtain s1 where s1: "miniBatch_step env opts X Y n bs mb s = Inr s1" "ready f c s1"
      "TimeStep s1 = TimeStep s + 1"
      using miniBatch_step_count [OF assms(1-5) less.prems assms(7)] by blast
    have "(mb + 1) * bs = mb * bs + bs" by (simp add: algebra_simps)
    then have "n - (mb + 1) * bs < n - mb * bs" using True assms(7) by linarith
    then obtain s' where s': "miniBatches env opts X Y n bs (mb + 1) s1 = Inr s'" "ready f c s'"
      "TimeStep s' = TimeStep s1 + ((n + bs - 1) div bs - (mb + 1))"
      using less.hyps [OF _ s1(2)] by blast
    have "miniBatches env opts X Y n bs mb s = Inr s'"
      using True assms(7) s1(1) s'(1) by (subst miniBatches.simps) simp
    then show ?thesis
      using s'(2,3) s1(3) batches_left(1) [OF assms(7) True] by simp
  qed
qed

lemma epoch_body_count:
  assumes "collaborators_ok env n f c" "0 < f" "0 < c" "loop_inv n f c st" "0 < bs"
  shows "\<exists>st'. epoch_body env opts n bs st = Inr st' \<and> loop_inv n f c st' \<and>
           TimeStep (solver st') = TimeStep (solver st) + (n + bs - 1) div bs"
proof -
  obtain X' Y' g' where sh: "MatShuffle env (rng st) (Xs st) (Ys st) = (X', Y', g')"
    by (cases "MatShuffle env (rng st) (Xs st) (Ys st)") auto
  have inv: "shaped n f (Xs st)" "shaped n c (Ys st)" "ready f c (solver st)"
    using assms(4) by (simp_all add: loop_inv_def)
  have XY: "shaped n f X'" "shaped n c Y'"
    using shuffle_ok [OF assms(1) inv(1,2) sh] by simp_all
  obtain s' where s': "miniBatches env opts X' Y' n bs 0 (solver st) = Inr s'" "ready f c s'"
    "TimeStep s' = TimeStep (solver st) + ((n + bs - 1) div bs - 0)"
    using miniBatches_count [OF assms(1) XY assms(2,3) inv(3) assms(5), of opts 0] by blast
  obtain st' where st': "epoch_body env opts n bs st = Inr st'" "loop_inv n f c st'"
    using epoch_body_total [OF assms(1-4), of opts bs] by blast
  obtain th where th: "Theta s' = Some th"
    using s'(2) by (auto simp: ready_def shaped_opt_def)
  obtain Jf Yp gr where L: "Loss env Y' X' th (Alpha opts) (L1Ratio opts) n = (Jf, Yp, gr)"
    by (cases "Loss env Y' X' th (Alpha opts) (L1Ratio opts) n") auto
  have "solver st' = s'"
    using st'(1) sh s'(1) th L by (auto simp: epoch_body_def deref_def Let_def)
  then show ?thesis using st' s'(3) by simp
qed

lemma epochs_trace_count:
  assumes "collaborators_ok env n f c" "0 < f" "0 < c" "0 < bs"
    and "loop_inv n f c st"
  shows "\<forall>k < length (epochs_trace env opts n bs budget e st).
           TimeStep (solver (epochs_trace env opts n bs budget e st ! k))
             = TimeStep (solver st) + (k + 1) * ((n + bs - 1) div bs)"
  using assms(5)
proof (induction "nat (budget + 1 - e)" arbitrary: e st rule: less_induct)
  case less
  show ?case
  proof (cases "e \<le> budget \<and> \<not> converged st")
    case False
    have t: "epochs_trace env opts n bs budget e st = []"
      by (subst epochs_trace.simps) (rule if_not_P [OF False])
    show ?thesis unfolding t by simp
  next
    case True
    then have T: "e \<le> budget" "\<not> converged st" by simp_all
    obtain st' where b: "epoch_body env opts n bs st = Inr st'" "loop_inv n f c st'"
      "TimeStep (solver st') = TimeStep (solver st) + (n + bs - 1) div bs"
      using epoch_body_count [OF assms(1-3) less.prems assms(4), of opts] by blast
    let ?tr' = "epochs_trace env opts n bs budget (e + 1) st'"
    have m: "nat (budget + 1 - (e + 1)) < nat (budget + 1 - e)" using T(1) by simp
    have ih: "\<forall>k < length ?tr'.
           TimeStep (solver (?tr' ! k)) = TimeStep (solver st') + (k + 1) * ((n + bs - 1) div bs)"
      using m b(2) by (rule less.hyps)
    have t: "epochs_trace env opts n bs budget e st = st' # ?tr'"
      using T b(1) by (subst epochs_trace.simps) simp
    show ?thesis
    proof (intro allI impI)
      fix k assume k: "k < length (epochs_trace env opts n bs budget e st)"
      show "TimeStep (solver (epochs_trace env opts n bs budget e st ! k))
             = TimeStep (solver st) + (k + 1) * ((n + bs - 1) div bs)"
      proof (cases k)
        case 0
        then show ?thesis using b(3) by (simp add: t)
      next
        case (Suc k')
        then have "k' < length ?tr'" using k by (simp add: t)
        then have "TimeStep (solver (?tr' ! k'))
                     = TimeStep (solver st') + (k' + 1) * ((n + bs - 1) div bs)"
          using ih by simp
        then show ?thesis using Suc b(3) by (simp add: t algebra_simps)
      qed
    qed
  qed
qed

lemma LinFit_run0:
  assumes "shaped n f X" "shaped n c Y" "0 < f" "0 < c"
    and "TimeStep s0 = 0" "Update s0 = None"
    and "collaborators_ok env n f c"
    and "epochs_of (Epochs opts) n = Inr budget"
  shows "\<exists>res stf. LinFit env g s0 X Y opts = Inr res \<and>
           run_facts env opts n f c budget 1 (LinFit_start env g s0 X Y) []
             (LinFit_trace env g s0 X Y opts) (Epoch res) stf \<and>
           Converged res = converged stf \<and> RMSE res = rmse stf \<and> J res = JBest stf \<and>
           ResTheta res = \<lparr>nrows = f, ncols = c, elems = thetaSliceBest stf\<rparr>"
proof -
  have d: "nrows X = n" "ncols X = f" "ncols Y = c"
    using assms(1,2) by (simp_all add: shaped_def)
  let ?st0 = "LinFit_start env g s0 X Y"
  let ?bs = "nat (miniBatchSize_of (MiniBatchSize opts) n)"
  let ?tr = "epochs_trace env opts n ?bs budget 1 ?st0"
  have i: "loop_inv n f c ?st0" "tracking [] (JBest ?st0) (thetaSliceBest ?st0)"
    by (rule LinFit_start_inv [OF assms(1,2,5,6)])+
  have "\<exists>ep stf. epochs_loop env opts n ?bs budget 1 ?st0 = Inr (ep, stf) \<and>
           run_facts env opts n f c budget 1 ?st0 [] ?tr ep stf"
    using assms(7,3,4) i(1,2) by (rule epochs_run)
  then obtain ep stf where r: "epochs_loop env opts n ?bs budget 1 ?st0 = Inr (ep, stf)"
    "run_facts env opts n f c budget 1 ?st0 [] ?tr ep stf"
    by (elim exE conjE)
  have tr: "LinFit_trace env g s0 X Y opts = ?tr"
    using assms(8) d by (simp add: LinFit_trace_def)
  let ?res = "\<lparr>Converged = converged stf, RMSE = rmse stf, J = JBest stf, Epoch = ep,
               ResTheta = \<lparr>nrows = f, ncols = c, elems = thetaSliceBest stf\<rparr>\<rparr>"
  have e: "LinFit env g s0 X Y opts = Inr ?res"
    using assms(8) d r(1) by (simp add: LinFit_def Let_def)
  show ?thesis
    using e r(2) unfolding tr
    by (intro exI [of _ ?res] exI [of _ stf]) simp
qed

lemma LinFit_run1:
  assumes "shaped n f X" "shaped n c Y" "0 < f" "0 < c"
    and "TimeStep s0 = 0" "Update s0 = None"
    and "collaborators_ok env n f c"
    and "epochs_of (Epochs opts) n = Inr budget" "1 \<le> budget"
  shows "\<exists>res stf. LinFit env g s0 X Y opts = Inr res \<and>
           run_facts env opts n f c budget 1 (LinFit_start env g s0 X Y) []
             (LinFit_trace env g s0 X Y opts) (Epoch res) stf \<and>
           LinFit_trace env g s0 X Y opts \<noteq> [] \<and>
           Converged res = converged stf \<and> RMSE res = rmse stf \<and> J res = JBest stf \<and>
           ResTheta res = \<lparr>nrows = f, ncols = c, elems = thetaSliceBest stf\<rparr>"
proof -
  let ?st0 = "LinFit_start env g s0 X Y"
  let ?tr = "LinFit_trace env g s0 X Y opts"
  obtain res stf where r: "LinFit env g s0 X Y opts = Inr res"
    "run_facts env opts n f c budget 1 ?st0 [] ?tr (Epoch res) stf"
    "Converged res = converged stf" "RMSE res = rmse stf" "J res = JBest stf"
    "ResTheta res = \<lparr>nrows = f, ncols = c, elems = thetaSliceBest stf\<rparr>"
    using LinFit_run0 [OF assms(1-8)] by blast
  have nc: "\<not> converged ?st0" by (rule LinFit_start_inv(3) [OF assms(1,2,5,6)])
  have ne: "?tr \<noteq> []"
  proof
    assume "?tr = []"
    then have "run_facts env opts n f c budget 1 ?st0 [] [] (Epoch res) stf"
      using r(2) by (simp only:)
    then have "stf = ?st0" "converged stf \<or> budget < Epoch res" "Epoch res = 1"
      by (auto simp add: run_facts_def)
    then show False using nc assms(9) by simp
  qed
  show ?thesis using r ne by blast
qed

text \<open>The definitions a concrete run of \<open>LinFit\<close> unfolds.\<close>

lemmas linfit_eval =
  LinFit_def LinFit_start_def LinFit_trace_def epochs_of_def miniBatchSize_of_def go_int_def
  epochs_loop.simps epochs_trace.simps epoch_body_def miniBatches.simps miniBatch_step_def
  Slice_rows_def go_copy_def UpdateParams_def Add_dense_def
  GetUpdate_def begin_step_def zeroSGDOptimizer_def first_call_alloc_def
  NewDense_def Let_def compute_norms_def variant_update_def Apply_def Scale_def
  gradientClipped_def At_def apply_momentum_def clone_prev_def deref_def SetTheta_def reuseAs_def
  grad_one_def one_by_one_def

lemma sqrt_sixteenth [simp]: "sqrt (1 / 16) = 1 / 4"
  by (rule real_sqrt_unique) (simp_all add: power2_eq_square)

lemma sqrt_quarter [simp]: "sqrt (1 / 4) = 1 / 2"
  by (rule real_sqrt_unique) (simp_all add: power2_eq_square)

section \<open>Facts about the clipped gradient\<close>

lemma clipped_gradient_dims [simp]:
  "nrows (clipped_gradient c grad) = nrows grad" "ncols (clipped_gradient c grad) = ncols grad"
  by (simp_all add: clipped_gradient_def)

lemma clipped_gradient_shaped:
  "shaped r c grad \<Longrightarrow> shaped r c (clipped_gradient C grad)"
  by (simp add: shaped_def clipped_gradient_def)

lemma clipped_gradient_entry:
  assumes "i < nrows grad" "j < ncols grad"
  shows "entry (clipped_gradient C grad) i j = clip C (col_l2 grad j) (entry grad i j)"
proof -
  have "i * ncols grad + j < nrows grad * ncols grad" using assms by (rule index_less)
  then show ?thesis using assms(2) by (simp add: entry_def clipped_gradient_def)
qed

lemma clipped_gradient_norm:
  assumes "0 < C" "j < ncols grad"
  shows "col_l2 (clipped_gradient C grad) j \<le> C"
proof -
  have "col_l2 (clipped_gradient C grad) j
          = sqrt (\<Sum>i < nrows grad. clip C (col_l2 grad j) (entry grad i j)
                                    * clip C (col_l2 grad j) (entry grad i j))"
    using assms(2) by (simp add: col_l2_def clipped_gradient_entry)
  also have "\<dots> \<le> C"
    unfolding col_l2_def
    using clipped_column_norm [where c = C and n = "nrows grad" and f = "\<lambda>i. entry grad i j"]
      assms(1) by simp
  finally show ?thesis .
qed

lemma clipped_gradient_disabled:
  assumes "C \<le> 0" "length (elems grad) = nrows grad * ncols grad"
  shows "clipped_gradient C grad = grad"
proof -
  have "map (\<lambda>k. clip C (col_l2 grad (k mod ncols grad)) (elems grad ! k))
          [0 ..< nrows grad * ncols grad] = map (\<lambda>k. elems grad ! k) [0 ..< length (elems grad)]"
    using assms by (simp add: clip_def)
  also have "\<dots> = elems grad" by (rule map_nth)
  finally show ?thesis by (simp add: clipped_gradient_def)
qed

lemma gradientClipped_sim:
  assumes "GradientClipping t \<le> 0"
    and "0 < GradientClipping s \<longrightarrow>
           (\<exists>gn. GtNorm s = Some gn \<and> shaped (ncols grad) 1 gn \<and>
                 (\<forall>j < ncols grad. elems gn ! j = col_l2 grad j))"
  shows "gradientClipped t (clipped_gradient (GradientClipping s) grad) i j
           = gradientClipped s grad i j"
proof (cases "i < nrows grad \<and> j < ncols grad")
  case True
  then have ij: "i < nrows grad" "j < ncols grad" by simp_all
  have "gradientClipped s grad i j
          = Inr (clip (GradientClipping s) (col_l2 grad j) (entry grad i j))"
    using ij assms(2) by (intro gradientClipped_value) auto
  moreover have "gradientClipped t (clipped_gradient (GradientClipping s) grad) i j
          = Inr (entry (clipped_gradient (GradientClipping s) grad) i j)"
    using ij assms(1) by (simp add: gradientClipped_def At_entry)
  ultimately show ?thesis using ij by (simp add: clipped_gradient_entry)
next
  case False
  then show ?thesis by (auto simp: gradientClipped_def At_def)
qed

lemma Apply_dims:
  "nrows a' = nrows a \<Longrightarrow> ncols a' = ncols a \<Longrightarrow>
   Apply (\<lambda>i j v. h i j) a' m = Apply (\<lambda>i j v. h i j) a m"
  by (simp add: Apply_def)

lemma bind_res_assoc:
  "bind_res (bind_res m f) k = bind_res m (\<lambda>x. bind_res (f x) k)"
  by (cases m) simp_all

lemma unclip_swap:
  "s\<lparr>AdagradG := x, GradientClipping := a, GtNorm := b\<rparr>
     = s\<lparr>GradientClipping := a, GtNorm := b, AdagradG := x\<rparr>"
  "s\<lparr>AdagradG := x, AdadeltaU := y, GradientClipping := a, GtNorm := b\<rparr>
     = s\<lparr>GradientClipping := a, GtNorm := b, AdagradG := x, AdadeltaU := y\<rparr>"
  "s\<lparr>Mt := m, Vt := v, Mtcap := mc, Vtcap := vc, GradientClipping := a, GtNorm := b\<rparr>
     = s\<lparr>GradientClipping := a, GtNorm := b, Mt := m, Vt := v, Mtcap := mc, Vtcap := vc\<rparr>"
  "s\<lparr>PrevUpdate := p, GradientClipping := a, GtNorm := b\<rparr>
     = s\<lparr>GradientClipping := a, GtNorm := b, PrevUpdate := p\<rparr>"
  by simp_all

lemma reuseAs_dims:
  "nrows a' = nrows a \<Longrightarrow> ncols a' = ncols a \<Longrightarrow> reuseAs m a' = reuseAs m a"
  by (simp add: reuseAs_def)

lemma update_SGD_sim:
  assumes "\<And>i j. gradientClipped (s\<lparr>GradientClipping := a, GtNorm := b\<rparr>) g' i j
                   = gradientClipped s g i j"
    and "nrows g' = nrows g" "ncols g' = ncols g"
  shows "update_SGD (s\<lparr>GradientClipping := a, GtNorm := b\<rparr>) eta u g'
           = bind_res (update_SGD s eta u g)
               (\<lambda>(s3, upd). Inr (s3\<lparr>GradientClipping := a, GtNorm := b\<rparr>, upd))"
  by (simp add: update_SGD_def assms(1) Apply_dims [OF assms(2,3)] bind_res_assoc unclip_swap cong: if_cong)

lemma update_Adagrad_sim:
  assumes "\<And>i j. gradientClipped (s\<lparr>GradientClipping := a, GtNorm := b\<rparr>) g' i j
                   = gradientClipped s g i j"
    and "nrows g' = nrows g" "ncols g' = ncols g"
  shows "update_Adagrad (s\<lparr>GradientClipping := a, GtNorm := b\<rparr>) u g'
           = bind_res (update_Adagrad s u g)
               (\<lambda>(s3, upd). Inr (s3\<lparr>GradientClipping := a, GtNorm := b\<rparr>, upd))"
  by (simp add: update_Adagrad_def assms(1) Apply_dims [OF assms(2,3)] bind_res_assoc unclip_swap cong: if_cong)

lemma update_RMSProp_sim:
  assumes "\<And>i j. gradientClipped (s\<lparr>GradientClipping := a, GtNorm := b\<rparr>) g' i j
                   = gradientClipped s g i j"
    and "nrows g' = nrows g" "ncols g' = ncols g"
  shows "update_RMSProp (s\<lparr>GradientClipping := a, GtNorm := b\<rparr>) u g'
           = bind_res (update_RMSProp s u g)
               (\<lambda>(s3, upd). Inr (s3\<lparr>GradientClipping := a, GtNorm := b\<rparr>, upd))"
  by (simp add: update_RMSProp_def assms(1) bind_res_assoc unclip_swap cong: if_cong)

lemma update_Adadelta_sim:
  assumes "\<And>i j. gradientClipped (s\<lparr>GradientClipping := a, GtNorm := b\<rparr>) g' i j
                   = gradientClipped s g i j"
    and "nrows g' = nrows g" "ncols g' = ncols g"
  shows "update_Adadelta (s\<lparr>GradientClipping := a, GtNorm := b\<rparr>) eta u g'
           = bind_res (update_Adadelta s eta u g)
               (\<lambda>(s3, upd). Inr (s3\<lparr>GradientClipping := a, GtNorm := b\<rparr>, upd))"
  by (simp add: update_Adadelta_def assms(1) Apply_dims [OF assms(2,3)] bind_res_assoc unclip_swap cong: if_cong)

lemma update_Adam_sim:
  assumes "\<And>i j. gradientClipped (s\<lparr>GradientClipping := a, GtNorm := b\<rparr>) g' i j
                   = gradientClipped s g i j"
    and "nrows g' = nrows g" "ncols g' = ncols g"
  shows "update_Adam (s\<lparr>GradientClipping := a, GtNorm := b\<rparr>) u g'
           = bind_res (update_Adam s u g)
               (\<lambda>(s3, upd). Inr (s3\<lparr>GradientClipping := a, GtNorm := b\<rparr>, upd))"
  by (simp add: update_Adam_def assms(1) Apply_dims [OF assms(2,3)] reuseAs_dims [OF assms(2,3)] bind_res_assoc unclip_swap cong: if_cong)

lemma variant_update_sim:
  assumes "\<And>i j. gradientClipped (s\<lparr>GradientClipping := a, GtNorm := b\<rparr>) g' i j
                   = gradientClipped s g i j"
    and "nrows g' = nrows g" "ncols g' = ncols g"
  shows "variant_update (s\<lparr>GradientClipping := a, GtNorm := b\<rparr>) eta u g'
           = bind_res (variant_update s eta u g)
               (\<lambda>(s3, upd). Inr (s3\<lparr>GradientClipping := a, GtNorm := b\<rparr>, upd))"
  unfolding variant_update_def
  using update_RMSProp_sim [OF assms, of u] update_Adagrad_sim [OF assms, of u]
    update_Adadelta_sim [OF assms, of eta u] update_Adam_sim [OF assms, of u]
    update_SGD_sim [OF assms, of eta u]
  by simp

lemma apply_momentum_sim:
  "apply_momentum (s\<lparr>GradientClipping := a, GtNorm := b\<rparr>) u = apply_momentum s u"
  by (simp add: apply_momentum_def)

lemma clone_prev_sim:
  "clone_prev (s\<lparr>GradientClipping := a, GtNorm := b\<rparr>) u
     = bind_res (clone_prev s u) (\<lambda>s4. Inr (s4\<lparr>GradientClipping := a, GtNorm := b\<rparr>))"
  by (simp add: clone_prev_def bind_res_assoc unclip_swap)

lemma compute_norms_GtNorm:
  "compute_norms s1 grad = Inr s2 \<Longrightarrow> s2\<lparr>GtNorm := x\<rparr> = s1\<lparr>GtNorm := x\<rparr>"
  by (auto simp: compute_norms_def bind_res_eq_Inr split: if_splits)

lemma begin_step_unclipped:
  assumes "nrows g' = nrows g" "ncols g' = ncols g"
  shows "begin_step (s\<lparr>GradientClipping := 0\<rparr>) g'
           = (begin_step s g)\<lparr>GradientClipping := 0, GtNorm := GtNorm s\<rparr>"
  using assms by (simp add: begin_step_def first_call_alloc_def Let_def)

lemma compute_norms_unclipped:
  "GradientClipping s \<le> 0 \<Longrightarrow> compute_norms s g = Inr s"
  by (simp add: compute_norms_def)

section \<open>Facts about rounding\<close>

lemma round_even_int: "round_even (real_of_int m) = m"
  by (simp add: round_even_def)

lemma round_even_near:
  assumes "\<bar>q - real_of_int m\<bar> < 1 / 2"
  shows "round_even q = m"
proof (cases "real_of_int m \<le> q")
  case True
  then have "\<lfloor>q\<rfloor> = m" using assms by (intro floor_unique) auto
  then show ?thesis using assms True by (simp add: round_even_def)
next
  case False
  then have f: "\<lfloor>q\<rfloor> = m - 1" using assms by (intro floor_unique) auto
  have "1 / 2 < q - real_of_int (m - 1)" using assms False by auto
  then show ?thesis using f by (simp add: round_even_def Let_def)
qed

lemma fl64_down:
  assumes "0 < x" "2 ^ 52 \<le> x * 2 ^ k" "x * 2 ^ k < 2 ^ 53" "round_even (x * 2 ^ k) = m"
  shows "fl64 x = real_of_int m / 2 ^ k"
proof -
  have p: "2 powr (real_of_int (52 - int k)) = 2 ^ 52 / 2 ^ k"
    by (simp add: powr_diff powr_realpow)
  have p1: "2 powr (real_of_int (52 - int k + 1)) = 2 ^ 53 / 2 ^ k"
  proof -
    have "real_of_int (52 - int k + 1) = 53 - real k" by simp
    then show ?thesis by (simp add: powr_diff powr_realpow)
  qed
  have lo: "2 powr (real_of_int (52 - int k)) \<le> x"
    unfolding p using assms(2) by (simp add: divide_le_eq)
  have hi: "x < 2 powr (real_of_int (52 - int k + 1))"
    unfolding p1 using assms(3) by (simp add: less_divide_eq)
  have "\<lfloor>log 2 x\<rfloor> = 52 - int k"
    using assms(1) lo hi by (subst floor_log_eq_powr_iff) simp_all
  then have e: "\<lfloor>log 2 \<bar>x\<bar>\<rfloor> - 52 = - int k" using assms(1) by simp
  have q: "2 powr real_of_int (- int k) = 1 / 2 ^ k"
    by (simp add: powr_minus_divide powr_realpow)
  show ?thesis
    using assms(1,4) unfolding fl64_def e Let_def q by simp
qed

lemma fl64_value:
  assumes "0 < x" "2 ^ 52 \<le> x * 2 ^ k" "x * 2 ^ k < 2 ^ 53"
    and "\<bar>x * 2 ^ k - real_of_int m\<bar> < 1 / 2" "y = real_of_int m / 2 ^ k"
  shows "fl64 x = y"
proof -
  have "round_even (x * 2 ^ k) = m" using assms(4) by (rule round_even_near)
  with assms(1-3) have "fl64 x = real_of_int m / 2 ^ k" by (rule fl64_down)
  then show ?thesis using assms(5) by simp
qed

lemma fl64_exact:
  assumes "0 < x" "2 ^ 52 \<le> x * 2 ^ k" "x * 2 ^ k < 2 ^ 53" "x * 2 ^ k = real_of_int m"
  shows "fl64 x = x"
proof (rule fl64_value [OF assms(1-3)])
  show "\<bar>x * 2 ^ k - real_of_int m\<bar> < 1 / 2" using assms(4) by simp
  show "x = real_of_int m / 2 ^ k" using assms(4) by (simp add: field_simps)
qed

lemma fl64_small:
  "fl64 4 = 4" "fl64 100 = 100" "fl64 104 = 104"
proof -
  show "fl64 4 = 4" by (rule fl64_exact [where k = 50 and m = "2 ^ 52"]) simp_all
  show "fl64 100 = 100" by (rule fl64_exact [where k = 46 and m = "100 * 2 ^ 46"]) simp_all
  show "fl64 104 = 104" by (rule fl64_exact [where k = 46 and m = "104 * 2 ^ 46"]) simp_all
qed

lemma fl64_sqrt_104: "fl64 (sqrt 104) = norm_two_ten"
proof (rule fl64_value [where k = 49 and m = 5740985595342838])
  show "0 < sqrt (104::real)" by simp
  have lo: "(5740985595342838 - 1 / 2) / 2 ^ 49 < sqrt (104::real)"
    by (rule real_less_rsqrt) (simp add: power2_eq_square)
  have hi: "sqrt (104::real) < (5740985595342838 + 1 / 2) / 2 ^ 49"
    by (rule real_less_lsqrt) (simp_all add: power2_eq_square)
  show "(2::real) ^ 52 \<le> sqrt 104 * 2 ^ 49" using lo by (simp add: field_simps)
  show "sqrt (104::real) * 2 ^ 49 < 2 ^ 53" using hi by (simp add: field_simps)
  show "\<bar>sqrt 104 * 2 ^ 49 - real_of_int 5740985595342838\<bar> < 1 / 2"
    unfolding abs_less_iff using lo hi by (simp add: field_simps)
  show "norm_two_ten = real_of_int 5740985595342838 / 2 ^ 49" by (simp add: norm_two_ten_def)
qed

lemma fl64_ratio: "fl64 (10 / norm_two_ten) = 8832285531296675 / 2 ^ 53"
  by (rule fl64_value [where k = 53 and m = 8832285531296675])
     (simp_all add: norm_two_ten_def abs_less_iff)

lemma fl64_first: "fl64 (2 * (8832285531296675 / 2 ^ 53)) = 8832285531296675 / 2 ^ 52"
  by (rule fl64_value [where k = 52 and m = 8832285531296675]) simp_all

lemma fl64_second: "fl64 (10 * (8832285531296675 / 2 ^ 53)) = 5520178457060422 / 2 ^ 49"
  by (rule fl64_value [where k = 49 and m = 5520178457060422]) (simp_all add: abs_less_iff)

lemma norm_two_ten_gt: "10 < norm_two_ten"
  by (simp add: norm_two_ten_def)

lemma colNorm64_two_ten: "colNorm64 grad_two_ten 0 = Inr norm_two_ten"
  by (simp add: colNorm64_def grad_two_ten_def At_def fl64_small fl64_sqrt_104 numeral_2_eq_2)

lemma compute_norms64_two_ten:
  "compute_norms64 (begin_step NewAdagradOptimizer grad_two_ten) grad_two_ten = Inr clip_state"
proof -
  have "ncols grad_two_ten = 1" by (simp add: grad_two_ten_def)
  then show ?thesis
    by (simp add: compute_norms64_def colNorm64_two_ten clip_state_def begin_step_def
          first_call_alloc_def NewAdagradOptimizer_def NewSGDOptimizer_def zeroSGDOptimizer_def
          Let_def deref_def NewDense_def Set_dense_def one_by_one_def)
qed

lemma clip_state_fields:
  "GradientClipping clip_state = 10" "GtNorm clip_state = Some (one_by_one norm_two_ten)"
  by (simp_all add: clip_state_def begin_step_def first_call_alloc_def NewAdagradOptimizer_def
        NewSGDOptimizer_def zeroSGDOptimizer_def Let_def)

lemma gradientClipped64_two_ten:
  "gradientClipped64 clip_state grad_two_ten 0 0 = Inr (8832285531296675 / 2 ^ 52)"
  "gradientClipped64 clip_state grad_two_ten 1 0 = Inr (5520178457060422 / 2 ^ 49)"
proof -
  have "gradientClipped64 clip_state grad_two_ten 0 0 = Inr (fl64 (2 * fl64 (10 / norm_two_ten)))"
    by (simp add: gradientClipped64_def clip_state_fields grad_two_ten_def At_def deref_def
          one_by_one_def norm_two_ten_gt)
  then show "gradientClipped64 clip_state grad_two_ten 0 0 = Inr (8832285531296675 / 2 ^ 52)"
    by (simp only: fl64_ratio fl64_first)
  have "gradientClipped64 clip_state grad_two_ten 1 0 = Inr (fl64 (10 * fl64 (10 / norm_two_ten)))"
    by (simp add: gradientClipped64_def clip_state_fields grad_two_ten_def At_def deref_def
          one_by_one_def norm_two_ten_gt)
  then show "gradientClipped64 clip_state grad_two_ten 1 0 = Inr (5520178457060422 / 2 ^ 49)"
    by (simp only: fl64_ratio fl64_second)
qed

lemma fl64_sq_first:
  "fl64 (8832285531296675 / 2 ^ 52 * (8832285531296675 / 2 ^ 52)) = 8660768514174032 / 2 ^ 51"
  by (rule fl64_value [where k = 51 and m = 8660768514174032]) (simp_all add: abs_less_iff)

lemma fl64_sq_second:
  "fl64 (5520178457060422 / 2 ^ 49 * (5520178457060422 / 2 ^ 49)) = 6766225401698463 / 2 ^ 46"
  by (rule fl64_value [where k = 46 and m = 6766225401698463]) (simp_all add: abs_less_iff)

lemma fl64_sq_acc:
  "fl64 (0 + 8660768514174032 / 2 ^ 51) = 8660768514174032 / 2 ^ 51"
  by (rule fl64_value [where k = 51 and m = 8660768514174032]) simp_all

lemma round_even_tie_odd:
  assumes "q = real_of_int f + 1 / 2" "odd f"
  shows "round_even q = f + 1"
proof -
  have "\<lfloor>q\<rfloor> = f" unfolding assms(1) by (intro floor_unique) simp_all
  then show ?thesis using assms by (simp add: round_even_def)
qed

lemma fl64_sq_sum:
  "fl64 (8660768514174032 / 2 ^ 51 + 6766225401698463 / 2 ^ 46) = 7036874417766402 / 2 ^ 46"
proof -
  let ?x = "8660768514174032 / 2 ^ 51 + 6766225401698463 / 2 ^ 46 :: real"
  have "round_even (?x * 2 ^ 46) = 7036874417766401 + 1"
    by (rule round_even_tie_odd) simp_all
  then have r: "round_even (?x * 2 ^ 46) = 7036874417766402" by simp
  have "fl64 ?x = real_of_int 7036874417766402 / 2 ^ 46"
    by (rule fl64_down [OF _ _ _ r]) simp_all
  then show ?thesis by simp
qed

lemma fl64_sqrt_sum:
  "fl64 (sqrt (7036874417766402 / 2 ^ 46)) = 5629499534213121 / 2 ^ 49"
proof (rule fl64_value [where k = 49 and m = 5629499534213121])
  let ?x = "sqrt (7036874417766402 / 2 ^ 46 :: real)"
  show "0 < ?x" by simp
  have lo: "(5629499534213121 - 1 / 2) / 2 ^ 49 < ?x"
    by (rule real_less_rsqrt) (simp add: power2_eq_square)
  have hi: "?x < (5629499534213121 + 1 / 2) / 2 ^ 49"
    by (rule real_less_lsqrt) (simp_all add: power2_eq_square)
  show "(2::real) ^ 52 \<le> ?x * 2 ^ 49" using lo by (simp add: field_simps)
  show "?x * 2 ^ 49 < 2 ^ 53" using hi by (simp add: field_simps)
  show "\<bar>?x * 2 ^ 49 - real_of_int 5629499534213121\<bar> < 1 / 2"
    unfolding abs_less_iff using lo hi by (simp add: field_simps)
  show "(5629499534213121 / 2 ^ 49 :: real) = real_of_int 5629499534213121 / 2 ^ 49" by simp
qed

lemma colNorm64_clipped: "colNorm64 clipped_two_ten 0 = Inr (5629499534213121 / 2 ^ 49)"
proof -
  have "colNorm64 clipped_two_ten 0
          = Inr (fl64 (sqrt (fl64 (fl64 (0 + fl64 (8832285531296675 / 2 ^ 52 * (8832285531296675 / 2 ^ 52)))
                   + fl64 (5520178457060422 / 2 ^ 49 * (5520178457060422 / 2 ^ 49))))))"
    unfolding colNorm64_def clipped_two_ten_def
    by (simp add: At_def numeral_2_eq_2 del: mult_numeral_left times_divide_times_eq divide_divide_eq_left)
  then show ?thesis
    by (simp only: fl64_sq_first fl64_sq_second fl64_sq_acc fl64_sq_sum fl64_sqrt_sum)
qed

section \<open>Facts about the data generator\<close>

lemma get_int_Inr:
  "get_int kwargs key d = Inr n \<Longrightarrow> int_arg kwargs key d = n"
  by (auto simp: get_int_def int_arg_def split: option.splits kwval.splits)

lemma get_int_typed:
  "typed_arg kwargs key \<Longrightarrow> get_int kwargs key d = Inr (int_arg kwargs key d)"
  by (auto simp: get_int_def int_arg_def typed_arg_def split: option.splits kwval.splits)

lemma NewDense_int_Inr:
  "NewDense_int r c = Inr m \<Longrightarrow> 0 \<le> r \<and> 0 \<le> c \<and> m = NewDense (nat r) (nat c)"
  by (auto simp: NewDense_int_def split: if_splits)

lemma mapM_res_upt:
  "mapM_res f [0 ..< n] = Inr vs \<longleftrightarrow> length vs = n \<and> (\<forall>k < n. f k = Inr (vs ! k))"
  by (simp add: mapM_res_Inr_iff)

lemma fill_random_Inr:
  assumes "fill_random env kwargs first m = Inr m'"
  shows "shaped (nrows m) (ncols m) m'"
  using assms
  by (auto simp: fill_random_def bind_res_eq_Inr mapM_res_Inr_iff shaped_def)

lemma rnd_typed:
  assumes "typed_rand kwargs"
  shows "\<exists>v. rnd env kwargs k = Inr v"
  using assms by (auto simp: rnd_def typed_rand_def split: option.splits kwval.splits)

lemma fill_random_total:
  assumes "typed_rand kwargs"
  shows "\<exists>m'. fill_random env kwargs first m = Inr m'"
proof -
  have "\<exists>vs. mapM_res (\<lambda>p. rnd env kwargs (first + p)) [0 ..< nrows m * ncols m] = Inr vs"
    using rnd_typed [OF assms] by (intro mapM_res_total) simp
  then show ?thesis by (auto simp: fill_random_def)
qed

lemma Slice_dense_Inr:
  assumes "Slice_dense X 0 k 0 l = Inr Xi"
  shows "0 < k" "k \<le> int (nrows X)" "0 < l" "l \<le> int (ncols X)"
    "nrows Xi = nat k" "ncols Xi = nat l" "length (elems Xi) = nat k * nat l"
    "\<And>i f. i < nat k \<Longrightarrow> f < nat l \<Longrightarrow> entry Xi i f = entry X i f"
proof -
  have c: "0 < k" "k \<le> int (nrows X)" "0 < l" "l \<le> int (ncols X)"
    using assms by (auto simp: Slice_dense_def split: if_splits)
  then show "0 < k" "k \<le> int (nrows X)" "0 < l" "l \<le> int (ncols X)" by simp_all
  have Xi: "Xi = \<lparr>nrows = nat k, ncols = nat l,
                   elems = map (\<lambda>p. elems X ! ((p div nat l) * ncols X + p mod nat l))
                             [0 ..< nat k * nat l]\<rparr>"
    using assms by (auto simp: Slice_dense_def split: if_splits)
  show "nrows Xi = nat k" "ncols Xi = nat l" "length (elems Xi) = nat k * nat l"
    by (simp_all add: Xi)
  fix i f assume if': "i < nat k" "f < nat l"
  have lt: "i * nat l + f < nat k * nat l" using if' by (rule index_less)
  have "entry Xi i f = elems X ! (((i * nat l + f) div nat l) * ncols X + (i * nat l + f) mod nat l)"
    using lt by (simp add: Xi entry_def del: div_mult_self3 div_mult_self4 mod_mult_self3 mod_mult_self4)
  also have "\<dots> = elems X ! (i * ncols X + f)"
    using index_div_mod [OF if'(2), of i] by simp
  finally show "entry Xi i f = entry X i f" by (simp add: entry_def)
qed

lemma Mul_dense_Inr:
  assumes "Mul_dense a b m = Inr y"
  shows "ncols a = nrows b" "shaped (nrows a) (ncols b) y"
    "\<And>i t. i < nrows a \<Longrightarrow> t < ncols b \<Longrightarrow>
       entry y i t = (\<Sum>f < ncols a. entry a i f * entry b f t)"
proof -
  show ab: "ncols a = nrows b" using assms by (auto simp: Mul_dense_def split: if_splits)
  have y: "y = \<lparr>nrows = nrows a, ncols = ncols b,
                 elems = map (\<lambda>p. \<Sum>f\<leftarrow>[0 ..< ncols a].
                                     elems a ! ((p div ncols b) * ncols a + f)
                                     * elems b ! (f * ncols b + p mod ncols b))
                          [0 ..< nrows a * ncols b]\<rparr>"
    using assms by (auto simp: Mul_dense_def split: if_splits)
  show "shaped (nrows a) (ncols b) y" by (simp add: y shaped_def)
  fix i t assume it: "i < nrows a" "t < ncols b"
  have lt: "i * ncols b + t < nrows a * ncols b" using it by (rule index_less)
  have "entry y i t = (\<Sum>f\<leftarrow>[0 ..< ncols a].
                         elems a ! (((i * ncols b + t) div ncols b) * ncols a + f)
                         * elems b ! (f * ncols b + (i * ncols b + t) mod ncols b))"
    using lt by (simp add: y entry_def del: div_mult_self3 div_mult_self4 mod_mult_self3 mod_mult_self4)
  also have "\<dots> = (\<Sum>f\<leftarrow>[0 ..< ncols a]. elems a ! (i * ncols a + f) * elems b ! (f * ncols b + t))"
    using index_div_mod [OF it(2), of i] by simp
  also have "\<dots> = (\<Sum>f < ncols a. entry a i f * entry b f t)"
    by (simp add: sum_list_upt entry_def)
  finally show "entry y i t = (\<Sum>f < ncols a. entry a i f * entry b f t)" .
qed

lemma add_bias_Inr:
  assumes "add_bias kwargs y1 = Inr y" "shaped r c y1"
  shows "shaped r c y"
    and "\<And>i t. i < r \<Longrightarrow> t < c \<Longrightarrow> entry y i t = entry y1 i t + bias_term kwargs t"
proof -
  have d: "nrows y1 = r" "ncols y1 = c" "length (elems y1) = r * c"
    using assms(2) by (simp_all add: shaped_def)
  have both: "shaped r c y \<and> (\<forall>i < r. \<forall>t < c. entry y i t = entry y1 i t + bias_term kwargs t)"
  proof (cases "kwargs ''bias''")
    case None
    then show ?thesis using assms by (simp add: add_bias_def bias_term_def)
  next
    case (Some v)
    show ?thesis
    proof (cases v)
      case (KFloat b)
      then have y: "y = y1\<lparr>elems := map (\<lambda>v. v + b) (elems y1)\<rparr>"
        using assms(1) Some by (simp add: add_bias_def)
      have "\<forall>i < r. \<forall>t < c. entry y i t = entry y1 i t + b"
      proof (intro allI impI)
        fix i t assume "i < r" "t < c"
        then have "i * c + t < r * c" by (rule index_less)
        then show "entry y i t = entry y1 i t + b" using d by (simp add: y entry_def)
      qed
      then show ?thesis using d Some KFloat by (simp add: y shaped_def bias_term_def)
    next
      case (KFloats bs)
      then obtain vs where vs:
        "mapM_res (\<lambda>p. if p mod ncols y1 < length bs
                        then Inr (elems y1 ! p + bs ! (p mod ncols y1))
                        else Inl IndexOutOfRange) [0 ..< nrows y1 * ncols y1] = Inr vs"
        and y: "y = y1\<lparr>elems := vs\<rparr>"
        using assms(1) Some by (auto simp: add_bias_def bind_res_eq_Inr)
      have len: "length vs = r * c" using vs d by (simp add: mapM_res_upt)
      have el: "\<forall>p < r * c. (if p mod c < length bs then Inr (elems y1 ! p + bs ! (p mod c))
                               else Inl IndexOutOfRange) = (Inr (vs ! p) :: real res)"
        using vs unfolding mapM_res_upt d(1,2) by (elim conjE)
      have "\<forall>i < r. \<forall>t < c. entry y i t = entry y1 i t + bs ! t"
      proof (intro allI impI)
        fix i t assume it: "i < r" "t < c"
        then have lt: "i * c + t < r * c" by (rule index_less)
        have "(if (i * c + t) mod c < length bs
               then Inr (elems y1 ! (i * c + t) + bs ! ((i * c + t) mod c))
               else Inl IndexOutOfRange) = (Inr (vs ! (i * c + t)) :: real res)"
          using el lt by blast
        then have "vs ! (i * c + t) = elems y1 ! (i * c + t) + bs ! t"
          using it(2) by (simp split: if_splits)
        then show "entry y i t = entry y1 i t + bs ! t" using d by (simp add: y entry_def)
      qed
      then show ?thesis using d len Some KFloats by (simp add: y shaped_def bias_term_def)
    next
      case (KMatrix m)
      then obtain vs where vs:
        "mapM_res (\<lambda>p. bind_res (At m 0 (p mod ncols y1)) (\<lambda>b. Inr (elems y1 ! p + b)))
           [0 ..< nrows y1 * ncols y1] = Inr vs"
        and y: "y = y1\<lparr>elems := vs\<rparr>"
        using assms(1) Some by (auto simp: add_bias_def bind_res_eq_Inr)
      have len: "length vs = r * c" using vs d by (simp add: mapM_res_upt)
      have el: "\<forall>p < r * c. bind_res (At m 0 (p mod c)) (\<lambda>b. Inr (elems y1 ! p + b))
                               = Inr (vs ! p)"
        using vs d by (simp add: mapM_res_upt)
      have "\<forall>i < r. \<forall>t < c. entry y i t = entry y1 i t + entry m 0 t"
      proof (intro allI impI)
        fix i t assume it: "i < r" "t < c"
        then have lt: "i * c + t < r * c" by (rule index_less)
        have "bind_res (At m 0 ((i * c + t) mod c)) (\<lambda>b. Inr (elems y1 ! (i * c + t) + b))
                = Inr (vs ! (i * c + t))"
          using el lt by blast
        then have "bind_res (At m 0 t) (\<lambda>b. Inr (elems y1 ! (i * c + t) + b))
                = Inr (vs ! (i * c + t))"
          using it(2) by simp
        then have "vs ! (i * c + t) = elems y1 ! (i * c + t) + entry m 0 t"
          by (auto simp: bind_res_eq_Inr At_def entry_def split: if_splits)
        then show "entry y i t = entry y1 i t + entry m 0 t" using d by (simp add: y entry_def)
      qed
      then show ?thesis using d len Some KMatrix by (simp add: y shaped_def bias_term_def)
    qed (use assms Some in \<open>simp_all add: add_bias_def bias_term_def\<close>)
  qed
  show "shaped r c y" using both by simp
  show "\<And>i t. i < r \<Longrightarrow> t < c \<Longrightarrow> entry y i t = entry y1 i t + bias_term kwargs t"
    using both by simp
qed

lemma MakeRegression_Inr:
  assumes "MakeRegression env kwargs = Inr (X, y, Coef)"
  shows "\<exists>nSamples nFeatures nInformative0 nTargets X0 y0 Coef0 Xi y1.
           get_int kwargs ''n_samples'' 100 = Inr nSamples \<and>
           get_int kwargs ''n_features'' 100 = Inr nFeatures \<and>
           get_int kwargs ''n_informative'' 10 = Inr nInformative0 \<and>
           get_int kwargs ''n_targets'' 1 = Inr nTargets \<and>
           NewDense_int nSamples nFeatures = Inr X0 \<and>
           NewDense_int nSamples nTargets = Inr y0 \<and>
           NewDense_int (min nInformative0 nFeatures) nTargets = Inr Coef0 \<and>
           fill_random env kwargs 0 X0 = Inr X \<and>
           fill_random env kwargs (nrows X * ncols X) Coef0 = Inr Coef \<and>
           Slice_dense X 0 nSamples 0 (min nInformative0 nFeatures) = Inr Xi \<and>
           Mul_dense Xi Coef y0 = Inr y1 \<and>
           add_bias kwargs y1 = Inr y"
proof -
  have m: "(if b < a then b else a) = min a b" for a b :: int by (simp add: min_def)
  show ?thesis
    using assms unfolding MakeRegression_def Let_def bind_res_eq_Inr m
    by (elim exE conjE) (auto split: option.splits simp: bind_res_eq_Inr)
qed

lemma MakeRegression_shapes:
  assumes "MakeRegression env kwargs = Inr (X, y, Coef)"
    and "nSamples = int_arg kwargs ''n_samples'' 100"
    and "nFeatures = int_arg kwargs ''n_features'' 100"
    and "nTargets = int_arg kwargs ''n_targets'' 1"
    and "nInformative = min (int_arg kwargs ''n_informative'' 10) nFeatures"
  shows "shaped (nat nSamples) (nat nFeatures) X \<and>
         shaped (nat nSamples) (nat nTargets) y \<and>
         shaped (nat nInformative) (nat nTargets) Coef \<and>
         0 < nSamples \<and> 0 < nInformative \<and> 0 \<le> nTargets \<and>
         (\<forall>i < nat nSamples. \<forall>t < nat nTargets.
            entry y i t = (\<Sum>f < nat nInformative. entry X i f * entry Coef f t)
                          + bias_term kwargs t)"
proof -
  obtain nS nF nI0 nT X0 y0 Coef0 Xi y1 where
    g: "get_int kwargs ''n_samples'' 100 = Inr nS" "get_int kwargs ''n_features'' 100 = Inr nF"
       "get_int kwargs ''n_informative'' 10 = Inr nI0" "get_int kwargs ''n_targets'' 1 = Inr nT"
    and a: "NewDense_int nS nF = Inr X0" "NewDense_int nS nT = Inr y0"
       "NewDense_int (min nI0 nF) nT = Inr Coef0"
    and f: "fill_random env kwargs 0 X0 = Inr X"
       "fill_random env kwargs (nrows X * ncols X) Coef0 = Inr Coef"
    and sl: "Slice_dense X 0 nS 0 (min nI0 nF) = Inr Xi"
    and mu: "Mul_dense Xi Coef y0 = Inr y1"
    and bi: "add_bias kwargs y1 = Inr y"
    using MakeRegression_Inr [OF assms(1)] by (elim exE conjE)
  have n: "nS = nSamples" "nF = nFeatures" "nT = nTargets" "min nI0 nFeatures = nInformative"
    using g [THEN get_int_Inr] assms(2-5) by simp_all
  have X0: "X0 = NewDense (nat nSamples) (nat nFeatures)" "0 \<le> nTargets"
    and C0: "Coef0 = NewDense (nat nInformative) (nat nTargets)"
    using a [THEN NewDense_int_Inr] n by simp_all
  have sX: "shaped (nat nSamples) (nat nFeatures) X"
    using fill_random_Inr [OF f(1)] by (simp add: X0 NewDense_def)
  have sC: "shaped (nat nInformative) (nat nTargets) Coef"
    using fill_random_Inr [OF f(2)] by (simp add: C0 NewDense_def)
  note s = Slice_dense_Inr [OF sl, unfolded n]
  have dXi: "nrows Xi = nat nSamples" "ncols Xi = nat nInformative" using s(5,6) by simp_all
  have dC: "nrows Coef = nat nInformative" "ncols Coef = nat nTargets"
    using sC by (simp_all add: shaped_def)
  note m = Mul_dense_Inr [OF mu, unfolded dXi dC]
  have sy: "shaped (nat nSamples) (nat nTargets) y" using bi m(2) by (rule add_bias_Inr(1))
  have "\<forall>i < nat nSamples. \<forall>t < nat nTargets.
            entry y i t = (\<Sum>f < nat nInformative. entry X i f * entry Coef f t)
                          + bias_term kwargs t"
  proof (intro allI impI)
    fix i t assume it: "i < nat nSamples" "t < nat nTargets"
    have "entry y i t = entry y1 i t + bias_term kwargs t"
      using bi m(2) it by (rule add_bias_Inr(2))
    also have "entry y1 i t = (\<Sum>f < nat nInformative. entry Xi i f * entry Coef f t)"
      using it by (rule m(3))
    also have "\<dots> = (\<Sum>f < nat nInformative. entry X i f * entry Coef f t)"
      using s(8) [OF it(1)] by (intro sum.cong) simp_all
    finally show "entry y i t = (\<Sum>f < nat nInformative. entry X i f * entry Coef f t)
                          + bias_term kwargs t" .
  qed
  then show ?thesis using sX sy sC s(1,3) X0(2) by (intro conjI)
qed

lemma add_bias_total:
  assumes "bias_fits kwargs c" "shaped r c y1"
  shows "\<exists>y. add_bias kwargs y1 = Inr y"
proof -
  have d: "nrows y1 = r" "ncols y1 = c" using assms(2) by (simp_all add: shaped_def)
  show ?thesis
  proof (cases "kwargs ''bias''")
    case None
    then show ?thesis by (simp add: add_bias_def)
  next
    case (Some v)
    show ?thesis
    proof (cases v)
      case (KFloats bs)
      then have len: "c \<le> length bs" using assms(1) Some by (simp add: bias_fits_def)
      have "\<exists>vs. mapM_res (\<lambda>p. if p mod ncols y1 < length bs
                        then Inr (elems y1 ! p + bs ! (p mod ncols y1))
                        else (Inl IndexOutOfRange :: real res)) [0 ..< nrows y1 * ncols y1] = Inr vs"
      proof (rule mapM_res_total, rule ballI)
        fix p assume "p \<in> set [0 ..< nrows y1 * ncols y1]"
        then have "0 < c" using d by (cases c) simp_all
        then have "p mod c < length bs" using len by (meson less_le_trans mod_less_divisor)
        then show "\<exists>v. (if p mod ncols y1 < length bs
                        then Inr (elems y1 ! p + bs ! (p mod ncols y1))
                        else (Inl IndexOutOfRange :: real res)) = Inr v"
          using d by simp
      qed
      then show ?thesis using Some KFloats by (auto simp: add_bias_def)
    next
      case (KMatrix m)
      then have mm: "0 < nrows m" "c \<le> ncols m" using assms(1) Some by (simp_all add: bias_fits_def)
      have "\<exists>vs. mapM_res (\<lambda>p. bind_res (At m 0 (p mod ncols y1)) (\<lambda>b. Inr (elems y1 ! p + b)))
                [0 ..< nrows y1 * ncols y1] = Inr vs"
      proof (rule mapM_res_total, rule ballI)
        fix p assume "p \<in> set [0 ..< nrows y1 * ncols y1]"
        then have "0 < c" using d by (cases c) simp_all
        then have "p mod c < ncols m" using mm(2) by (meson less_le_trans mod_less_divisor)
        then show "\<exists>v. bind_res (At m 0 (p mod ncols y1)) (\<lambda>b. Inr (elems y1 ! p + b)) = Inr v"
          using d mm(1) by (simp add: At_def)
      qed
      then show ?thesis using Some KMatrix by (auto simp: add_bias_def)
    qed (use Some in \<open>simp_all add: add_bias_def\<close>)
  qed
qed

lemma MakeRegression_total:
  assumes "args_typed kwargs" "bias_fits kwargs (nat nTargets)" "check_passes env"
    and "nSamples = int_arg kwargs ''n_samples'' 100"
    and "nFeatures = int_arg kwargs ''n_features'' 100"
    and "nTargets = int_arg kwargs ''n_targets'' 1"
    and "nInformative = min (int_arg kwargs ''n_informative'' 10) nFeatures"
    and "0 < nSamples" "0 < nInformative" "0 < nTargets"
  shows "\<exists>X y Coef. MakeRegression env kwargs = Inr (X, y, Coef)"
proof -
  have ty: "typed_arg kwargs ''n_samples''" "typed_arg kwargs ''n_features''"
    "typed_arg kwargs ''n_informative''" "typed_arg kwargs ''n_targets''" "typed_rand kwargs"
    using assms(1) by (simp_all add: args_typed_def)
  let ?nI0 = "int_arg kwargs ''n_informative'' 10"
  have g: "get_int kwargs ''n_samples'' 100 = Inr nSamples"
    "get_int kwargs ''n_features'' 100 = Inr nFeatures"
    "get_int kwargs ''n_informative'' 10 = Inr ?nI0"
    "get_int kwargs ''n_targets'' 1 = Inr nTargets"
    using ty(1-4) [THEN get_int_typed] assms(4-6) by simp_all
  have pos: "0 < nFeatures" using assms(7,9) by simp
  let ?X0 = "NewDense (nat nSamples) (nat nFeatures)"
  let ?y0 = "NewDense (nat nSamples) (nat nTargets)"
  let ?C0 = "NewDense (nat nInformative) (nat nTargets)"
  have a: "NewDense_int nSamples nFeatures = Inr ?X0" "NewDense_int nSamples nTargets = Inr ?y0"
    "NewDense_int nInformative nTargets = Inr ?C0"
    using assms(8-10) pos by (simp_all add: NewDense_int_def)
  obtain X where X: "fill_random env kwargs 0 ?X0 = Inr X"
    using fill_random_total [OF ty(5)] by blast
  obtain Coef where C: "fill_random env kwargs (nrows X * ncols X) ?C0 = Inr Coef"
    using fill_random_total [OF ty(5)] by blast
  have sX: "shaped (nat nSamples) (nat nFeatures) X"
    using fill_random_Inr [OF X] by (simp add: NewDense_def)
  have sC: "shaped (nat nInformative) (nat nTargets) Coef"
    using fill_random_Inr [OF C] by (simp add: NewDense_def)
  have le: "nInformative \<le> nFeatures" using assms(7) by simp
  obtain Xi where Xi: "Slice_dense X 0 nSamples 0 nInformative = Inr Xi"
    using sX assms(8,9) le pos by (auto simp: Slice_dense_def shaped_def)
  note s = Slice_dense_Inr [OF Xi]
  have dims: "nrows ?y0 = nrows Xi" "ncols Xi = nrows Coef" "ncols ?y0 = ncols Coef"
    using s(5,6) sC by (simp_all add: shaped_def NewDense_def)
  have ck: "MatDimsCheck env ''.'' ?y0 Xi Coef = None"
    using assms(3) dims unfolding check_passes_def by blast
  obtain y1 where y1: "Mul_dense Xi Coef ?y0 = Inr y1"
    using dims by (auto simp: Mul_dense_def NewDense_def)
  have sy1: "shaped (nat nSamples) (nat nTargets) y1"
    using Mul_dense_Inr(2) [OF y1] s(5) sC by (simp add: shaped_def)
  obtain y where y: "add_bias kwargs y1 = Inr y"
    using add_bias_total [OF assms(2) sy1] by blast
  have m: "(if nFeatures < ?nI0 then nFeatures else ?nI0) = nInformative"
    using assms(7) by (simp add: min_def)
  have "MakeRegression env kwargs = Inr (X, y, Coef)"
    by (simp add: MakeRegression_def g a m X C Xi ck y1 y Let_def)
  then show ?thesis by blast
qed

lemma upt_0_numeral: "[0 ..< numeral k] = [0 ..< pred_numeral k] @ [pred_numeral k]"
  by (simp add: numeral_eq_Suc)

section \<open>Claim C1: the result of the training loop is the best snapshot\<close>





section \<open>Claim C2: when the training loop stops and what it reports\<close>

text \<open>
  Claim C2. Take a fit on \<open>n > 0\<close> samples whose epoch budget (the option \<open>Epochs\<close>, or
  \<open>1e6 / n\<close> when it is unset) is positive, with a solver that has not run and
  collaborators that keep shapes. \<open>LinFit\<close> returns a result, without a panic, after at
  least one and at most \<open>budget\<close> epochs. It stops after the first epoch whose test
  \<open>math.Sqrt(rmse) < opts.Tol\<close> passes, where \<open>rmse\<close> is itself the square root of the mean
  squared error of the full-data prediction, or else when the budget is used up: no epoch
  before the last one passed the test, and either the last epoch passed it or the number
  of epochs equals the budget. \<open>Converged\<close> is the outcome of the test in the last epoch,
  and \<open>RMSE\<close> that epoch's \<open>rmse\<close>.
\<close>

theorem LinFit_stops_and_reports:
  assumes "shaped n f X" "shaped n c Y" "0 < n" "0 < f" "0 < c"
    and "TimeStep s0 = 0" "Update s0 = None"
    and "collaborators_ok env n f c"
    and "budget = (if Epochs opts \<le> 0 then 1000000 div int n else Epochs opts)"
    and "1 \<le> budget"
  shows "\<exists>res.
           LinFit env g s0 X Y opts = Inr res \<and>
           LinFit_trace env g s0 X Y opts \<noteq> [] \<and>
           int (length (LinFit_trace env g s0 X Y opts)) \<le> budget \<and>
           Epoch res = 1 + int (length (LinFit_trace env g s0 X Y opts)) \<and>
           (Converged res \<or> int (length (LinFit_trace env g s0 X Y opts)) = budget) \<and>
           Converged res = converged (last (LinFit_trace env g s0 X Y opts)) \<and>
           RMSE res = rmse (last (LinFit_trace env g s0 X Y opts)) \<and>
           (\<forall>s \<in> set (butlast (LinFit_trace env g s0 X Y opts)). \<not> converged s) \<and>
           (\<forall>s \<in> set (LinFit_trace env g s0 X Y opts). evaluated env opts n s)"
proof -
  let ?tr = "LinFit_trace env g s0 X Y opts"
  let ?st0 = "LinFit_start env g s0 X Y"
  have e: "epochs_of (Epochs opts) n = Inr budget"
    using assms(3) unfolding assms(9) by (rule epochs_of_value)
  obtain res stf where r: "LinFit env g s0 X Y opts = Inr res"
    "run_facts env opts n f c budget 1 ?st0 [] ?tr (Epoch res) stf"
    "?tr \<noteq> []" "Converged res = converged stf" "RMSE res = rmse stf"
    using LinFit_run1 [OF assms(1,2,4-8) e assms(10)] by blast
  have a: "Epoch res = 1 + int (length ?tr)" "stf = last (?st0 # ?tr)"
    "\<forall>s \<in> set ?tr. evaluated env opts n s \<and> loop_inv n f c s"
    "\<forall>s \<in> set (butlast (?st0 # ?tr)). \<not> converged s"
    "converged stf \<or> budget < Epoch res"
    "1 \<le> budget + 1 \<longrightarrow> Epoch res \<le> budget + 1"
    using r(2) unfolding run_facts_def by blast+
  have l: "stf = last ?tr" using a(2) r(3) by simp
  have bl: "\<forall>s \<in> set (butlast ?tr). \<not> converged s" using a(4) r(3) by simp
  have le: "int (length ?tr) \<le> budget" using a(1,6) assms(10) by simp
  have stop: "Converged res \<or> int (length ?tr) = budget"
    using a(5) a(1) le r(4) by auto
  have ev: "\<forall>s \<in> set ?tr. evaluated env opts n s" using a(3) by simp
  show ?thesis
    using r(1,3) le a(1) stop r(4,5) l bl ev
    by (intro exI [of _ res]) simp
qed

text \<open>
  Two runs on one sample with the mean squared error 1/16, so \<open>rmse = 1/4\<close> and its
  square root is 1/2. With the tolerance 0.4 the test fails although \<open>rmse\<close> is below
  the tolerance, and the loop runs out of its budget of two epochs; with the tolerance
  0.6 the first epoch passes.
\<close>

lemma demo_facts:
  "shaped 1 1 grad_one" "(0::nat) < 1"
  "TimeStep NewSGDOptimizer = 0" "Update NewSGDOptimizer = None"
  "collaborators_ok demo_env 1 1 1"
  "(2::int) = (if Epochs demo_opts \<le> 0 then 1000000 div int 1 else Epochs demo_opts)"
  "(2::int) = (if Epochs (demo_opts\<lparr>Tol := 3 / 5\<rparr>) \<le> 0 then 1000000 div int 1
               else Epochs (demo_opts\<lparr>Tol := 3 / 5\<rparr>))"
  "(1::int) \<le> 2"
  by (simp_all add: shaped_def grad_one_def NewSGDOptimizer_def zeroSGDOptimizer_def
        collaborators_ok_def demo_env_def NewDense_def demo_opts_def)

lemma demo_run:
  "LinFit demo_env () NewSGDOptimizer grad_one grad_one demo_opts
     = Inr \<lparr>Converged = False, RMSE = Fin (1 / 4), J = Fin 0, Epoch = 3,
            ResTheta = one_by_one 0\<rparr>"
  "LinFit demo_env () NewSGDOptimizer grad_one grad_one (demo_opts\<lparr>Tol := 3 / 5\<rparr>)
     = Inr \<lparr>Converged = True, RMSE = Fin (1 / 4), J = Fin 0, Epoch = 2,
            ResTheta = one_by_one 0\<rparr>"
  by (simp_all add: linfit_eval demo_env_def demo_opts_def NewSGDOptimizer_def update_SGD_def)

theorem LinFit_stops_and_reports_witness:
  "shaped 1 1 grad_one \<and> (0::nat) < 1 \<and>
   TimeStep NewSGDOptimizer = 0 \<and> Update NewSGDOptimizer = None \<and>
   collaborators_ok demo_env 1 1 1 \<and>
   (2::int) = (if Epochs demo_opts \<le> 0 then 1000000 div int 1 else Epochs demo_opts) \<and>
   (2::int) = (if Epochs (demo_opts\<lparr>Tol := 3 / 5\<rparr>) \<le> 0 then 1000000 div int 1
               else Epochs (demo_opts\<lparr>Tol := 3 / 5\<rparr>)) \<and>
   (1::int) \<le> 2 \<and>
   (\<exists>res.
           LinFit demo_env () NewSGDOptimizer grad_one grad_one demo_opts = Inr res \<and>
           LinFit_trace demo_env () NewSGDOptimizer grad_one grad_one demo_opts \<noteq> [] \<and>
           int (length (LinFit_trace demo_env () NewSGDOptimizer grad_one grad_one demo_opts)) \<le> 2 \<and>
           Epoch res = 1 + int (length (LinFit_trace demo_env () NewSGDOptimizer grad_one grad_one demo_opts)) \<and>
           (Converged res \<or> int (length (LinFit_trace demo_env () NewSGDOptimizer grad_one grad_one demo_opts)) = 2) \<and>
           Converged res = converged (last (LinFit_trace demo_env () NewSGDOptimizer grad_one grad_one demo_opts)) \<and>
           RMSE res = rmse (last (LinFit_trace demo_env () NewSGDOptimizer grad_one grad_one demo_opts)) \<and>
           (\<forall>s \<in> set (butlast (LinFit_trace demo_env () NewSGDOptimizer grad_one grad_one demo_opts)). \<not> converged s) \<and>
           (\<forall>s \<in> set (LinFit_trace demo_env () NewSGDOptimizer grad_one grad_one demo_opts). evaluated demo_env demo_opts 1 s)) \<and>
   (\<exists>res.
           LinFit demo_env () NewSGDOptimizer grad_one grad_one (demo_opts\<lparr>Tol := 3 / 5\<rparr>) = Inr res \<and>
           LinFit_trace demo_env () NewSGDOptimizer grad_one grad_one (demo_opts\<lparr>Tol := 3 / 5\<rparr>) \<noteq> [] \<and>
           int (length (LinFit_trace demo_env () NewSGDOptimizer grad_one grad_one (demo_opts\<lparr>Tol := 3 / 5\<rparr>))) \<le> 2 \<and>
           Epoch res = 1 + int (length (LinFit_trace demo_env () NewSGDOptimizer grad_one grad_one (demo_opts\<lparr>Tol := 3 / 5\<rparr>))) \<and>
           (Converged res \<or> int (length (LinFit_trace demo_env () NewSGDOptimizer grad_one grad_one (demo_opts\<lparr>Tol := 3 / 5\<rparr>))) = 2) \<and>
           Converged res = converged (last (LinFit_trace demo_env () NewSGDOptimizer grad_one grad_one (demo_opts\<lparr>Tol := 3 / 5\<rparr>))) \<and>
           RMSE res = rmse (last (LinFit_trace demo_env () NewSGDOptimizer grad_one grad_one (demo_opts\<lparr>Tol := 3 / 5\<rparr>))) \<and>
           (\<forall>s \<in> set (butlast (LinFit_trace demo_env () NewSGDOptimizer grad_one grad_one (demo_opts\<lparr>Tol := 3 / 5\<rparr>))). \<not> converged s) \<and>
           (\<forall>s \<in> set (LinFit_trace demo_env () NewSGDOptimizer grad_one grad_one (demo_opts\<lparr>Tol := 3 / 5\<rparr>)). evaluated demo_env (demo_opts\<lparr>Tol := 3 / 5\<rparr>) 1 s)) \<and>
   LinFit demo_env () NewSGDOptimizer grad_one grad_one demo_opts
     = Inr \<lparr>Converged = False, RMSE = Fin (1 / 4), J = Fin 0, Epoch = 3,
            ResTheta = one_by_one 0\<rparr> \<and>
   LinFit demo_env () NewSGDOptimizer grad_one grad_one (demo_opts\<lparr>Tol := 3 / 5\<rparr>)
     = Inr \<lparr>Converged = True, RMSE = Fin (1 / 4), J = Fin 0, Epoch = 2,
            ResTheta = one_by_one 0\<rparr>"
proof -
  note LinFit_stops_and_reports
    [OF demo_facts(1) demo_facts(1) demo_facts(2) demo_facts(2) demo_facts(2)
        demo_facts(3-6) demo_facts(8), of "()"]
    LinFit_stops_and_reports
    [OF demo_facts(1) demo_facts(1) demo_facts(2) demo_facts(2) demo_facts(2)
        demo_facts(3-5) demo_facts(7) demo_facts(8), of "()"]
  with demo_facts demo_run show ?thesis by (intro conjI)
qed

section \<open>Claim C3: what \<open>GetUpdate\<close> does to the optimizer\<close>

text \<open>
  Two calls of \<open>GetUpdate\<close> on a fresh plain-SGD optimizer (default step size and
  momentum), with the one-by-one gradient \<open>[[1]]\<close> both times and no call of
  \<open>UpdateParams\<close> in between.
\<close>

lemmas sgd_eval =
  GetUpdate_def begin_step_def NewSGDOptimizer_def zeroSGDOptimizer_def first_call_alloc_def
  NewDense_def Let_def compute_norms_def variant_update_def update_SGD_def Apply_def
  gradientClipped_def At_def apply_momentum_def clone_prev_def deref_def SetTheta_def
  grad_one_def sgd_fresh_def sgd_update1_def sgd_update2_def sgd_state1_def sgd_state2_def

lemma sgd_first_call: "GetUpdate sgd_fresh (NewDense 1 1) grad_one = Inr (sgd_state1, sgd_update1)"
  by (simp add: sgd_eval)

lemma sgd_second_call: "GetUpdate sgd_state1 sgd_update1 grad_one = Inr (sgd_state2, sgd_update2)"
  by (simp add: sgd_eval)

lemma sgd_updates_differ: "sgd_update1 \<noteq> sgd_update2"
proof -
  have "sqrt 2 < sqrt (4::real)" by (rule real_sqrt_less_mono) simp
  then have lt: "sqrt 2 < 2" by simp
  have pos: "0 < sqrt 2" by simp
  have "10200 * sqrt 2 < 101000" using lt by simp
  then have "1 / 101000 < 1 / (10200 * sqrt 2)"
    using pos by (intro divide_strict_left_mono) simp_all
  moreover have "- (1 / 10100) = - (9 / 101000) - 1 / (101000::real)" by simp
  ultimately have "- (1 / 10100) \<noteq> - (9 / 101000) - 1 / (10200 * sqrt 2)" by linarith
  then show ?thesis by (simp add: sgd_update1_def sgd_update2_def)
qed

text \<open>
  Claim C3, as amended. \<open>GetUpdate\<close> is the stateful step of the rule: whenever it
  returns, \<open>Theta\<close> is untouched and the time step has advanced by exactly one.
  (The accumulators and \<open>PrevUpdate\<close> are rewritten as well, so a second call with the
  same gradient runs at the next time step.)
\<close>

theorem getUpdate_steps:
  assumes "GetUpdate s update grad = Inr (s', update')"
  shows "Theta s' = Theta s \<and> GetTimeStep s' = GetTimeStep s + 1"
  using GetUpdate_fixed [OF assms] by (simp add: same_fixed_def GetTimeStep_def)

text \<open>The hypothesis of \<open>getUpdate_steps\<close> holds for the first call above.\<close>

theorem getUpdate_steps_witness:
  "GetUpdate sgd_fresh (NewDense 1 1) grad_one = Inr (sgd_state1, sgd_update1) \<and>
   Theta sgd_state1 = Theta sgd_fresh \<and> GetTimeStep sgd_state1 = GetTimeStep sgd_fresh + 1"
  using getUpdate_steps [OF sgd_first_call] sgd_first_call by simp

text \<open>
  Claim C3 as stated (two calls with the same gradient give identical update matrices and
  do not advance the time step) fails: the two update matrices differ, and the time step
  goes from 0 to 1 to 2.
\<close>

theorem getUpdate_twice_counterexample:
  "GetUpdate sgd_fresh (NewDense 1 1) grad_one = Inr (sgd_state1, sgd_update1) \<and>
   GetUpdate sgd_state1 sgd_update1 grad_one = Inr (sgd_state2, sgd_update2) \<and>
   sgd_update1 \<noteq> sgd_update2 \<and>
   GetTimeStep sgd_fresh = 0 \<and> GetTimeStep sgd_state1 = 1 \<and> GetTimeStep sgd_state2 = 2"
  using sgd_first_call sgd_second_call sgd_updates_differ
  by (simp add: GetTimeStep_def sgd_state1_def sgd_state2_def sgd_fresh_def SetTheta_def
        NewSGDOptimizer_def zeroSGDOptimizer_def)

section \<open>Claim C4: gradient clipping\<close>

text \<open>
  Claim C4, in exact arithmetic. Take an optimizer that has not run or whose buffers fit
  the shape of the gradient, and the caller's update matrix, empty or of that shape. The
  clipped gradient is the matrix \<open>clipped_gradient\<close>: the entries of a column whose L2 norm
  \<open>n\<close> exceeds a positive \<open>GradientClipping\<close> are multiplied by \<open>GradientClipping / n\<close>, all
  other entries are kept. Then the norm stage of \<open>GetUpdate\<close> succeeds and the closure
  \<open>gradientClipped\<close> returns the entries of the clipped gradient. \<open>GetUpdate\<close> returns, and
  the update matrix and the state it leaves are the ones \<open>GetUpdate\<close> computes from the
  clipped gradient with clipping switched off (up to the clipping fields themselves):
  whichever variant is set, the update is computed from the clipped gradient and from
  nothing else of the gradient. With clipping enabled every column of the clipped
  gradient has L2 norm at most \<open>GradientClipping\<close>; with clipping disabled the clipped
  gradient is the gradient.
\<close>

theorem gradient_clipping:
  assumes "0 < TimeStep s \<longrightarrow> buffers_ok r c s" "shaped r c grad"
    and "ncols update = 0 \<or> shaped r c update"
  shows "\<exists>s2 s' u.
           compute_norms (begin_step s grad) grad = Inr s2 \<and>
           (\<forall>i < r. \<forall>j < c.
              gradientClipped s2 grad i j
                = Inr (entry (clipped_gradient (GradientClipping s) grad) i j)) \<and>
           GetUpdate s update grad = Inr (s', u) \<and>
           GetUpdate (s\<lparr>GradientClipping := 0\<rparr>) update
               (clipped_gradient (GradientClipping s) grad)
             = Inr (s'\<lparr>GradientClipping := 0, GtNorm := GtNorm s\<rparr>, u) \<and>
           (0 < GradientClipping s \<longrightarrow>
              (\<forall>j < c. col_l2 (clipped_gradient (GradientClipping s) grad) j
                          \<le> GradientClipping s)) \<and>
           (GradientClipping s \<le> 0 \<longrightarrow> clipped_gradient (GradientClipping s) grad = grad)"
proof -
  let ?C = "GradientClipping s"
  let ?cg = "clipped_gradient ?C grad"
  let ?s1 = "begin_step s grad"
  let ?eta = "StepSize ?s1 * 100 / (100 + real (TimeStep ?s1))"
  have d: "nrows grad = r" "ncols grad = c" "length (elems grad) = nrows grad * ncols grad"
    using assms(2) by (simp_all add: shaped_def)
  obtain s' u where g: "GetUpdate s update grad = Inr (s', u)"
    using GetUpdate_total [OF assms] by blast
  then obtain s2 s3 upd where
    a: "compute_norms ?s1 grad = Inr s2"
    and b: "variant_update s2 ?eta update grad = Inr (s3, upd)"
    and m: "apply_momentum s3 upd = Inr u"
    and p: "clone_prev s3 u = Inr s'"
    unfolding GetUpdate_Inr_iff by (elim exE conjE)
  have b1: "buffers_ok r c ?s1" using assms(1) d(1,2) by (rule begin_step_buffers)
  have C1: "GradientClipping ?s1 = ?C" by (rule begin_step_clipping)
  have f2: "same_fixed ?s1 s2" using a by (rule compute_norms_fixed)
  have C2: "GradientClipping s2 = ?C" using f2 C1 by (simp add: same_fixed_def)
  have nm: "0 < GradientClipping s2 \<longrightarrow>
              (\<exists>gn. GtNorm s2 = Some gn \<and> shaped (ncols grad) 1 gn \<and>
                    (\<forall>j < ncols grad. elems gn ! j = col_l2 grad j))"
    using compute_norms_value [OF b1 d(2)] a C1 C2 d(2) by auto
  let ?T = "s2\<lparr>GradientClipping := 0, GtNorm := GtNorm s\<rparr>"
  have gc: "gradientClipped ?T ?cg i j = gradientClipped s2 grad i j" for i j
    using gradientClipped_sim [where t = ?T and s = s2 and grad = grad and i = i and j = j] nm C2 by simp
  have cl: "\<forall>i < r. \<forall>j < c. gradientClipped s2 grad i j = Inr (entry ?cg i j)"
  proof (intro allI impI)
    fix i j assume ij: "i < r" "j < c"
    have "gradientClipped s2 grad i j = Inr (clip ?C (col_l2 grad j) (entry grad i j))"
      using gradientClipped_value [of i grad j s2] ij d(1,2) nm C2 by auto
    then show "gradientClipped s2 grad i j = Inr (entry ?cg i j)"
      using ij d(1,2) by (simp add: clipped_gradient_entry)
  qed
  have bs: "begin_step (s\<lparr>GradientClipping := 0\<rparr>) ?cg = ?T"
  proof -
    have "begin_step (s\<lparr>GradientClipping := 0\<rparr>) ?cg
            = ?s1\<lparr>GradientClipping := 0, GtNorm := GtNorm s\<rparr>"
      by (rule begin_step_unclipped) simp_all
    also have "\<dots> = (?s1\<lparr>GtNorm := GtNorm s\<rparr>)\<lparr>GradientClipping := 0\<rparr>" by simp
    also have "?s1\<lparr>GtNorm := GtNorm s\<rparr> = s2\<lparr>GtNorm := GtNorm s\<rparr>"
      using compute_norms_GtNorm [OF a] by simp
    also have "(s2\<lparr>GtNorm := GtNorm s\<rparr>)\<lparr>GradientClipping := 0\<rparr> = ?T" by simp
    finally show ?thesis .
  qed
  have eta: "StepSize ?T * 100 / (100 + real (TimeStep ?T)) = ?eta"
    using f2 by (simp add: same_fixed_def)
  have cn: "compute_norms ?T ?cg = Inr ?T" by (rule compute_norms_unclipped) simp
  have vu: "variant_update ?T ?eta update ?cg
              = Inr (s3\<lparr>GradientClipping := 0, GtNorm := GtNorm s\<rparr>, upd)"
    using variant_update_sim [where s = s2 and a = 0 and b = "GtNorm s" and g' = ?cg and g = grad
        and eta = ?eta and u = update] gc b by simp
  have am: "apply_momentum (s3\<lparr>GradientClipping := 0, GtNorm := GtNorm s\<rparr>) upd = Inr u"
    using m by (simp add: apply_momentum_sim)
  have cp: "clone_prev (s3\<lparr>GradientClipping := 0, GtNorm := GtNorm s\<rparr>) u
              = Inr (s'\<lparr>GradientClipping := 0, GtNorm := GtNorm s\<rparr>)"
    using p by (simp add: clone_prev_sim)
  have g': "GetUpdate (s\<lparr>GradientClipping := 0\<rparr>) update ?cg
              = Inr (s'\<lparr>GradientClipping := 0, GtNorm := GtNorm s\<rparr>, u)"
    unfolding GetUpdate_Inr_iff bs eta using cn vu am cp by blast
  have nb: "0 < ?C \<longrightarrow> (\<forall>j < c. col_l2 ?cg j \<le> ?C)"
    using clipped_gradient_norm [of ?C _ grad] d(2) by simp
  have ds: "?C \<le> 0 \<longrightarrow> ?cg = grad"
    using clipped_gradient_disabled [OF _ d(3)] by simp
  show ?thesis using a cl g g' nb ds by (intro exI conjI)
qed

text \<open>
  A gradient column of norm five million with the Adagrad constructor (threshold 10),
  where the clipped column is \<open>[6, 8]\<close> of norm 10, and with the plain SGD constructor
  (clipping disabled).
\<close>

lemma col_l2_big: "col_l2 grad_big 0 = 5000000"
proof -
  have "sqrt (25000000000000::real) = 5000000"
    by (rule real_sqrt_unique) (simp_all add: power2_eq_square)
  then show ?thesis
    by (simp add: col_l2_def grad_big_def entry_def numeral_2_eq_2)
qed

lemma clipped_big:
  "clipped_gradient 10 grad_big = \<lparr>nrows = 2, ncols = 1, elems = [6, 8]\<rparr>"
proof -
  have "clipped_gradient 10 grad_big
          = \<lparr>nrows = 2, ncols = 1,
             elems = [clip 10 (col_l2 grad_big 0) 3000000, clip 10 (col_l2 grad_big 0) 4000000]\<rparr>"
    by (simp add: clipped_gradient_def grad_big_def numeral_2_eq_2)
  then show ?thesis by (simp add: col_l2_big clip_def)
qed

lemma col_l2_clipped_big: "col_l2 \<lparr>nrows = 2, ncols = 1, elems = [6, 8]\<rparr> 0 = 10"
proof -
  have "sqrt (100::real) = 10"
    by (rule real_sqrt_unique) (simp_all add: power2_eq_square)
  then show ?thesis by (simp add: col_l2_def entry_def numeral_2_eq_2)
qed

lemma clipping_facts:
  "TimeStep NewAdagradOptimizer = 0" "GradientClipping NewAdagradOptimizer = 10"
  "TimeStep NewSGDOptimizer = 0" "GradientClipping NewSGDOptimizer = 0"
  "shaped 2 1 grad_big" "ncols (NewDense 2 1) = 0 \<or> shaped 2 1 (NewDense 2 1)"
  by (simp_all add: NewAdagradOptimizer_def NewSGDOptimizer_def zeroSGDOptimizer_def
        shaped_def grad_big_def NewDense_def)

theorem gradient_clipping_witness:
  "TimeStep NewAdagradOptimizer = 0 \<and> GradientClipping NewAdagradOptimizer = 10 \<and>
   TimeStep NewSGDOptimizer = 0 \<and> GradientClipping NewSGDOptimizer = 0 \<and>
   shaped 2 1 grad_big \<and> (ncols (NewDense 2 1) = 0 \<or> shaped 2 1 (NewDense 2 1)) \<and>
   (\<exists>s2 s' u.
           compute_norms (begin_step NewAdagradOptimizer grad_big) grad_big = Inr s2 \<and>
           (\<forall>i < 2. \<forall>j < 1.
              gradientClipped s2 grad_big i j
                = Inr (entry (clipped_gradient (GradientClipping NewAdagradOptimizer) grad_big) i j)) \<and>
           GetUpdate NewAdagradOptimizer (NewDense 2 1) grad_big = Inr (s', u) \<and>
           GetUpdate (NewAdagradOptimizer\<lparr>GradientClipping := 0\<rparr>) (NewDense 2 1)
               (clipped_gradient (GradientClipping NewAdagradOptimizer) grad_big)
             = Inr (s'\<lparr>GradientClipping := 0, GtNorm := GtNorm NewAdagradOptimizer\<rparr>, u) \<and>
           (0 < GradientClipping NewAdagradOptimizer \<longrightarrow>
              (\<forall>j < 1. col_l2 (clipped_gradient (GradientClipping NewAdagradOptimizer) grad_big) j
                          \<le> GradientClipping NewAdagradOptimizer)) \<and>
           (GradientClipping NewAdagradOptimizer \<le> 0 \<longrightarrow> clipped_gradient (GradientClipping NewAdagradOptimizer) grad_big = grad_big)) \<and>
   (\<exists>s2 s' u.
           compute_norms (begin_step NewSGDOptimizer grad_big) grad_big = Inr s2 \<and>
           (\<forall>i < 2. \<forall>j < 1.
              gradientClipped s2 grad_big i j
                = Inr (entry (clipped_gradient (GradientClipping NewSGDOptimizer) grad_big) i j)) \<and>
           GetUpdate NewSGDOptimizer (NewDense 2 1) grad_big = Inr (s', u) \<and>
           GetUpdate (NewSGDOptimizer\<lparr>GradientClipping := 0\<rparr>) (NewDense 2 1)
               (clipped_gradient (GradientClipping NewSGDOptimizer) grad_big)
             = Inr (s'\<lparr>GradientClipping := 0, GtNorm := GtNorm NewSGDOptimizer\<rparr>, u) \<and>
           (0 < GradientClipping NewSGDOptimizer \<longrightarrow>
              (\<forall>j < 1. col_l2 (clipped_gradient (GradientClipping NewSGDOptimizer) grad_big) j
                          \<le> GradientClipping NewSGDOptimizer)) \<and>
           (GradientClipping NewSGDOptimizer \<le> 0 \<longrightarrow> clipped_gradient (GradientClipping NewSGDOptimizer) grad_big = grad_big)) \<and>
   clipped_gradient 10 grad_big = \<lparr>nrows = 2, ncols = 1, elems = [6, 8]\<rparr> \<and>
   col_l2 \<lparr>nrows = 2, ncols = 1, elems = [6, 8]\<rparr> 0 = 10"
proof -
  have h1: "0 < TimeStep NewAdagradOptimizer \<longrightarrow> buffers_ok 2 1 NewAdagradOptimizer"
    using clipping_facts(1) by simp
  have h2: "0 < TimeStep NewSGDOptimizer \<longrightarrow> buffers_ok 2 1 NewSGDOptimizer"
    using clipping_facts(3) by simp
  note gradient_clipping [OF h1 clipping_facts(5,6)] gradient_clipping [OF h2 clipping_facts(5,6)]
  with clipping_facts clipped_big col_l2_clipped_big show ?thesis by (intro conjI)
qed

text \<open>
  Claim C4 as stated fails in \<open>float64\<close> arithmetic. For the column \<open>[2, 10]\<close> and the
  threshold 10 of the Adagrad constructor, the stored norm is \<open>sqrt 104\<close> rounded, the
  factor \<open>10 / norm\<close> is rounded to 0.9805806756909202, and the two products are rounded
  to 1.9611613513818404 and 9.805806756909202. The L2 norm of that column is larger
  than 10, and so is its norm as \<open>colNorm\<close> computes it, 10.000000000000002. Every
  product and sum is rounded on its own here; in the norm of the gradient itself the
  squares 4 and 100 and their sum are exact, so that norm does not depend on it.
\<close>

theorem gradient_clipping_counterexample:
  "GradientClipping NewAdagradOptimizer = 10 \<and>
   compute_norms64 (begin_step NewAdagradOptimizer grad_two_ten) grad_two_ten = Inr clip_state \<and>
   gradientClipped64 clip_state grad_two_ten 0 0 = Inr (8832285531296675 / 2 ^ 52) \<and>
   gradientClipped64 clip_state grad_two_ten 1 0 = Inr (5520178457060422 / 2 ^ 49) \<and>
   10 < sqrt ((8832285531296675 / 2 ^ 52) * (8832285531296675 / 2 ^ 52)
              + (5520178457060422 / 2 ^ 49) * (5520178457060422 / 2 ^ 49)) \<and>
   colNorm64 clipped_two_ten 0 = Inr (5629499534213121 / 2 ^ 49) \<and>
   (10::real) < 5629499534213121 / 2 ^ 49"
proof -
  have "GradientClipping NewAdagradOptimizer = 10"
    by (simp add: NewAdagradOptimizer_def NewSGDOptimizer_def zeroSGDOptimizer_def)
  moreover have "10 < sqrt ((8832285531296675 / 2 ^ 52) * (8832285531296675 / 2 ^ 52)
              + (5520178457060422 / 2 ^ 49) * (5520178457060422 / 2 ^ 49))"
    by (rule real_less_rsqrt) (simp add: power2_eq_square)
  moreover have "(10::real) < 5629499534213121 / 2 ^ 49" by simp
  ultimately show ?thesis
    using compute_norms64_two_ten gradientClipped64_two_ten colNorm64_clipped by (intro conjI)
qed

section \<open>Claim C5: the aggregate \<open>converged\<close> of the per-output fit\<close>

text \<open>
  Claim C5 on two columns, the second of which reports \<open>optimize.Failure\<close> (with its
  error): the collecting loop folds the failure into \<open>converged\<close>, but the assignment
  \<open>converged = err == nil\<close> after the loop reads a variable that this path never sets, so
  the result says \<open>Converged = True\<close> although not all columns are free of failure.
\<close>

theorem LinFitGOM_failure_reported_converged:
  "LinFitGOM_perOutput (NewDense 1 2) 2 gom_received
     = Inr \<lparr>Converged = True, RMSE = Fin 1, J = Fin 0, Epoch = 8,
            ResTheta = \<lparr>nrows = 1, ncols = 2, elems = [1, 2]\<rparr>\<rparr> \<and>
   \<not> all_columns_ok gom_received"
  by (simp add: LinFitGOM_perOutput_def gom_received_def NewDense_def SetCol_def bind_res_def
        all_columns_ok_def upt_conv_Cons)

section \<open>Claim C6: the Adam update\<close>

lemmas adam_eval =
  GetUpdate_def begin_step_def NewAdamOptimizer_def zeroSGDOptimizer_def first_call_alloc_def
  NewDense_def Let_def compute_norms_def variant_update_def update_Adam_def Apply_def Scale_def
  gradientClipped_def At_def apply_momentum_def clone_prev_def deref_def SetTheta_def reuseAs_def
  grad_one_def adam_fresh_def adam_update1_def adam_update2_def adam_state1_def adam_state2_def
  one_by_one_def

lemma adam_first_call:
  "GetUpdate adam_fresh (NewDense 1 1) grad_one = Inr (adam_state1, adam_update1)"
  by (simp add: adam_eval)

lemma adam_second_call:
  "GetUpdate adam_state1 adam_update1 grad_one = Inr (adam_state2, adam_update2)"
  by (simp add: adam_eval)

lemma adam_state1_flags:
  "Adam adam_state1" "\<not> RMSProp adam_state1" "\<not> Adagrad adam_state1" "\<not> Adadelta adam_state1"
  by (simp_all add: adam_eval)

lemma adam_plain_first_call:
  "GetUpdate adam_plain (NewDense 1 1) grad_one = Inr (adam_plain1, adam_update1)"
  by (simp add: adam_eval adam_plain_def adam_plain1_def)

lemma adam_plain_second_call:
  "GetUpdate adam_plain1 adam_update1 grad_one = Inr (adam_plain2, adam_update1)"
  by (simp add: adam_eval adam_plain_def adam_plain1_def adam_plain2_def)

lemma adam_plain1_flags:
  "Adam adam_plain1" "\<not> RMSProp adam_plain1" "\<not> Adagrad adam_plain1" "\<not> Adadelta adam_plain1"
  by (simp_all add: adam_eval adam_plain_def adam_plain1_def)

text \<open>
  Claim C6. With only the Adam flag set, a call of \<open>GetUpdate\<close> that returns has
  computed, at every entry \<open>(i, j)\<close> and with \<open>g'\<close> the clipped gradient there,
  \<open>Mt = \<beta>1 * Mt + (1 - \<beta>1) * g'\<close>, \<open>Vt = \<beta>2 * Vt + (1 - \<beta>2) * g' * g'\<close>,
  \<open>Mtcap = Mt / (1 - \<beta>1 ^ t)\<close> and \<open>Vtcap = Vt / (1 - \<beta>2 ^ t)\<close> with \<open>t\<close> the time step
  after the increment, and the Adam update \<open>- StepSize * Mtcap / (sqrt Vtcap + Epsilon)\<close>.
  That value is the entry of the update matrix when \<open>Momentum\<close> is not positive, as the
  Adam constructor leaves it. The momentum block, which follows the branch of every
  variant, adds \<open>Momentum\<close> times the previous update to it when \<open>Momentum\<close> was set to a
  positive value.
\<close>

theorem Adam_update:
  assumes "Adam s" "\<not> RMSProp s" "\<not> Adagrad s" "\<not> Adadelta s"
    and "GetUpdate s update grad = Inr (s', update')"
    and "i < nrows grad" "j < ncols grad"
  shows "\<exists>s2 mt vt m v g' mt' vt' mc' vc' Mt_ij Vt_ij Mtcap_ij Vtcap_ij.
           compute_norms (begin_step s grad) grad = Inr s2 \<and>
           gradientClipped s2 grad i j = Inr g' \<and>
           Mt s2 = Some mt \<and> At (reuseAs mt grad) i j = Inr m \<and>
           Vt s2 = Some vt \<and> At (reuseAs vt grad) i j = Inr v \<and>
           Mt s' = Some mt' \<and> At mt' i j = Inr Mt_ij \<and>
           Mt_ij = Beta1 s * m + (1 - Beta1 s) * g' \<and>
           Vt s' = Some vt' \<and> At vt' i j = Inr Vt_ij \<and>
           Vt_ij = Beta2 s * v + (1 - Beta2 s) * g' * g' \<and>
           Mtcap s' = Some mc' \<and> At mc' i j = Inr Mtcap_ij \<and>
           Mtcap_ij = Mt_ij / (1 - Beta1 s ^ (GetTimeStep s + 1)) \<and>
           Vtcap s' = Some vc' \<and> At vc' i j = Inr Vtcap_ij \<and>
           Vtcap_ij = Vt_ij / (1 - Beta2 s ^ (GetTimeStep s + 1)) \<and>
           (if 0 < Momentum s
            then \<exists>p pu. PrevUpdate s2 = Some p \<and> At p i j = Inr pu \<and>
                   At update' i j
                     = Inr (Momentum s * pu
                            + - StepSize s * Mtcap_ij / (sqrt Vtcap_ij + Epsilon s))
            else At update' i j = Inr (- StepSize s * Mtcap_ij / (sqrt Vtcap_ij + Epsilon s)))"
proof -
  let ?s1 = "begin_step s grad"
  from assms(5) obtain s2 s3 upd where
    a: "compute_norms ?s1 grad = Inr s2"
    and b: "variant_update s2 (StepSize ?s1 * 100 / (100 + real (TimeStep ?s1)))
              update grad = Inr (s3, upd)"
    and c: "apply_momentum s3 upd = Inr update'"
    and d: "clone_prev s3 update' = Inr s'"
    unfolding GetUpdate_Inr_iff by (elim exE conjE)
  have f2: "same_fixed (s\<lparr>TimeStep := TimeStep s + 1\<rparr>) s2"
    using begin_step_fixed(2) [of s grad] compute_norms_fixed [OF a]
    by (rule same_fixed_trans)
  have cfg: "Adam s2" "\<not> RMSProp s2" "\<not> Adagrad s2" "\<not> Adadelta s2"
    "Beta1 s2 = Beta1 s" "Beta2 s2 = Beta2 s" "StepSize s2 = StepSize s"
    "Epsilon s2 = Epsilon s" "TimeStep s2 = GetTimeStep s + 1"
    using f2 assms(1-4) by (simp_all add: same_fixed_def GetTimeStep_def)
  have f3: "same_fixed s2 s3" using b by (rule variant_update_fixed)
  have m3: "Momentum s3 = Momentum s" using f2 f3 by (simp add: same_fixed_def)
  have ad: "update_Adam s2 update grad = Inr (s3, upd)"
    using b cfg(1-4) by (simp add: variant_update_def)
  obtain mt vt m v g' mt' vt' mc' vc' where
    e: "Mt s2 = Some mt" "At (reuseAs mt grad) i j = Inr m"
       "Vt s2 = Some vt" "At (reuseAs vt grad) i j = Inr v"
       "gradientClipped s2 grad i j = Inr g'"
       "Mt s3 = Some mt'" "Vt s3 = Some vt'" "Mtcap s3 = Some mc'" "Vtcap s3 = Some vc'"
       "PrevUpdate s3 = PrevUpdate s2"
       "At mt' i j = Inr (Beta1 s2 * m + (1 - Beta1 s2) * g')"
       "At vt' i j = Inr (Beta2 s2 * v + (1 - Beta2 s2) * g' * g')"
       "At mc' i j = Inr (1 / (1 - Beta1 s2 ^ TimeStep s2) * (Beta1 s2 * m + (1 - Beta1 s2) * g'))"
       "At vc' i j = Inr (1 / (1 - Beta2 s2 ^ TimeStep s2) * (Beta2 s2 * v + (1 - Beta2 s2) * g' * g'))"
       "At upd i j = Inr (- StepSize s2
                * (1 / (1 - Beta1 s2 ^ TimeStep s2) * (Beta1 s2 * m + (1 - Beta1 s2) * g'))
                / (sqrt (1 / (1 - Beta2 s2 ^ TimeStep s2) * (Beta2 s2 * v + (1 - Beta2 s2) * g' * g'))
                   + Epsilon s2))"
    using update_Adam_entries [OF ad assms(6,7)] by blast
  let ?Mt = "Beta1 s * m + (1 - Beta1 s) * g'"
  let ?Vt = "Beta2 s * v + (1 - Beta2 s) * g' * g'"
  let ?Mc = "?Mt / (1 - Beta1 s ^ (GetTimeStep s + 1))"
  let ?Vc = "?Vt / (1 - Beta2 s ^ (GetTimeStep s + 1))"
  have s': "s' = s3\<lparr>PrevUpdate := Some update'\<rparr>" using d by (rule clone_prev_Inr)
  have post: "Mt s' = Some mt'" "Vt s' = Some vt'" "Mtcap s' = Some mc'" "Vtcap s' = Some vc'"
    using s' e(6-9) by simp_all
  have v1: "At mt' i j = Inr ?Mt" using e(11) cfg by simp
  have v2: "At vt' i j = Inr ?Vt" using e(12) cfg by simp
  have v3: "At mc' i j = Inr ?Mc" using e(13) cfg by simp
  have v4: "At vc' i j = Inr ?Vc" using e(14) cfg by simp
  have v5: "At upd i j = Inr (- StepSize s * ?Mc / (sqrt ?Vc + Epsilon s))"
    using e(15) cfg by simp
  have mo: "if 0 < Momentum s
            then \<exists>p pu. PrevUpdate s2 = Some p \<and> At p i j = Inr pu \<and>
                   At update' i j
                     = Inr (Momentum s * pu + - StepSize s * ?Mc / (sqrt ?Vc + Epsilon s))
            else At update' i j = Inr (- StepSize s * ?Mc / (sqrt ?Vc + Epsilon s))"
  proof (cases "0 < Momentum s")
    case True
    then have "0 < Momentum s3" using m3 by simp
    from apply_momentum_on [OF c v5 this]
    have "\<exists>p pu. PrevUpdate s2 = Some p \<and> At p i j = Inr pu \<and>
                   At update' i j
                     = Inr (Momentum s * pu + - StepSize s * ?Mc / (sqrt ?Vc + Epsilon s))"
      unfolding m3 e(10) .
    with True show ?thesis by (simp only: if_True)
  next
    case False
    then have "\<not> 0 < Momentum s3" using m3 by simp
    from apply_momentum_off [OF c this] have "update' = upd" .
    with v5 have "At update' i j = Inr (- StepSize s * ?Mc / (sqrt ?Vc + Epsilon s))"
      by (simp only:)
    with False show ?thesis by (simp only: if_False)
  qed
  show ?thesis
    using a e(5) e(1-4) post v1 v2 v3 v4 mo by blast
qed

text \<open>
  The second call with the gradient \<open>[[1]]\<close> on the optimizer \<open>NewAdamOptimizer\<close> returns,
  and on the same optimizer with \<open>Momentum\<close> set to 0.9.
\<close>

theorem Adam_update_witness:
  "(0::nat) < nrows grad_one \<and> (0::nat) < ncols grad_one \<and>
   Momentum adam_plain1 = 0 \<and> Momentum adam_state1 = 9 / 10 \<and>
   Adam adam_plain1 \<and> \<not> RMSProp adam_plain1 \<and> \<not> Adagrad adam_plain1 \<and>
   \<not> Adadelta adam_plain1 \<and>
   GetUpdate adam_plain1 adam_update1 grad_one = Inr (adam_plain2, adam_update1) \<and>
   (\<exists>s2 mt vt m v g' mt' vt' mc' vc' Mt_ij Vt_ij Mtcap_ij Vtcap_ij.
           compute_norms (begin_step adam_plain1 grad_one) grad_one = Inr s2 \<and>
           gradientClipped s2 grad_one 0 0 = Inr g' \<and>
           Mt s2 = Some mt \<and> At (reuseAs mt grad_one) 0 0 = Inr m \<and>
           Vt s2 = Some vt \<and> At (reuseAs vt grad_one) 0 0 = Inr v \<and>
           Mt adam_plain2 = Some mt' \<and> At mt' 0 0 = Inr Mt_ij \<and>
           Mt_ij = Beta1 adam_plain1 * m + (1 - Beta1 adam_plain1) * g' \<and>
           Vt adam_plain2 = Some vt' \<and> At vt' 0 0 = Inr Vt_ij \<and>
           Vt_ij = Beta2 adam_plain1 * v + (1 - Beta2 adam_plain1) * g' * g' \<and>
           Mtcap adam_plain2 = Some mc' \<and> At mc' 0 0 = Inr Mtcap_ij \<and>
           Mtcap_ij = Mt_ij / (1 - Beta1 adam_plain1 ^ (GetTimeStep adam_plain1 + 1)) \<and>
           Vtcap adam_plain2 = Some vc' \<and> At vc' 0 0 = Inr Vtcap_ij \<and>
           Vtcap_ij = Vt_ij / (1 - Beta2 adam_plain1 ^ (GetTimeStep adam_plain1 + 1)) \<and>
           (if 0 < Momentum adam_plain1
            then \<exists>p pu. PrevUpdate s2 = Some p \<and> At p 0 0 = Inr pu \<and>
                   At adam_update1 0 0
                     = Inr (Momentum adam_plain1 * pu
                            + - StepSize adam_plain1 * Mtcap_ij
                                / (sqrt Vtcap_ij + Epsilon adam_plain1))
            else At adam_update1 0 0
                   = Inr (- StepSize adam_plain1 * Mtcap_ij
                            / (sqrt Vtcap_ij + Epsilon adam_plain1)))) \<and>
   Adam adam_state1 \<and> \<not> RMSProp adam_state1 \<and> \<not> Adagrad adam_state1 \<and>
   \<not> Adadelta adam_state1 \<and>
   GetUpdate adam_state1 adam_update1 grad_one = Inr (adam_state2, adam_update2) \<and>
   (\<exists>s2 mt vt m v g' mt' vt' mc' vc' Mt_ij Vt_ij Mtcap_ij Vtcap_ij.
           compute_norms (begin_step adam_state1 grad_one) grad_one = Inr s2 \<and>
           gradientClipped s2 grad_one 0 0 = Inr g' \<and>
           Mt s2 = Some mt \<and> At (reuseAs mt grad_one) 0 0 = Inr m \<and>
           Vt s2 = Some vt \<and> At (reuseAs vt grad_one) 0 0 = Inr v \<and>
           Mt adam_state2 = Some mt' \<and> At mt' 0 0 = Inr Mt_ij \<and>
           Mt_ij = Beta1 adam_state1 * m + (1 - Beta1 adam_state1) * g' \<and>
           Vt adam_state2 = Some vt' \<and> At vt' 0 0 = Inr Vt_ij \<and>
           Vt_ij = Beta2 adam_state1 * v + (1 - Beta2 adam_state1) * g' * g' \<and>
           Mtcap adam_state2 = Some mc' \<and> At mc' 0 0 = Inr Mtcap_ij \<and>
           Mtcap_ij = Mt_ij / (1 - Beta1 adam_state1 ^ (GetTimeStep adam_state1 + 1)) \<and>
           Vtcap adam_state2 = Some vc' \<and> At vc' 0 0 = Inr Vtcap_ij \<and>
           Vtcap_ij = Vt_ij / (1 - Beta2 adam_state1 ^ (GetTimeStep adam_state1 + 1)) \<and>
           (if 0 < Momentum adam_state1
            then \<exists>p pu. PrevUpdate s2 = Some p \<and> At p 0 0 = Inr pu \<and>
                   At adam_update2 0 0
                     = Inr (Momentum adam_state1 * pu
                            + - StepSize adam_state1 * Mtcap_ij
                                / (sqrt Vtcap_ij + Epsilon adam_state1))
            else At adam_update2 0 0
                   = Inr (- StepSize adam_state1 * Mtcap_ij
                            / (sqrt Vtcap_ij + Epsilon adam_state1))))"
proof -
  have r: "(0::nat) < nrows grad_one" and c: "(0::nat) < ncols grad_one"
    by (simp_all add: grad_one_def)
  have m: "Momentum adam_plain1 = 0" "Momentum adam_state1 = 9 / 10"
    by (simp_all add: adam_eval adam_plain_def adam_plain1_def)
  note Adam_update [OF adam_plain1_flags adam_plain_second_call r c]
    Adam_update [OF adam_state1_flags adam_second_call r c]
  with r c m adam_plain1_flags adam_plain_second_call adam_state1_flags adam_second_call
  show ?thesis by (intro conjI)
qed

section \<open>Claim C7: the time step counts the update calls\<close>

text \<open>
  Claim C7. Take any optimizer that has not run yet (time step zero, no update buffer),
  whatever its variant flags and hyper-parameters, bind it to an \<open>r\<close> by \<open>c\<close> parameter
  matrix and call \<open>UpdateParams\<close> once per gradient of a list of \<open>r\<close> by \<open>c\<close>
  gradients. No call panics, and after the first \<open>n\<close> calls \<open>GetTimeStep\<close> returns
  \<open>n\<close>, for every \<open>n\<close> up to the length of the list.
\<close>

theorem TimeStep_counts_updates:
  assumes "TimeStep s0 = 0" "Update s0 = None" "shaped r c theta"
    and "\<forall>g \<in> set grads. shaped r c g"
  shows "\<forall>n \<le> length grads.
           \<exists>s'. UpdateParams_all (SetTheta s0 theta) (take n grads) = Inr s' \<and>
                GetTimeStep s' = n"
proof (intro allI impI)
  fix n assume n: "n \<le> length grads"
  have "\<forall>g \<in> set (take n grads). shaped r c g"
    using assms(4) by (meson in_set_takeD)
  then obtain s' where "UpdateParams_all (SetTheta s0 theta) (take n grads) = Inr s'"
    "TimeStep s' = TimeStep (SetTheta s0 theta) + length (take n grads)"
    using UpdateParams_all_total [OF SetTheta_ready [OF assms(1,2,3)]] by blast
  then show "\<exists>s'. UpdateParams_all (SetTheta s0 theta) (take n grads) = Inr s' \<and>
                GetTimeStep s' = n"
    using n assms(1) by (simp add: GetTimeStep_def SetTheta_def)
qed

text \<open>Two updates on each of the five optimizers \<open>NewOptimizer\<close> constructs.\<close>

theorem TimeStep_counts_updates_witness:
  "NewOptimizer ''sgd'' = Inr NewSGDOptimizer \<and>
   NewOptimizer ''adagrad'' = Inr NewAdagradOptimizer \<and>
   NewOptimizer ''adadelta'' = Inr NewAdadeltaOptimizer \<and>
   NewOptimizer ''rmsprop'' = Inr NewRMSPropOptimizer \<and>
   NewOptimizer ''adam'' = Inr NewAdamOptimizer \<and>
   shaped 1 1 (NewDense 1 1) \<and> shaped 1 1 grad_one \<and>
   (\<exists>s'. UpdateParams_all (SetTheta NewSGDOptimizer (NewDense 1 1)) [grad_one, grad_one] = Inr s'
         \<and> GetTimeStep s' = 2) \<and>
   (\<exists>s'. UpdateParams_all (SetTheta NewAdagradOptimizer (NewDense 1 1)) [grad_one, grad_one] = Inr s'
         \<and> GetTimeStep s' = 2) \<and>
   (\<exists>s'. UpdateParams_all (SetTheta NewAdadeltaOptimizer (NewDense 1 1)) [grad_one, grad_one] = Inr s'
         \<and> GetTimeStep s' = 2) \<and>
   (\<exists>s'. UpdateParams_all (SetTheta NewRMSPropOptimizer (NewDense 1 1)) [grad_one, grad_one] = Inr s'
         \<and> GetTimeStep s' = 2) \<and>
   (\<exists>s'. UpdateParams_all (SetTheta NewAdamOptimizer (NewDense 1 1)) [grad_one, grad_one] = Inr s'
         \<and> GetTimeStep s' = 2)"
proof -
  have sh: "shaped 1 1 (NewDense 1 1)" "shaped 1 1 grad_one"
    by (simp_all add: shaped_def NewDense_def grad_one_def)
  have gs: "\<forall>g \<in> set [grad_one, grad_one]. shaped 1 1 g" using sh(2) by simp
  have fresh: "TimeStep NewSGDOptimizer = 0" "Update NewSGDOptimizer = None"
    "TimeStep NewAdagradOptimizer = 0" "Update NewAdagradOptimizer = None"
    "TimeStep NewAdadeltaOptimizer = 0" "Update NewAdadeltaOptimizer = None"
    "TimeStep NewRMSPropOptimizer = 0" "Update NewRMSPropOptimizer = None"
    "TimeStep NewAdamOptimizer = 0" "Update NewAdamOptimizer = None"
    by (simp_all add: NewSGDOptimizer_def NewAdagradOptimizer_def NewAdadeltaOptimizer_def
          NewRMSPropOptimizer_def NewAdamOptimizer_def zeroSGDOptimizer_def)
  have two: "(2::nat) \<le> length [grad_one, grad_one]" by simp
  have names: "NewOptimizer ''sgd'' = Inr NewSGDOptimizer"
    "NewOptimizer ''adagrad'' = Inr NewAdagradOptimizer"
    "NewOptimizer ''adadelta'' = Inr NewAdadeltaOptimizer"
    "NewOptimizer ''rmsprop'' = Inr NewRMSPropOptimizer"
    "NewOptimizer ''adam'' = Inr NewAdamOptimizer"
    by (simp_all add: NewOptimizer_def)
  show ?thesis
    using TimeStep_counts_updates [OF fresh(1,2) sh(1) gs, rule_format, OF two]
      TimeStep_counts_updates [OF fresh(3,4) sh(1) gs, rule_format, OF two]
      TimeStep_counts_updates [OF fresh(5,6) sh(1) gs, rule_format, OF two]
      TimeStep_counts_updates [OF fresh(7,8) sh(1) gs, rule_format, OF two]
      TimeStep_counts_updates [OF fresh(9,10) sh(1) gs, rule_format, OF two]
      names sh
    by simp
qed

section \<open>Claim C8: the option defaults of the training loop\<close>

text \<open>
  Claim C8. Take a fit on \<open>n > 0\<close> samples with a solver that has not run and collaborators
  that keep shapes. Let \<open>budget\<close> be \<open>1e6 / n\<close> (the integer quotient) when \<open>Epochs\<close> is not
  positive and \<open>Epochs\<close> otherwise, and let \<open>b\<close> be \<open>clamp(sqrt(n), 1, 100)\<close> truncated to an
  integer when \<open>MiniBatchSize\<close> is not positive, and \<open>MiniBatchSize\<close> clamped to at least 1
  and at most \<open>n\<close> otherwise. Then \<open>LinFit\<close> returns a result, and the loop it runs is the
  epoch loop with the mini-batch size \<open>b\<close> and the budget \<open>budget\<close>: \<open>b\<close> lies between 1 and
  \<open>n\<close>, the run has at most \<open>budget\<close> epochs and exactly \<open>budget\<close> unless it converged, the
  returned \<open>Epoch\<close> is one more than the number of epochs run, and every epoch makes one
  solver update per mini-batch, \<open>ceil(n / b)\<close> of them.
\<close>

theorem LinFit_option_defaults:
  assumes "shaped n f X" "shaped n c Y" "0 < n" "0 < f" "0 < c"
    and "TimeStep s0 = 0" "Update s0 = None"
    and "collaborators_ok env n f c"
    and "budget = (if Epochs opts \<le> 0 then 1000000 div int n else Epochs opts)"
    and "b = (if MiniBatchSize opts \<le> 0 then \<lfloor>max 1 (min 100 (sqrt (real n)))\<rfloor>
              else max 1 (min (int n) (MiniBatchSize opts)))"
  shows "\<exists>res.
           LinFit env g s0 X Y opts = Inr res \<and>
           LinFit_trace env g s0 X Y opts
             = epochs_trace env opts n (nat b) budget 1 (LinFit_start env g s0 X Y) \<and>
           1 \<le> b \<and> b \<le> int n \<and>
           int (length (LinFit_trace env g s0 X Y opts)) \<le> budget \<and>
           (\<not> Converged res \<longrightarrow> int (length (LinFit_trace env g s0 X Y opts)) = budget) \<and>
           Epoch res = 1 + int (length (LinFit_trace env g s0 X Y opts)) \<and>
           (\<forall>k < length (LinFit_trace env g s0 X Y opts).
              TimeStep (solver (LinFit_trace env g s0 X Y opts ! k))
                = (k + 1) * ((n + nat b - 1) div nat b))"
proof -
  let ?tr = "LinFit_trace env g s0 X Y opts"
  let ?st0 = "LinFit_start env g s0 X Y"
  have d: "nrows X = n" using assms(1) by (simp add: shaped_def)
  have e: "epochs_of (Epochs opts) n = Inr budget"
    using assms(3) unfolding assms(9) by (rule epochs_of_value)
  have bv: "miniBatchSize_of (MiniBatchSize opts) n = b"
    using assms(3) unfolding assms(10) by (rule miniBatchSize_of_value)
  have br: "1 \<le> b" "b \<le> int n"
    using miniBatchSize_of_range [OF assms(3), of "MiniBatchSize opts"] unfolding bv by simp_all
  have b0: "0 \<le> budget" unfolding assms(9) using assms(3) by (simp add: pos_imp_zdiv_nonneg_iff)
  have tr: "?tr = epochs_trace env opts n (nat b) budget 1 ?st0"
    using e bv d by (simp add: LinFit_trace_def)
  obtain res stf where r: "LinFit env g s0 X Y opts = Inr res"
    "run_facts env opts n f c budget 1 ?st0 [] ?tr (Epoch res) stf"
    "Converged res = converged stf"
    using LinFit_run0 [OF assms(1,2,4-8) e] by blast
  have a: "Epoch res = 1 + int (length ?tr)"
    "converged stf \<or> budget < Epoch res"
    "1 \<le> budget + 1 \<longrightarrow> Epoch res \<le> budget + 1"
    using r(2) unfolding run_facts_def by blast+
  have le: "int (length ?tr) \<le> budget" using a(1,3) b0 by simp
  have stop: "\<not> Converged res \<longrightarrow> int (length ?tr) = budget"
    using a(1,2) le r(3) by auto
  have i: "loop_inv n f c ?st0" by (rule LinFit_start_inv(1) [OF assms(1,2,6,7)])
  have bp: "0 < nat b" using br(1) by simp
  have t0: "TimeStep (solver ?st0) = 0"
    using assms(6) by (simp add: LinFit_start_def Let_def SetTheta_def)
  have cnt: "\<forall>k < length ?tr.
              TimeStep (solver (?tr ! k)) = (k + 1) * ((n + nat b - 1) div nat b)"
    using epochs_trace_count [OF assms(8,4,5) bp i, of opts budget 1] t0
    unfolding tr by simp
  show ?thesis
    using r(1) tr br le stop a(1) cnt by (intro exI [of _ res] conjI)
qed

text \<open>
  Four samples, every option unset: the budget is 250000 epochs and the batch size 2, so
  the first epoch, which converges, makes two updates. A supplied batch size of 7 becomes
  4, one update per epoch.
\<close>

lemma unset_facts:
  "shaped 4 1 four_by_one" "(0::nat) < 4" "(0::nat) < 1"
  "TimeStep NewSGDOptimizer = 0" "Update NewSGDOptimizer = None"
  "collaborators_ok demo_env 4 1 1"
  "(250000::int) = (if Epochs unset_opts \<le> 0 then 1000000 div int 4 else Epochs unset_opts)"
  "(2::int) = (if MiniBatchSize unset_opts \<le> 0 then \<lfloor>max 1 (min 100 (sqrt (real 4)))\<rfloor>
              else max 1 (min (int 4) (MiniBatchSize unset_opts)))"
  "(250000::int) = (if Epochs (unset_opts\<lparr>MiniBatchSize := 7\<rparr>) \<le> 0 then 1000000 div int 4 else Epochs (unset_opts\<lparr>MiniBatchSize := 7\<rparr>))"
  "(4::int) = (if MiniBatchSize (unset_opts\<lparr>MiniBatchSize := 7\<rparr>) \<le> 0 then \<lfloor>max 1 (min 100 (sqrt (real 4)))\<rfloor>
              else max 1 (min (int 4) (MiniBatchSize (unset_opts\<lparr>MiniBatchSize := 7\<rparr>))))"
  by (simp_all add: shaped_def four_by_one_def NewSGDOptimizer_def zeroSGDOptimizer_def
        collaborators_ok_def demo_env_def NewDense_def unset_opts_def)

lemma unset_run:
  "LinFit demo_env () NewSGDOptimizer four_by_one four_by_one unset_opts
     = Inr \<lparr>Converged = True, RMSE = Fin (1 / 4), J = Fin 0, Epoch = 2,
            ResTheta = one_by_one 0\<rparr>"
  "map (\<lambda>s. TimeStep (solver s))
     (LinFit_trace demo_env () NewSGDOptimizer four_by_one four_by_one unset_opts) = [2]"
  "map (\<lambda>s. TimeStep (solver s))
     (LinFit_trace demo_env () NewSGDOptimizer four_by_one four_by_one
        (unset_opts\<lparr>MiniBatchSize := 7\<rparr>)) = [1]"
  by (simp_all add: linfit_eval demo_env_def unset_opts_def four_by_one_def
        NewSGDOptimizer_def update_SGD_def)

theorem LinFit_option_defaults_witness:
  "shaped 4 1 four_by_one \<and> (0::nat) < 4 \<and> (0::nat) < 1 \<and>
   TimeStep NewSGDOptimizer = 0 \<and> Update NewSGDOptimizer = None \<and>
   collaborators_ok demo_env 4 1 1 \<and>
   (250000::int) = (if Epochs unset_opts \<le> 0 then 1000000 div int 4 else Epochs unset_opts) \<and>
   (2::int) = (if MiniBatchSize unset_opts \<le> 0 then \<lfloor>max 1 (min 100 (sqrt (real 4)))\<rfloor>
              else max 1 (min (int 4) (MiniBatchSize unset_opts))) \<and>
   (250000::int) = (if Epochs (unset_opts\<lparr>MiniBatchSize := 7\<rparr>) \<le> 0 then 1000000 div int 4 else Epochs (unset_opts\<lparr>MiniBatchSize := 7\<rparr>)) \<and>
   (4::int) = (if MiniBatchSize (unset_opts\<lparr>MiniBatchSize := 7\<rparr>) \<le> 0 then \<lfloor>max 1 (min 100 (sqrt (real 4)))\<rfloor>
              else max 1 (min (int 4) (MiniBatchSize (unset_opts\<lparr>MiniBatchSize := 7\<rparr>)))) \<and>
   (\<exists>res.
           LinFit demo_env () NewSGDOptimizer four_by_one four_by_one unset_opts = Inr res \<and>
           LinFit_trace demo_env () NewSGDOptimizer four_by_one four_by_one unset_opts
             = epochs_trace demo_env unset_opts 4 (nat 2) 250000 1 (LinFit_start demo_env () NewSGDOptimizer four_by_one four_by_one) \<and>
           (1::int) \<le> 2 \<and> (2::int) \<le> int 4 \<and>
           int (length (LinFit_trace demo_env () NewSGDOptimizer four_by_one four_by_one unset_opts)) \<le> 250000 \<and>
           (\<not> Converged res \<longrightarrow> int (length (LinFit_trace demo_env () NewSGDOptimizer four_by_one four_by_one unset_opts)) = 250000) \<and>
           Epoch res = 1 + int (length (LinFit_trace demo_env () NewSGDOptimizer four_by_one four_by_one unset_opts)) \<and>
           (\<forall>k < length (LinFit_trace demo_env () NewSGDOptimizer four_by_one four_by_one unset_opts).
              TimeStep (solver (LinFit_trace demo_env () NewSGDOptimizer four_by_one four_by_one unset_opts ! k))
                = (k + 1) * ((4 + nat 2 - 1) div nat 2))) \<and>
   (\<exists>res.
           LinFit demo_env () NewSGDOptimizer four_by_one four_by_one (unset_opts\<lparr>MiniBatchSize := 7\<rparr>) = Inr res \<and>
           LinFit_trace demo_env () NewSGDOptimizer four_by_one four_by_one (unset_opts\<lparr>MiniBatchSize := 7\<rparr>)
             = epochs_trace demo_env (unset_opts\<lparr>MiniBatchSize := 7\<rparr>) 4 (nat 4) 250000 1 (LinFit_start demo_env () NewSGDOptimizer four_by_one four_by_one) \<and>
           (1::int) \<le> 4 \<and> (4::int) \<le> int 4 \<and>
           int (length (LinFit_trace demo_env () NewSGDOptimizer four_by_one four_by_one (unset_opts\<lparr>MiniBatchSize := 7\<rparr>))) \<le> 250000 \<and>
           (\<not> Converged res \<longrightarrow> int (length (LinFit_trace demo_env () NewSGDOptimizer four_by_one four_by_one (unset_opts\<lparr>MiniBatchSize := 7\<rparr>))) = 250000) \<and>
           Epoch res = 1 + int (length (LinFit_trace demo_env () NewSGDOptimizer four_by_one four_by_one (unset_opts\<lparr>MiniBatchSize := 7\<rparr>))) \<and>
           (\<forall>k < length (LinFit_trace demo_env () NewSGDOptimizer four_by_one four_by_one (unset_opts\<lparr>MiniBatchSize := 7\<rparr>)).
              TimeStep (solver (LinFit_trace demo_env () NewSGDOptimizer four_by_one four_by_one (unset_opts\<lparr>MiniBatchSize := 7\<rparr>) ! k))
                = (k + 1) * ((4 + nat 4 - 1) div nat 4))) \<and>
   LinFit demo_env () NewSGDOptimizer four_by_one four_by_one unset_opts
     = Inr \<lparr>Converged = True, RMSE = Fin (1 / 4), J = Fin 0, Epoch = 2,
            ResTheta = one_by_one 0\<rparr> \<and>
   map (\<lambda>s. TimeStep (solver s))
     (LinFit_trace demo_env () NewSGDOptimizer four_by_one four_by_one unset_opts) = [2] \<and>
   map (\<lambda>s. TimeStep (solver s))
     (LinFit_trace demo_env () NewSGDOptimizer four_by_one four_by_one
        (unset_opts\<lparr>MiniBatchSize := 7\<rparr>)) = [1]"
proof -
  note LinFit_option_defaults
    [OF unset_facts(1) unset_facts(1) unset_facts(2) unset_facts(3) unset_facts(3)
        unset_facts(4-8), of "()"]
    LinFit_option_defaults
    [OF unset_facts(1) unset_facts(1) unset_facts(2) unset_facts(3) unset_facts(3)
        unset_facts(4-6) unset_facts(9,10), of "()"]
  with unset_facts unset_run show ?thesis by (intro conjI)
qed

section \<open>Claim C9: what \<open>MakeRegression\<close> returns\<close>

text \<open>
  Claim C9. Let \<open>nSamples\<close>, \<open>nFeatures\<close> and \<open>nTargets\<close> be the arguments \<open>n_samples\<close>,
  \<open>n_features\<close> and \<open>n_targets\<close> (100, 100 and 1 where absent), and \<open>nInformative\<close> the
  smaller of \<open>n_informative\<close> (10 where absent) and \<open>nFeatures\<close>. Whenever \<open>MakeRegression\<close>
  returns, \<open>X\<close> is \<open>nSamples\<close> by \<open>nFeatures\<close>, \<open>y\<close> is \<open>nSamples\<close> by \<open>nTargets\<close>, \<open>Coef\<close> is
  \<open>nInformative\<close> by \<open>nTargets\<close>, and every entry \<open>(i, t)\<close> of \<open>y\<close> is the product of row \<open>i\<close> of
  the first \<open>nInformative\<close> columns of \<open>X\<close> with column \<open>t\<close> of \<open>Coef\<close>, plus the bias of target
  \<open>t\<close>: the \<open>float64\<close> itself, element \<open>t\<close> of a \<open>[]float64\<close>, entry \<open>(0, t)\<close> of a matrix, and
  nothing without a bias of these types. It returns whenever the arguments have their
  documented types, the sizes are positive, a slice or matrix bias has a value for every
  target, and the dimension check lets a well-formed product through; a call with a
  size that is zero or negative, or of another type, panics.
\<close>

theorem MakeRegression_result:
  assumes "nSamples = int_arg kwargs ''n_samples'' 100"
    and "nFeatures = int_arg kwargs ''n_features'' 100"
    and "nTargets = int_arg kwargs ''n_targets'' 1"
    and "nInformative = min (int_arg kwargs ''n_informative'' 10) nFeatures"
  shows "(\<forall>X y Coef. MakeRegression env kwargs = Inr (X, y, Coef) \<longrightarrow>
            shaped (nat nSamples) (nat nFeatures) X \<and>
            shaped (nat nSamples) (nat nTargets) y \<and>
            shaped (nat nInformative) (nat nTargets) Coef \<and>
            0 < nSamples \<and> 0 < nInformative \<and> 0 \<le> nTargets \<and>
            (\<forall>i < nat nSamples. \<forall>t < nat nTargets.
               entry y i t = (\<Sum>f < nat nInformative. entry X i f * entry Coef f t)
                             + bias_term kwargs t)) \<and>
         (args_typed kwargs \<and> bias_fits kwargs (nat nTargets) \<and> check_passes env \<and>
          0 < nSamples \<and> 0 < nInformative \<and> 0 < nTargets \<longrightarrow>
            (\<exists>X y Coef. MakeRegression env kwargs = Inr (X, y, Coef)))"
proof (rule conjI)
  show "\<forall>X y Coef. MakeRegression env kwargs = Inr (X, y, Coef) \<longrightarrow>
            shaped (nat nSamples) (nat nFeatures) X \<and>
            shaped (nat nSamples) (nat nTargets) y \<and>
            shaped (nat nInformative) (nat nTargets) Coef \<and>
            0 < nSamples \<and> 0 < nInformative \<and> 0 \<le> nTargets \<and>
            (\<forall>i < nat nSamples. \<forall>t < nat nTargets.
               entry y i t = (\<Sum>f < nat nInformative. entry X i f * entry Coef f t)
                             + bias_term kwargs t)"
  proof (intro allI impI)
    fix X y Coef assume "MakeRegression env kwargs = Inr (X, y, Coef)"
    then show "shaped (nat nSamples) (nat nFeatures) X \<and>
            shaped (nat nSamples) (nat nTargets) y \<and>
            shaped (nat nInformative) (nat nTargets) Coef \<and>
            0 < nSamples \<and> 0 < nInformative \<and> 0 \<le> nTargets \<and>
            (\<forall>i < nat nSamples. \<forall>t < nat nTargets.
               entry y i t = (\<Sum>f < nat nInformative. entry X i f * entry Coef f t)
                             + bias_term kwargs t)"
      using assms by (rule MakeRegression_shapes)
  qed
  show "args_typed kwargs \<and> bias_fits kwargs (nat nTargets) \<and> check_passes env \<and>
          0 < nSamples \<and> 0 < nInformative \<and> 0 < nTargets \<longrightarrow>
            (\<exists>X y Coef. MakeRegression env kwargs = Inr (X, y, Coef))"
  proof
    assume "args_typed kwargs \<and> bias_fits kwargs (nat nTargets) \<and> check_passes env \<and>
          0 < nSamples \<and> 0 < nInformative \<and> 0 < nTargets"
    then have h: "args_typed kwargs" "bias_fits kwargs (nat nTargets)" "check_passes env"
      "0 < nSamples" "0 < nInformative" "0 < nTargets" by simp_all
    show "\<exists>X y Coef. MakeRegression env kwargs = Inr (X, y, Coef)"
      using h(1-3) assms h(4-6) by (rule MakeRegression_total)
  qed
qed

text \<open>
  Two samples, three features, \<open>n_informative = 5\<close> and two targets with the biases 10 and
  20, on the draws 0, 1, 2, ...: \<open>X\<close> holds the first six draws, \<open>Coef\<close> the next six in three
  rows, and \<open>y\<close> is their product plus the bias of each column.
\<close>

lemma demo_kwargs_args:
  "(2::int) = int_arg demo_kwargs ''n_samples'' 100"
  "(3::int) = int_arg demo_kwargs ''n_features'' 100"
  "(2::int) = int_arg demo_kwargs ''n_targets'' 1"
  "(3::int) = min (int_arg demo_kwargs ''n_informative'' 10) 3"
  "args_typed demo_kwargs" "bias_fits demo_kwargs (nat 2)" "check_passes demo_generator"
  by (simp_all add: demo_kwargs_def int_arg_def args_typed_def typed_arg_def typed_rand_def
        bias_fits_def check_passes_def demo_generator_def)

lemma demo_call:
  "MakeRegression demo_generator demo_kwargs
     = Inr (\<lparr>nrows = 2, ncols = 3, elems = [0, 1, 2, 3, 4, 5]\<rparr>,
            \<lparr>nrows = 2, ncols = 2, elems = [38, 51, 110, 132]\<rparr>,
            \<lparr>nrows = 3, ncols = 2, elems = [6, 7, 8, 9, 10, 11]\<rparr>)"
  by (simp add: MakeRegression_def demo_kwargs_def demo_generator_def get_int_def NewDense_int_def
        NewDense_def fill_random_def rnd_def Slice_dense_def Mul_dense_def add_bias_def Let_def
        upt_0_numeral)

theorem MakeRegression_result_witness:
  "(2::int) = int_arg demo_kwargs ''n_samples'' 100 \<and>
   (3::int) = int_arg demo_kwargs ''n_features'' 100 \<and>
   (2::int) = int_arg demo_kwargs ''n_targets'' 1 \<and>
   (3::int) = min (int_arg demo_kwargs ''n_informative'' 10) 3 \<and>
   args_typed demo_kwargs \<and> bias_fits demo_kwargs (nat 2) \<and> check_passes demo_generator \<and>
   (\<exists>X y Coef. MakeRegression demo_generator demo_kwargs = Inr (X, y, Coef) \<and>
            shaped (nat 2) (nat 3) X \<and>
            shaped (nat 2) (nat 2) y \<and>
            shaped (nat 3) (nat 2) Coef \<and>
            (0::int) < 2 \<and> (0::int) < 3 \<and> (0::int) \<le> 2 \<and>
            (\<forall>i < nat 2. \<forall>t < nat 2.
               entry y i t = (\<Sum>f < nat 3. entry X i f * entry Coef f t)
                             + bias_term demo_kwargs t)) \<and>
   MakeRegression demo_generator demo_kwargs
     = Inr (\<lparr>nrows = 2, ncols = 3, elems = [0, 1, 2, 3, 4, 5]\<rparr>,
            \<lparr>nrows = 2, ncols = 2, elems = [38, 51, 110, 132]\<rparr>,
            \<lparr>nrows = 3, ncols = 2, elems = [6, 7, 8, 9, 10, 11]\<rparr>)"
proof -
  note r = MakeRegression_result [OF demo_kwargs_args(1-4), of demo_generator]
  have "\<exists>X y Coef. MakeRegression demo_generator demo_kwargs = Inr (X, y, Coef)"
    using r [THEN conjunct2] demo_kwargs_args(5-7) by simp
  then obtain X y Coef where c: "MakeRegression demo_generator demo_kwargs = Inr (X, y, Coef)"
    by (elim exE)
  note p = r [THEN conjunct1, rule_format, OF c]
  have "\<exists>X y Coef. MakeRegression demo_generator demo_kwargs = Inr (X, y, Coef) \<and>
            shaped (nat 2) (nat 3) X \<and>
            shaped (nat 2) (nat 2) y \<and>
            shaped (nat 3) (nat 2) Coef \<and>
            (0::int) < 2 \<and> (0::int) < 3 \<and> (0::int) \<le> 2 \<and>
            (\<forall>i < nat 2. \<forall>t < nat 2.
               entry y i t = (\<Sum>f < nat 3. entry X i f * entry Coef f t)
                             + bias_term demo_kwargs t)"
    by (intro exI, rule conjI [OF c p])
  with demo_kwargs_args demo_call show ?thesis by (intro conjI)
qed

end
